(* ===== verification/Prelude.thy ===== *)
theory Prelude
  imports Main "HOL-Library.Word" "HOL-Library.Signed_Division"
begin

text \<open>
  Shared vocabulary of the development: the Go types of
  \<^verbatim>\<open>src/app/shortest_route.go\<close> as HOL types, Go's \<open>int64\<close> arithmetic on
  \<open>64 word\<close> (wrap-around addition, division truncating towards zero), the
  standard-library helper \<^verbatim>\<open>strings.Join\<close>, and the generic lemmas on lists,
  words and maps that the component theories share.
\<close>

section \<open>Types of the Go program\<close>

text \<open>Go's \<open>int64\<close> (and \<open>int\<close>, which is 64 bits wide on the deployment
  platform) is a 64-bit two's-complement word: \<open>+\<close> wraps, \<open>sint\<close> reads it.\<close>

type_synonym int64 = "64 word"

text \<open>A token is the string form of a version-4 UUID.\<close>

type_synonym token = string

text \<open>\<^verbatim>\<open>type routePath [][]string\<close> (line 32): the decoded request body, one
  list of coordinate strings per waypoint.\<close>

type_synonym route_path = "string list list"

text \<open>\<^verbatim>\<open>json.Unmarshal\<close> into a \<^verbatim>\<open>routePath\<close> is a library call: the
  model takes it as a parameter, a function from the raw bytes to an error text
  (\<open>Inl\<close>) or the decoded path (\<open>Inr\<close>). Both handlers use the same decoder.\<close>

type_synonym decoder = "string \<Rightarrow> string + route_path"

named_theorems go_simps "characteristic equations of the modelled Go operations"

section \<open>Go arithmetic on int64\<close>

text \<open>Go's integer division truncates towards zero; \<open>sdiv\<close> on \<open>int\<close>
  (HOL-Library.Signed_Division) is that rule, and the result is truncated back to
  64 bits (only \<open>MinInt64 / -1\<close> wraps).\<close>

definition go_div64 :: "int64 \<Rightarrow> int64 \<Rightarrow> int64" where
  "go_div64 a b = word_of_int (sint a sdiv sint b)"

text \<open>\<^verbatim>\<open>strings.Join(elems, sep)\<close>.\<close>

fun strings_join :: "string list \<Rightarrow> string \<Rightarrow> string" where
  "strings_join [] sep = []"
| "strings_join [x] sep = x"
| "strings_join (x # y # zs) sep = x @ sep @ strings_join (y # zs) sep"

section \<open>Words\<close>

lemma sint_of_int_int64 [simp]:
  assumes "- (2 ^ 63) \<le> k" and "k < 2 ^ 63"
  shows "sint (word_of_int k :: int64) = k"
proof -
  have "sint (word_of_int k :: int64) = signed_take_bit 63 k"
    by (simp add: sint_sbintrunc')
  also have "\<dots> = k"
    using assms by (simp add: signed_take_bit_int_eq_self)
  finally show ?thesis .
qed

lemma word_of_int_sum_list:
  "(word_of_int (sum_list xs) :: 'a::len word) = sum_list (map word_of_int xs)"
  by (induction xs) simp_all

lemma sum_list_bounded:
  fixes xs :: "int list"
  assumes "\<forall>x \<in> set xs. 0 \<le> x \<and> x < b"
  shows "0 \<le> sum_list xs \<and> sum_list xs \<le> int (length xs) * b"
  using assms by (induction xs) (auto simp: algebra_simps)

lemma sint_sum_list_int64:
  fixes xs :: "int list"
  assumes "\<forall>x \<in> set xs. 0 \<le> x" and "sum_list xs < 2 ^ 63"
  shows "sint (sum_list (map word_of_int xs) :: int64) = sum_list xs"
proof -
  have "0 \<le> sum_list xs"
    using assms(1) by (simp add: sum_list_nonneg)
  then have "- (2 ^ 63) \<le> sum_list xs" by simp
  then have "sint (word_of_int (sum_list xs) :: int64) = sum_list xs"
    using assms(2) by (rule sint_of_int_int64)
  then show ?thesis by (simp add: word_of_int_sum_list)
qed

lemma sint_go_div64_nonneg:
  assumes "0 \<le> sint a" and "0 < sint b"
  shows "sint (go_div64 a b) = sint a div sint b"
proof -
  have q: "sint a sdiv sint b = sint a div sint b"
    using assms by (simp add: signed_divide_int_def sgn_if)
  have "sint a div sint b \<le> sint a"
    using assms by (cases "sint a = 0") (simp_all add: int_div_le_self)
  moreover have "sint a < 2 ^ 63"
    using sint_less [of a] by simp
  moreover have "0 \<le> sint a div sint b"
    using assms by (simp add: pos_imp_zdiv_nonneg_iff)
  ultimately show ?thesis
    by (simp add: go_div64_def q)
qed

section \<open>Lists\<close>

lemma zip_take_left: "zip (take k xs) ys = take k (zip xs ys)"
  by (induction xs arbitrary: k ys) (auto simp: take_Cons' zip_Cons1 split: list.splits)

lemma strings_join_pair [simp, go_simps]:
  "strings_join [a, b] sep = a @ sep @ b"
  by simp

lemma map_of_filter_key [simp]: "map_of (filter (\<lambda>w. fst w \<noteq> k) xs) k = None"
  by (induction xs) auto

end
