(* ===== verification/JobStore.thy ===== *)
theory JobStore
  imports Prelude
begin

text \<open>
  The job store: the MySQL table \<^verbatim>\<open>travel_details\<close> that
  \<^verbatim>\<open>src/app/shortest_route.go\<close> reads and writes through the global handle
  \<^verbatim>\<open>db\<close>. The table's schema lives in the repository's migrations, outside
  \<^verbatim>\<open>src/\<close>; it is modelled from the specification (section 4.2): one row per
  token, an insert of a present token fails, an update writes the terminal columns of
  the rows with that token, a select returns the row or \<^verbatim>\<open>sql.ErrNoRows\<close>.
  The three statements of the source are \<open>db_insert\<close> (line 129),
  \<open>db_update\<close> (the prepared statement of line 149, executed at lines 165, 179
  and 187) and \<open>db_select\<close> (line 212). An abstraction to the specification's
  job map with a three-valued status shows that the integer encoding of the status
  refines the specification's store.
\<close>

section \<open>Rows and statements\<close>

text \<open>A row of \<^verbatim>\<open>travel_details\<close>: the columns the source names. The status
  is the bare integer of the source: \<open>0\<close> in progress, \<open>1\<close> success,
  \<open>-1\<close> failure.\<close>

record job_row =
  row_path :: string
  row_token :: token
  row_status :: int
  row_total_distance :: int64
  row_total_time :: int64
  row_response_error :: string

type_synonym store = "token \<rightharpoonup> job_row"

datatype db_error = Duplicate_key | No_rows | Db_failure string

text \<open>\<^verbatim>\<open>INSERT INTO travel_details(path, token, status) VALUES (?, ?, ?)\<close>:
  the columns not named take their defaults (zero totals, empty error text).\<close>

definition new_row :: "string \<Rightarrow> token \<Rightarrow> int \<Rightarrow> job_row" where
  "new_row p t st =
     \<lparr>row_path = p, row_token = t, row_status = st, row_total_distance = 0,
      row_total_time = 0, row_response_error = []\<rparr>"

definition db_insert :: "string \<Rightarrow> token \<Rightarrow> int \<Rightarrow> store \<Rightarrow> db_error + store" where
  "db_insert p t st s =
     (case s t of
        Some _ \<Rightarrow> Inl Duplicate_key
      | None \<Rightarrow> Inr (s(t \<mapsto> new_row p t st)))"

text \<open>\<^verbatim>\<open>UPDATE travel_details SET status=?, total_distance=?, total_time=?,
  response_error=? WHERE token=?\<close>: no matching row is not an error (zero rows
  affected).\<close>

definition db_update :: "int \<Rightarrow> int64 \<Rightarrow> int64 \<Rightarrow> string \<Rightarrow> token \<Rightarrow> store \<Rightarrow> store" where
  "db_update st d tm e t s =
     (case s t of
        None \<Rightarrow> s
      | Some r \<Rightarrow> s(t \<mapsto> r\<lparr>row_status := st, row_total_distance := d,
                           row_total_time := tm, row_response_error := e\<rparr>))"

text \<open>\<^verbatim>\<open>db.QueryRow("SELECT path, status, total_distance, total_time,
  response_error ... WHERE token=?").Scan(...)\<close>.\<close>

definition db_select :: "token \<Rightarrow> store \<Rightarrow> db_error + job_row" where
  "db_select t s = (case s t of None \<Rightarrow> Inl No_rows | Some r \<Rightarrow> Inr r)"

section \<open>The specification's job store\<close>

datatype job_status = Pending | Success | Failure

record job =
  job_path :: string
  job_status :: job_status
  job_total_distance :: int
  job_total_time :: int
  job_error :: string

definition status_of_int :: "int \<Rightarrow> job_status option" where
  "status_of_int n =
     (if n = 0 then Some Pending else if n = 1 then Some Success
      else if n = -1 then Some Failure else None)"

text \<open>The abstraction: a row with a recognised status code is the job with that
  status; totals are read as signed 64-bit integers.\<close>

definition job_of_row :: "job_row \<Rightarrow> job option" where
  "job_of_row r =
     map_option (\<lambda>st. \<lparr>job_path = row_path r, job_status = st,
                       job_total_distance = sint (row_total_distance r),
                       job_total_time = sint (row_total_time r),
                       job_error = row_response_error r\<rparr>)
       (status_of_int (row_status r))"

definition abs_store :: "store \<Rightarrow> token \<rightharpoonup> job" where
  "abs_store s t = Option.bind (s t) job_of_row"

text \<open>The specification's operations on the abstract store.\<close>

definition spec_insert :: "string \<Rightarrow> token \<Rightarrow> (token \<rightharpoonup> job) \<Rightarrow> (token \<rightharpoonup> job)" where
  "spec_insert p t m =
     m(t \<mapsto> \<lparr>job_path = p, job_status = Pending, job_total_distance = 0,
            job_total_time = 0, job_error = []\<rparr>)"

definition spec_finish ::
  "job_status \<Rightarrow> int \<Rightarrow> int \<Rightarrow> string \<Rightarrow> token \<Rightarrow> (token \<rightharpoonup> job) \<Rightarrow> (token \<rightharpoonup> job)" where
  "spec_finish st d tm e t m =
     (case m t of
        None \<Rightarrow> m
      | Some j \<Rightarrow> m(t \<mapsto> j\<lparr>job_status := st, job_total_distance := d,
                           job_total_time := tm, job_error := e\<rparr>))"

text \<open>The type invariant of the table: every row carries one of the three status
  codes and is stored under its own token.\<close>

definition store_wf :: "store \<Rightarrow> bool" where
  "store_wf s \<longleftrightarrow>
     (\<forall>t r. s t = Some r \<longrightarrow> row_token r = t \<and> status_of_int (row_status r) \<noteq> None)"

section \<open>Characteristic lemmas\<close>

lemma db_insert_Inl_iff [go_simps]:
  "(\<exists>e. db_insert p t st s = Inl e) \<longleftrightarrow> t \<in> dom s"
  by (auto simp: db_insert_def split: option.splits)

lemma db_insert_Inr [go_simps]:
  "db_insert p t st s = Inr s' \<longleftrightarrow> s t = None \<and> s' = s(t \<mapsto> new_row p t st)"
  by (auto simp: db_insert_def split: option.splits)

lemma db_update_other [simp, go_simps]:
  "t' \<noteq> t \<Longrightarrow> db_update st d tm e t s t' = s t'"
  by (simp add: db_update_def split: option.splits)

lemma db_update_same [simp, go_simps]:
  "db_update st d tm e t s t =
     map_option (\<lambda>r. r\<lparr>row_status := st, row_total_distance := d,
                       row_total_time := tm, row_response_error := e\<rparr>) (s t)"
  by (simp add: db_update_def split: option.splits)

lemma dom_db_update [simp]: "dom (db_update st d tm e t s) = dom s"
  by (auto simp: db_update_def split: option.splits)

lemma db_select_Inr [go_simps]: "db_select t s = Inr r \<longleftrightarrow> s t = Some r"
  by (simp add: db_select_def split: option.splits)

lemma status_of_int_codes [simp]:
  "status_of_int 0 = Some Pending" "status_of_int 1 = Some Success"
  "status_of_int (-1) = Some Failure"
  by (simp_all add: status_of_int_def)

lemma store_wf_empty [simp]: "store_wf Map.empty"
  by (simp add: store_wf_def)

lemma store_wf_db_insert:
  "store_wf s \<Longrightarrow> status_of_int st \<noteq> None \<Longrightarrow> db_insert p t st s = Inr s' \<Longrightarrow> store_wf s'"
  by (auto simp: store_wf_def db_insert_Inr new_row_def)

lemma store_wf_db_update:
  "store_wf s \<Longrightarrow> status_of_int st \<noteq> None \<Longrightarrow> store_wf (db_update st d tm e t s)"
  by (auto simp: store_wf_def db_update_def split: option.splits if_splits)

section \<open>Refinement of the specification's store\<close>

lemma abs_store_db_insert:
  assumes "db_insert p t 0 s = Inr s'"
  shows "abs_store s' = spec_insert p t (abs_store s)"
  using assms
  by (auto simp: db_insert_Inr abs_store_def spec_insert_def job_of_row_def new_row_def)

lemma abs_store_db_update:
  assumes "store_wf s" and "status_of_int st = Some a"
  shows "abs_store (db_update st d tm e t s) =
           spec_finish a (sint d) (sint tm) e t (abs_store s)"
proof
  fix t'
  show "abs_store (db_update st d tm e t s) t' =
          spec_finish a (sint d) (sint tm) e t (abs_store s) t'"
  proof (cases "t' = t")
    case True
    show ?thesis
    proof (cases "s t")
      case None
      with True show ?thesis by (simp add: abs_store_def spec_finish_def)
    next
      case (Some r)
      with assms(1) obtain b where "status_of_int (row_status r) = Some b"
        by (auto simp: store_wf_def)
      with Some True assms(2) show ?thesis
        by (simp add: abs_store_def spec_finish_def job_of_row_def)
    qed
  next
    case False
    then show ?thesis
      by (cases "s t")
         (auto simp: abs_store_def spec_finish_def job_of_row_def split: option.splits)
  qed
qed

lemma db_insert_select:
  assumes "db_insert p t st s = Inr s'"
  shows "db_select t s' = Inr (new_row p t st)"
  using assms by (simp add: db_insert_Inr db_select_def)

end
