(* ===== verification/Worker.thy ===== *)
theory Worker
  imports JobStore
begin

text \<open>
  The background worker: \<^verbatim>\<open>processRoute\<close> (lines 143--192 of
  \<^verbatim>\<open>src/app/shortest_route.go\<close>), run as a goroutine per accepted route. It
  prepares the update statement, sends one Distance Matrix request with the
  waypoints but the last as origins and the waypoints but the first as destinations,
  and walks the response rows: row \<open>i\<close> contributes its element \<open>i\<close>; the
  first element whose status is not \<^verbatim>\<open>"OK"\<close> ends the job as a failure with
  that status, otherwise the totals (\<open>int64\<close>, wrapping) end it as a success.
  The Distance Matrix service is a collaborator outside the repository: the model
  takes it as a function from the request to a transport error or the rows, and
  states its contract (the response is the full origin-by-destination matrix of
  per-pair answers) as a separate definition.
\<close>

section \<open>The Distance Matrix collaborator\<close>

text \<open>\<^verbatim>\<open>maps.DistanceMatrixElement\<close>: the status, \<^verbatim>\<open>Distance.Meters\<close> (a
  Go \<open>int\<close>) and \<^verbatim>\<open>Duration\<close> (a \<^verbatim>\<open>time.Duration\<close>, nanoseconds).\<close>

record dm_element =
  el_status :: string
  el_meters :: int64
  el_duration :: int64

type_synonym dm_row = "dm_element list"

record dm_request =
  dm_origins :: "string list"
  dm_destinations :: "string list"

text \<open>The service's contract: row \<open>i\<close>, element \<open>j\<close> is the answer \<open>f o d\<close>
  for origin \<open>i\<close> and destination \<open>j\<close>.\<close>

definition dm_matrix :: "(string \<Rightarrow> string \<Rightarrow> dm_element) \<Rightarrow> dm_request \<Rightarrow> dm_row list" where
  "dm_matrix f req = map (\<lambda>org. map (f org) (dm_destinations req)) (dm_origins req)"

section \<open>The worker\<close>

text \<open>What the environment decides for one run: a failure of \<^verbatim>\<open>db.Prepare\<close>,
  the service's answer, a failure of \<^verbatim>\<open>stmt.Exec\<close>.\<close>

record worker_env =
  prepare_fault :: "string option"
  dm_service :: "dm_request \<Rightarrow> string + dm_row list"
  exec_fault :: "string option"

definition go_second :: int64 where
  "go_second = 1000000000"

text \<open>Lines 157--159: the slices \<^verbatim>\<open>[:len-1]\<close> and \<^verbatim>\<open>[1:]\<close> panic on an
  empty slice.\<close>

definition request_of :: "string list \<Rightarrow> dm_request" where
  "request_of pts = \<lparr>dm_origins = butlast pts, dm_destinations = tl pts\<rparr>"

definition build_request :: "string list \<Rightarrow> dm_request option" where
  "build_request pts = (if pts = [] then None else Some (request_of pts))"

datatype loop_result = Loop_done int64 int64 | Loop_failed string | Loop_panic

text \<open>The loop of lines 172--185, with the index \<open>i\<close> of the range and the two
  accumulators. \<^verbatim>\<open>row.Elements[i]\<close> out of range is a run-time panic.\<close>

fun sum_rows :: "nat \<Rightarrow> dm_row list \<Rightarrow> int64 \<Rightarrow> int64 \<Rightarrow> loop_result" where
  "sum_rows i [] d tm = Loop_done d tm"
| "sum_rows i (row # rows) d tm =
     (if i < length row then
        (if el_status (row ! i) = ''OK''
         then sum_rows (Suc i) rows (d + el_meters (row ! i))
                (tm + go_div64 (el_duration (row ! i)) go_second)
         else Loop_failed (el_status (row ! i)))
      else Loop_panic)"

datatype worker_exit = Exit_no_statement | Exit_failed | Exit_completed | Exit_panic

text \<open>\<^verbatim>\<open>stmt.Exec(status, total_distance, total_time, response_error, token)\<close>:
  an error is only logged, and then the row is not written.\<close>

definition finish :: "worker_env \<Rightarrow> int \<Rightarrow> int64 \<Rightarrow> int64 \<Rightarrow> string \<Rightarrow> token \<Rightarrow> store \<Rightarrow> store" where
  "finish env st d tm e t s = (case exec_fault env of Some _ \<Rightarrow> s | None \<Rightarrow> db_update st d tm e t s)"

text \<open>Lines 143--192.\<close>

definition processRoute :: "worker_env \<Rightarrow> token \<Rightarrow> string list \<Rightarrow> store \<Rightarrow> store \<times> worker_exit" where
  "processRoute env t pts s =
     (case prepare_fault env of
        Some _ \<Rightarrow> (s, Exit_no_statement)
      | None \<Rightarrow>
          (case build_request pts of
             None \<Rightarrow> (s, Exit_panic)
           | Some req \<Rightarrow>
               (case dm_service env req of
                  Inl err \<Rightarrow> (finish env (-1) 0 0 err t s, Exit_failed)
                | Inr rows \<Rightarrow>
                    (case sum_rows 0 rows 0 0 of
                       Loop_failed st \<Rightarrow> (finish env (-1) 0 0 st t s, Exit_failed)
                     | Loop_panic \<Rightarrow> (s, Exit_panic)
                     | Loop_done d tm \<Rightarrow> (finish env 1 d tm [] t s, Exit_completed)))))"

section \<open>The specification of the aggregation\<close>

text \<open>Section 4.3 of the specification, on unbounded integers: the answers for the
  consecutive pairs, in order; the first that is not \<^verbatim>\<open>OK\<close> is the failure,
  otherwise the sums of the distances and of the durations in whole seconds
  (truncated, as Go's division).\<close>

definition consecutive_pairs :: "'a list \<Rightarrow> ('a \<times> 'a) list" where
  "consecutive_pairs xs = zip xs (tl xs)"

datatype spec_outcome = Spec_success int int | Spec_failure string

definition el_seconds :: "dm_element \<Rightarrow> int" where
  "el_seconds e = sint (el_duration e) sdiv 1000000000"

fun spec_aggregate :: "dm_element list \<Rightarrow> spec_outcome" where
  "spec_aggregate [] = Spec_success 0 0"
| "spec_aggregate (e # es) =
     (if el_status e = ''OK'' then
        (case spec_aggregate es of
           Spec_success d tm \<Rightarrow> Spec_success (sint (el_meters e) + d) (el_seconds e + tm)
         | Spec_failure st \<Rightarrow> Spec_failure st)
      else Spec_failure (el_status e))"

text \<open>The answers the worker should combine for a route.\<close>

definition pair_answers :: "(string \<Rightarrow> string \<Rightarrow> dm_element) \<Rightarrow> string list \<Rightarrow> dm_element list" where
  "pair_answers f pts = map (\<lambda>(a, b). f a b) (consecutive_pairs pts)"

text \<open>The service answers a request by its contract.\<close>

definition answers_by :: "worker_env \<Rightarrow> (string \<Rightarrow> string \<Rightarrow> dm_element) \<Rightarrow> dm_request \<Rightarrow> bool" where
  "answers_by env f req \<longleftrightarrow> dm_service env req = Inr (dm_matrix f req)"

text \<open>The loop over the answers for consecutive pairs, with the accumulators of the
  source: the body of lines 173--183 without the indexing.\<close>

fun sum_elements :: "dm_element list \<Rightarrow> int64 \<Rightarrow> int64 \<Rightarrow> loop_result" where
  "sum_elements [] d tm = Loop_done d tm"
| "sum_elements (e # es) d tm =
     (if el_status e = ''OK''
      then sum_elements es (d + el_meters e) (tm + go_div64 (el_duration e) go_second)
      else Loop_failed (el_status e))"

text \<open>The loop result that a specification outcome corresponds to, from the
  accumulators \<open>a\<close> and \<open>b\<close>.\<close>

definition loop_of_spec :: "int \<Rightarrow> int \<Rightarrow> spec_outcome \<Rightarrow> loop_result" where
  "loop_of_spec a b r =
     (case r of
        Spec_success d tm \<Rightarrow> Loop_done (word_of_int (a + d)) (word_of_int (b + tm))
      | Spec_failure st \<Rightarrow> Loop_failed st)"

section \<open>Concrete instances\<close>

text \<open>An environment in which nothing fails and the service honours its contract,
  and the answers of the specification's examples (section 8) for the route
  \<^verbatim>\<open>[[1,1],[2,2],[3,3]]\<close>: both pairs \<^verbatim>\<open>OK\<close> with 1000 m / 60 s and
  2000 m / 120 s, or the second pair \<^verbatim>\<open>ZERO_RESULTS\<close>.\<close>

definition contract_env :: "(string \<Rightarrow> string \<Rightarrow> dm_element) \<Rightarrow> worker_env" where
  "contract_env f =
     \<lparr>prepare_fault = None, dm_service = (\<lambda>req. Inr (dm_matrix f req)), exec_fault = None\<rparr>"

definition example_points :: "string list" where
  "example_points = [''1,1'', ''2,2'', ''3,3'']"

definition example_answer :: "string \<Rightarrow> string \<Rightarrow> string \<Rightarrow> dm_element" where
  "example_answer second_status a b =
     (if a = ''1,1'' \<and> b = ''2,2''
      then \<lparr>el_status = ''OK'', el_meters = 1000, el_duration = 60000000000\<rparr>
      else if a = ''2,2'' \<and> b = ''3,3''
      then (if second_status = ''OK''
            then \<lparr>el_status = ''OK'', el_meters = 2000, el_duration = 120000000000\<rparr>
            else \<lparr>el_status = second_status, el_meters = 0, el_duration = 0\<rparr>)
      else \<lparr>el_status = ''OK'', el_meters = 5000, el_duration = 300000000000\<rparr>)"

section \<open>The row-and-element indexing picks the consecutive pairs\<close>

lemma sum_rows_matrix:
  assumes "i + length os \<le> length ds"
  shows "sum_rows i (map (\<lambda>org. map (f org) ds) os) d tm =
           sum_elements (map (\<lambda>(a, b). f a b) (zip os (drop i ds))) d tm"
  using assms
proof (induction os arbitrary: i d tm)
  case Nil
  then show ?case by simp
next
  case (Cons org os)
  then have i: "i < length ds" by simp
  then have drop: "drop i ds = ds ! i # drop (Suc i) ds"
    by (rule Cons_nth_drop_Suc [symmetric])
  from Cons.prems have "Suc i + length os \<le> length ds" by simp
  note IH = Cons.IH [OF this]
  show ?case using i by (simp add: drop IH)
qed

lemma zip_butlast_tl: "zip (butlast xs) (tl xs) = zip xs (tl xs)"
  by (induction xs rule: induct_list012) simp_all

lemma sum_rows_request:
  "sum_rows 0 (dm_matrix f (request_of pts)) d tm = sum_elements (pair_answers f pts) d tm"
proof -
  have "length (butlast pts) \<le> length (tl pts)" by simp
  then have "sum_rows 0 (dm_matrix f (request_of pts)) d tm =
               sum_elements (map (\<lambda>(a, b). f a b) (zip (butlast pts) (tl pts))) d tm"
    using sum_rows_matrix [of 0 "butlast pts" "tl pts" f d tm]
    by (simp add: dm_matrix_def request_of_def)
  then show ?thesis
    by (simp add: pair_answers_def consecutive_pairs_def zip_butlast_tl)
qed

text \<open>A response of the first \<open>k\<close> rows of the matrix: the loop reads the first
  \<open>k\<close> consecutive pairs.\<close>

lemma sum_rows_request_prefix:
  "sum_rows 0 (take k (dm_matrix f (request_of pts))) d tm =
     sum_elements (take k (pair_answers f pts)) d tm"
proof -
  have "length (take k (butlast pts)) \<le> length (tl pts)" by simp
  then have "sum_rows 0 (take k (dm_matrix f (request_of pts))) d tm =
               sum_elements (map (\<lambda>(a, b). f a b) (zip (take k (butlast pts)) (tl pts))) d tm"
    using sum_rows_matrix [of 0 "take k (butlast pts)" "tl pts" f d tm]
    by (simp add: dm_matrix_def request_of_def take_map)
  then show ?thesis
    by (simp add: pair_answers_def consecutive_pairs_def zip_take_left zip_butlast_tl take_map)
qed

section \<open>The int64 loop computes the specification modulo 2^64\<close>

lemma sint_go_second [simp]: "sint go_second = 1000000000"
  by (simp add: go_second_def)

lemma go_div64_second: "go_div64 (el_duration e) go_second = word_of_int (el_seconds e)"
  by (simp add: go_div64_def el_seconds_def)

lemma sum_elements_spec:
  "sum_elements es (word_of_int a) (word_of_int b) = loop_of_spec a b (spec_aggregate es)"
proof (induction es arbitrary: a b)
  case Nil
  then show ?case by (simp add: loop_of_spec_def)
next
  case (Cons e es)
  have d: "word_of_int a + el_meters e = word_of_int (a + sint (el_meters e))"
    by simp
  have t: "word_of_int b + go_div64 (el_duration e) go_second = word_of_int (b + el_seconds e)"
    by (simp add: go_div64_second)
  have IH: "sum_elements es (word_of_int (a + sint (el_meters e))) (word_of_int (b + el_seconds e)) =
     loop_of_spec (a + sint (el_meters e)) (b + el_seconds e) (spec_aggregate es)"
    by (rule Cons.IH)
  show ?case
  proof (cases "el_status e = ''OK''")
    case True
    then show ?thesis
      by (simp only: sum_elements.simps spec_aggregate.simps if_True d t IH)
         (simp add: loop_of_spec_def add.assoc split: spec_outcome.split)
  next
    case False
    then show ?thesis by (simp add: loop_of_spec_def)
  qed
qed

lemma sum_elements_spec0:
  "sum_elements es 0 0 = loop_of_spec 0 0 (spec_aggregate es)"
  using sum_elements_spec [of es 0 0] by simp

section \<open>The specification's aggregate\<close>

lemma spec_aggregate_all_ok:
  "list_all (\<lambda>e. el_status e = ''OK'') es \<Longrightarrow>
     spec_aggregate es =
       Spec_success (sum_list (map (\<lambda>e. sint (el_meters e)) es)) (sum_list (map el_seconds es))"
  by (induction es) simp_all

lemma spec_aggregate_first_failure:
  "list_all (\<lambda>e. el_status e = ''OK'') pre \<Longrightarrow> el_status e \<noteq> ''OK'' \<Longrightarrow>
     spec_aggregate (pre @ e # post) = Spec_failure (el_status e)"
  by (induction pre) simp_all

lemma el_seconds_bounds:
  assumes "0 \<le> sint (el_duration e)"
  shows "0 \<le> el_seconds e \<and> el_seconds e < 2 ^ 34"
proof -
  have "el_seconds e = sint (el_duration e) div 1000000000"
    using assms by (simp add: el_seconds_def signed_divide_int_def sgn_if)
  moreover have "sint (el_duration e) < 2 ^ 63"
    using sint_less [of "el_duration e"] by simp
  then have "sint (el_duration e) div 1000000000 \<le> (2 ^ 63) div (1000000000 :: int)"
    by (intro zdiv_mono1) simp_all
  ultimately show ?thesis
    using assms by (simp add: pos_imp_zdiv_nonneg_iff)
qed

section \<open>Frame of the worker\<close>

lemma finish_other [simp]: "t' \<noteq> t \<Longrightarrow> finish env st d tm e t s t' = s t'"
  by (simp add: finish_def split: option.splits)

lemma processRoute_other:
  "t' \<noteq> t \<Longrightarrow> fst (processRoute env t pts s) t' = s t'"
  by (simp add: processRoute_def split: option.splits sum.splits loop_result.splits)

lemma length_pair_answers [simp]: "length (pair_answers f pts) = length pts - 1"
  by (simp add: pair_answers_def consecutive_pairs_def)

lemma processRoute_effect:
  "fst (processRoute env t pts s) = s \<or>
   (\<exists>st d tm e. (st = 1 \<or> st = -1) \<and> fst (processRoute env t pts s) = db_update st d tm e t s)"
  by (auto simp: processRoute_def finish_def split: option.splits sum.splits loop_result.splits)

lemma processRoute_panic:
  "snd (processRoute env t pts s) = Exit_panic \<Longrightarrow> fst (processRoute env t pts s) = s"
  by (auto simp: processRoute_def finish_def split: option.splits sum.splits loop_result.splits)

lemma processRoute_row:
  assumes "fst (processRoute env t pts s) t' = Some r'"
  shows "\<exists>r. s t' = Some r \<and> row_path r' = row_path r \<and> row_token r' = row_token r \<and>
           (r' = r \<or> t' = t \<and> (row_status r' = 1 \<or> row_status r' = -1))"
proof (cases "t' = t")
  case False
  with assms show ?thesis by (simp add: processRoute_other)
next
  case True
  from processRoute_effect [of env t pts s] assms True show ?thesis
    by (auto simp: db_update_def split: option.splits)
qed

section \<open>The worker under the service's contract\<close>

lemma processRoute_contract:
  assumes "prepare_fault env = None" and "exec_fault env = None" and "pts \<noteq> []"
    and "answers_by env f (request_of pts)"
  shows "processRoute env t pts s =
           (case spec_aggregate (pair_answers f pts) of
              Spec_success d tm \<Rightarrow> (db_update 1 (word_of_int d) (word_of_int tm) [] t s, Exit_completed)
            | Spec_failure st \<Rightarrow> (db_update (-1) 0 0 st t s, Exit_failed))"
  using assms
  by (simp add: processRoute_def build_request_def answers_by_def finish_def
                sum_rows_request sum_elements_spec0 loop_of_spec_def
           split: spec_outcome.split)

text \<open>C4. When every consecutive pair is answered \<^verbatim>\<open>OK\<close>, the worker marks the
  job a success (status 1, empty error) with the sums of the pairs' distances and
  durations in seconds, taken modulo 2^64 as Go's int64 additions do.\<close>

theorem processRoute_success:
  assumes "prepare_fault env = None" and "exec_fault env = None" and "pts \<noteq> []"
    and "answers_by env f (request_of pts)"
    and "list_all (\<lambda>e. el_status e = ''OK'') (pair_answers f pts)"
  shows "processRoute env t pts s =
           (db_update 1 (word_of_int (sum_list (map (\<lambda>e. sint (el_meters e)) (pair_answers f pts))))
                        (word_of_int (sum_list (map el_seconds (pair_answers f pts)))) [] t s,
            Exit_completed)"
  using processRoute_contract [OF assms(1-4)] spec_aggregate_all_ok [OF assms(5)] by simp

text \<open>C5. If pair \<open>k\<close> is the first whose answer is not \<^verbatim>\<open>OK\<close>, the worker marks
  the job a failure with that answer's status as the error text and zero totals,
  whatever the answers after it are.\<close>

theorem processRoute_first_failure:
  assumes "prepare_fault env = None" and "exec_fault env = None" and "pts \<noteq> []"
    and "answers_by env f (request_of pts)"
    and "pair_answers f pts = pre @ e # post"
    and "list_all (\<lambda>x. el_status x = ''OK'') pre" and "el_status e \<noteq> ''OK''"
  shows "processRoute env t pts s = (db_update (-1) 0 0 (el_status e) t s, Exit_failed)"
  using processRoute_contract [OF assms(1-4)] spec_aggregate_first_failure [OF assms(6,7)] assms(5)
  by simp

text \<open>C16. If the distance matrix service itself fails, the worker marks the job a
  failure with the service's error text and zero totals.\<close>

theorem processRoute_transport_error:
  assumes "prepare_fault env = None" and "exec_fault env = None" and "pts \<noteq> []"
    and "dm_service env (request_of pts) = Inl err"
  shows "processRoute env t pts s = (db_update (-1) 0 0 err t s, Exit_failed)"
  using assms by (simp add: processRoute_def build_request_def finish_def)

lemma spec_aggregate_success:
  "spec_aggregate es = Spec_success d tm \<Longrightarrow>
     list_all (\<lambda>e. el_status e = ''OK'') es \<and>
     d = sum_list (map (\<lambda>e. sint (el_meters e)) es) \<and> tm = sum_list (map el_seconds es)"
  by (induction es arbitrary: d tm) (auto split: if_splits spec_outcome.splits)

text \<open>The bound under which the int64 totals do not wrap: at most 25 pairs (the
  handler admits 26 waypoints), distances below 2^58 m, non-negative durations.\<close>

lemma pair_totals_fit:
  assumes "length pts \<le> 26"
    and "list_all (\<lambda>e. 0 \<le> sint (el_meters e) \<and> sint (el_meters e) < 2 ^ 58 \<and>
                       0 \<le> sint (el_duration e)) (pair_answers f pts)"
  shows "sint (word_of_int (sum_list (map (\<lambda>e. sint (el_meters e)) (pair_answers f pts))) :: int64) =
           sum_list (map (\<lambda>e. sint (el_meters e)) (pair_answers f pts))"
    and "sint (word_of_int (sum_list (map el_seconds (pair_answers f pts))) :: int64) =
           sum_list (map el_seconds (pair_answers f pts))"
proof -
  let ?A = "pair_answers f pts"
  have len: "int (length ?A) \<le> 25" using assms(1) by simp
  have m: "\<forall>x \<in> set (map (\<lambda>e. sint (el_meters e)) ?A). 0 \<le> x \<and> x < 2 ^ 58"
    using assms(2) by (auto simp: list_all_iff)
  have sec: "\<forall>x \<in> set (map el_seconds ?A). 0 \<le> x \<and> x < 2 ^ 34"
    using assms(2) el_seconds_bounds by (auto simp: list_all_iff)
  from sum_list_bounded [OF m] len
  have "0 \<le> sum_list (map (\<lambda>e. sint (el_meters e)) ?A) \<and>
        sum_list (map (\<lambda>e. sint (el_meters e)) ?A) \<le> 25 * 2 ^ 58"
    by (simp add: order_trans mult_right_mono)
  then show "sint (word_of_int (sum_list (map (\<lambda>e. sint (el_meters e)) ?A)) :: int64) =
               sum_list (map (\<lambda>e. sint (el_meters e)) ?A)"
    by (intro sint_of_int_int64) simp_all
  from sum_list_bounded [OF sec] len
  have "0 \<le> sum_list (map el_seconds ?A) \<and> sum_list (map el_seconds ?A) \<le> 25 * 2 ^ 34"
    by (simp add: order_trans mult_right_mono)
  then show "sint (word_of_int (sum_list (map el_seconds ?A)) :: int64) = sum_list (map el_seconds ?A)"
    by (intro sint_of_int_int64) simp_all
qed

text \<open>C15. With at most 26 waypoints, every pair answered \<^verbatim>\<open>OK\<close>, distances in
  [0, 2^58) metres and non-negative durations, the int64 totals do not wrap: the row
  the worker writes reads back, as signed 64-bit integers, the exact sums.\<close>

theorem processRoute_totals_exact:
  assumes "prepare_fault env = None" and "exec_fault env = None"
    and "pts \<noteq> []" and "length pts \<le> 26" and "answers_by env f (request_of pts)"
    and "list_all (\<lambda>e. el_status e = ''OK'') (pair_answers f pts)"
    and "list_all (\<lambda>e. 0 \<le> sint (el_meters e) \<and> sint (el_meters e) < 2 ^ 58 \<and>
                       0 \<le> sint (el_duration e)) (pair_answers f pts)"
    and "s t = Some r"
  shows "\<exists>r'. fst (processRoute env t pts s) t = Some r' \<and> row_status r' = 1 \<and>
           sint (row_total_distance r') = sum_list (map (\<lambda>e. sint (el_meters e)) (pair_answers f pts)) \<and>
           sint (row_total_time r') = sum_list (map el_seconds (pair_answers f pts))"
  using processRoute_contract [OF assms(1-3,5)] spec_aggregate_all_ok [OF assms(6)]
    pair_totals_fit [OF assms(4,7)] assms(8)
  by simp

text \<open>C6. Refinement: on a well-formed store, under the service's contract and the
  bounds of C18, the worker's effect seen through the abstraction \<open>abs_store\<close> is
  the specification's terminal update: success with the exact totals and an empty
  error, or failure with the first non-\<^verbatim>\<open>OK\<close> status.\<close>

theorem processRoute_refines_abstract:
  assumes "store_wf s" and "prepare_fault env = None" and "exec_fault env = None"
    and "pts \<noteq> []" and "length pts \<le> 26" and "answers_by env f (request_of pts)"
    and "list_all (\<lambda>e. 0 \<le> sint (el_meters e) \<and> sint (el_meters e) < 2 ^ 58 \<and>
                       0 \<le> sint (el_duration e)) (pair_answers f pts)"
  shows "abs_store (fst (processRoute env t pts s)) =
           (case spec_aggregate (pair_answers f pts) of
              Spec_success d tm \<Rightarrow> spec_finish Success d tm [] t (abs_store s)
            | Spec_failure st \<Rightarrow> spec_finish Failure 0 0 st t (abs_store s))"
proof (cases "spec_aggregate (pair_answers f pts)")
  case (Spec_success d tm)
  then have d: "d = sum_list (map (\<lambda>e. sint (el_meters e)) (pair_answers f pts))"
    and tm: "tm = sum_list (map el_seconds (pair_answers f pts))"
    using spec_aggregate_success by blast+
  have "sint (word_of_int d :: int64) = d" and "sint (word_of_int tm :: int64) = tm"
    using pair_totals_fit [OF assms(5,7)] d tm by simp_all
  with Spec_success show ?thesis
    using processRoute_contract [OF assms(2-4,6)] abs_store_db_update [OF assms(1)]
    by simp
next
  case (Spec_failure st)
  then show ?thesis
    using processRoute_contract [OF assms(2-4,6)] abs_store_db_update [OF assms(1)]
    by simp
qed

text \<open>C22. The loop never compares the number of rows with the number of pairs:
  a response that holds only the first \<open>k\<close> rows of the matrix, all \<^verbatim>\<open>OK\<close>,
  marks the job a success with the totals of the first \<open>k\<close> pairs only, although
  the specification requires an answer for each pair (for \<open>k = 0\<close>, a success
  with no distance at all).\<close>

theorem processRoute_truncated_response:
  assumes "prepare_fault env = None" and "exec_fault env = None" and "pts \<noteq> []"
    and "dm_service env (request_of pts) = Inr (take k (dm_matrix f (request_of pts)))"
    and "list_all (\<lambda>e. el_status e = ''OK'') (take k (pair_answers f pts))"
  shows "processRoute env t pts s =
           (db_update 1 (word_of_int (sum_list (map (\<lambda>e. sint (el_meters e)) (take k (pair_answers f pts)))))
              (word_of_int (sum_list (map el_seconds (take k (pair_answers f pts))))) [] t s,
            Exit_completed)"
  using assms
  by (simp add: processRoute_def build_request_def finish_def sum_rows_request_prefix
                sum_elements_spec0 loop_of_spec_def spec_aggregate_all_ok)

text \<open>C23. When \<^verbatim>\<open>stmt.Exec\<close> fails the worker only logs the error: whatever
  the service answered, the store is left as it was, so the job stays pending.\<close>

theorem processRoute_exec_fault_drops_write:
  assumes "exec_fault env = Some e"
  shows "fst (processRoute env t pts s) = s"
  using assms
  by (simp add: processRoute_def finish_def split: option.splits sum.splits loop_result.splits)

section \<open>Witnesses\<close>

lemmas example_eval = contract_env_def answers_by_def pair_answers_def consecutive_pairs_def
  example_points_def example_answer_def el_seconds_def signed_divide_int_def request_of_def

theorem processRoute_success_witness:
  "processRoute (contract_env (example_answer ''OK'')) ''t'' example_points
     [''t'' \<mapsto> new_row ''p'' ''t'' 0] =
   ([''t'' \<mapsto> (new_row ''p'' ''t'' 0)\<lparr>row_status := 1, row_total_distance := 3000,
       row_total_time := 180, row_response_error := []\<rparr>], Exit_completed)"
  using processRoute_success [of "contract_env (example_answer ''OK'')" example_points
      "example_answer ''OK''" "''t''" "[''t'' \<mapsto> new_row ''p'' ''t'' 0]"]
  by (simp add: example_eval db_update_def)

theorem processRoute_first_failure_witness:
  "processRoute (contract_env (example_answer ''ZERO_RESULTS'')) ''t'' example_points
     [''t'' \<mapsto> new_row ''p'' ''t'' 0] =
   ([''t'' \<mapsto> (new_row ''p'' ''t'' 0)\<lparr>row_status := -1, row_total_distance := 0,
       row_total_time := 0, row_response_error := ''ZERO_RESULTS''\<rparr>], Exit_failed)"
  using processRoute_first_failure [of "contract_env (example_answer ''ZERO_RESULTS'')"
      example_points "example_answer ''ZERO_RESULTS''"
      "[\<lparr>el_status = ''OK'', el_meters = 1000, el_duration = 60000000000\<rparr>]"
      "\<lparr>el_status = ''ZERO_RESULTS'', el_meters = 0, el_duration = 0\<rparr>" "[]"
      "''t''" "[''t'' \<mapsto> new_row ''p'' ''t'' 0]"]
  by (simp add: example_eval db_update_def)

theorem processRoute_transport_error_witness:
  "processRoute \<lparr>prepare_fault = None, dm_service = (\<lambda>_. Inl ''timeout''), exec_fault = None\<rparr>
     ''t'' example_points [''t'' \<mapsto> new_row ''p'' ''t'' 0] =
   ([''t'' \<mapsto> (new_row ''p'' ''t'' 0)\<lparr>row_status := -1, row_total_distance := 0,
       row_total_time := 0, row_response_error := ''timeout''\<rparr>], Exit_failed)"
  using processRoute_transport_error
      [of "\<lparr>prepare_fault = None, dm_service = (\<lambda>_. Inl ''timeout''), exec_fault = None\<rparr>"
        example_points "''timeout''" "''t''" "[''t'' \<mapsto> new_row ''p'' ''t'' 0]"]
  by (simp add: example_points_def db_update_def)

theorem processRoute_totals_exact_witness:
  "\<exists>r'. fst (processRoute (contract_env (example_answer ''OK'')) ''t'' example_points
       [''t'' \<mapsto> new_row ''p'' ''t'' 0]) ''t'' = Some r' \<and> row_status r' = 1 \<and>
     sint (row_total_distance r') = 3000 \<and> sint (row_total_time r') = 180"
  using processRoute_totals_exact [of "contract_env (example_answer ''OK'')" example_points
      "example_answer ''OK''" "[''t'' \<mapsto> new_row ''p'' ''t'' 0]" "''t''" "new_row ''p'' ''t'' 0"]
  by (simp add: example_eval)

theorem processRoute_refines_abstract_witness:
  "abs_store (fst (processRoute (contract_env (example_answer ''OK'')) ''t'' example_points
       [''t'' \<mapsto> new_row ''p'' ''t'' 0])) ''t'' =
   Some \<lparr>job_path = ''p'', job_status = Success, job_total_distance = 3000,
         job_total_time = 180, job_error = []\<rparr>"
  using processRoute_refines_abstract [of "[''t'' \<mapsto> new_row ''p'' ''t'' 0]"
      "contract_env (example_answer ''OK'')" example_points "example_answer ''OK''" "''t''"]
  by (simp add: example_eval store_wf_def new_row_def abs_store_def spec_finish_def job_of_row_def)

theorem processRoute_truncated_response_witness:
  "processRoute ((contract_env (example_answer ''OK''))
       \<lparr>dm_service := (\<lambda>req. Inr (take 1 (dm_matrix (example_answer ''OK'') req)))\<rparr>)
     ''t'' example_points [''t'' \<mapsto> new_row ''p'' ''t'' 0] =
   ([''t'' \<mapsto> (new_row ''p'' ''t'' 0)\<lparr>row_status := 1, row_total_distance := 1000,
       row_total_time := 60\<rparr>], Exit_completed)"
  using processRoute_truncated_response [of "(contract_env (example_answer ''OK''))
       \<lparr>dm_service := (\<lambda>req. Inr (take 1 (dm_matrix (example_answer ''OK'') req)))\<rparr>"
      example_points 1 "example_answer ''OK''" "''t''" "[''t'' \<mapsto> new_row ''p'' ''t'' 0]"]
  by (simp add: example_eval db_update_def new_row_def)

theorem processRoute_exec_fault_drops_write_witness:
  "fst (processRoute ((contract_env (example_answer ''OK''))\<lparr>exec_fault := Some ''bad connection''\<rparr>)
     ''t'' example_points [''t'' \<mapsto> new_row ''p'' ''t'' 0]) = [''t'' \<mapsto> new_row ''p'' ''t'' 0]"
  using processRoute_exec_fault_drops_write [of "(contract_env (example_answer ''OK''))
      \<lparr>exec_fault := Some ''bad connection''\<rparr>" "''bad connection''"] by simp


end
