(* ===== verification/Intake.thy ===== *)
theory Intake
  imports JobStore
begin

text \<open>
  Request intake: \<^verbatim>\<open>pathHandler\<close> (\<^verbatim>\<open>POST /route\<close>, lines 82--141 of
  \<^verbatim>\<open>src/app/shortest_route.go\<close>). It reads the body, decodes it as a
  \<^verbatim>\<open>routePath\<close>, checks the number of waypoints and the shape of each,
  joins each waypoint to a \<^verbatim>\<open>"lat,lng"\<close> string, inserts a pending row
  (status \<open>0\<close>) under a fresh UUID and starts \<^verbatim>\<open>processRoute\<close> as a
  goroutine. The model returns the response, the new store and the goroutine it
  started (its token and points), so that the system theory can schedule it.
  What the environment decides (the body read, the UUID, an I/O failure of the
  insert) is an argument of the handler.
\<close>

section \<open>Responses and environment\<close>

text \<open>The handler answers with an error text (\<^verbatim>\<open>http.Error\<close>, always
  status 200) or with the token (\<^verbatim>\<open>{"token": ...}\<close>).\<close>

datatype intake_resp = Intake_error string | Intake_token token

record intake_env =
  body_read :: "string + string"
  new_token :: token
  insert_fault :: "string option"

text \<open>The texts of the database errors the handler passes on.\<close>

fun db_error_text :: "db_error \<Rightarrow> string" where
  "db_error_text Duplicate_key = ''Error 1062: Duplicate entry''"
| "db_error_text No_rows = ''sql: no rows in result set''"
| "db_error_text (Db_failure m) = m"

definition msg_start_dropoff :: string where
  "msg_start_dropoff = ''Route start & dropoff required''"

definition msg_max_dropoff :: string where
  "msg_max_dropoff = ''Max dropoff location is 25 (the limit can increased as required)''"

definition msg_lat_lng :: string where
  "msg_lat_lng = ''Incorrect latitude longitude''"

section \<open>The handler\<close>

text \<open>The loop of lines 108--115: the first waypoint that does not have exactly two
  fields aborts the request; the others are joined with a comma, in order.\<close>

fun check_points :: "route_path \<Rightarrow> string + string list" where
  "check_points [] = Inr []"
| "check_points (loc # locs) =
     (if length loc \<noteq> 2 then Inl msg_lat_lng
      else (case check_points locs of
              Inl e \<Rightarrow> Inl e
            | Inr ps \<Rightarrow> Inr (strings_join loc '','' # ps)))"

text \<open>Lines 86--136. The marshalling of the token object (line 122) cannot fail for
  a struct of one string field, so its error branch is not a branch of the model.\<close>

definition pathHandler ::
  "decoder \<Rightarrow> intake_env \<Rightarrow> store \<Rightarrow> intake_resp \<times> store \<times> (token \<times> string list) option" where
  "pathHandler dec env s =
     (case body_read env of
        Inl err \<Rightarrow> (Intake_error err, s, None)
      | Inr body \<Rightarrow>
          (case dec body of
             Inl err \<Rightarrow> (Intake_error err, s, None)
           | Inr arr \<Rightarrow>
               if length arr < 2 then (Intake_error msg_start_dropoff, s, None)
               else if length arr > 26 then (Intake_error msg_max_dropoff, s, None)
               else
                 (case check_points arr of
                    Inl err \<Rightarrow> (Intake_error err, s, None)
                  | Inr pts \<Rightarrow>
                      (let tok = new_token env in
                       case insert_fault env of
                         Some err \<Rightarrow> (Intake_error err, s, None)
                       | None \<Rightarrow>
                           (case db_insert body tok 0 s of
                              Inl e \<Rightarrow> (Intake_error (db_error_text e), s, None)
                            | Inr s' \<Rightarrow> (Intake_token tok, s', Some (tok, pts)))))))"

text \<open>The route the handler accepts, as a bool-valued predicate.\<close>

definition valid_route :: "route_path \<Rightarrow> bool" where
  "valid_route arr \<longleftrightarrow>
     2 \<le> length arr \<and> length arr \<le> 26 \<and> list_all (\<lambda>loc. length loc = 2) arr"

text \<open>The waypoint strings a worker receives for a route.\<close>

definition route_points :: "route_path \<Rightarrow> string list" where
  "route_points arr = map (\<lambda>loc. strings_join loc '','') arr"

section \<open>Concrete instances\<close>

text \<open>A decoder that agrees with \<^verbatim>\<open>json.Unmarshal\<close> on a few request bodies:
  the specification's three-waypoint example, a single waypoint, 26 waypoints, and a
  waypoint with three fields; anything else is a syntax error.\<close>

definition example_body :: string where
  \<open>example_body = ''[["1","1"],["2","2"],["3","3"]]''\<close>

definition example_route :: route_path where
  "example_route = [[''1'', ''1''], [''2'', ''2''], [''3'', ''3'']]"

definition example_bodies :: "(string \<times> route_path) list" where
  \<open>example_bodies =
     [(example_body, example_route),
      (''[["1","1"]]'', [[''1'', ''1'']]),
      (''['' @ concat (replicate 25 ''["0","0"],'') @ ''["0","0"]]'', replicate 26 [''0'', ''0'']),
      (''[["1","1","1"],["2","2"]]'', [[''1'', ''1'', ''1''], [''2'', ''2'']])]\<close>

definition example_decoder :: decoder where
  \<open>example_decoder b =
     (case map_of example_bodies b of
        Some arr \<Rightarrow> Inr arr
      | None \<Rightarrow> Inl ''invalid character looking for beginning of value'')\<close>

definition request_env :: "string \<Rightarrow> token \<Rightarrow> intake_env" where
  "request_env b t = \<lparr>body_read = Inr b, new_token = t, insert_fault = None\<rparr>"

section \<open>Lemmas\<close>

lemma check_points_cases:
  "check_points arr =
     (if list_all (\<lambda>loc. length loc = 2) arr then Inr (route_points arr) else Inl msg_lat_lng)"
  by (induction arr) (auto simp: route_points_def)

lemma check_points_Inr:
  "check_points arr = Inr pts \<longleftrightarrow>
     list_all (\<lambda>loc. length loc = 2) arr \<and> pts = route_points arr"
  by (auto simp: check_points_cases)

lemma check_points_Inl:
  "check_points arr = Inl e \<longleftrightarrow>
     \<not> list_all (\<lambda>loc. length loc = 2) arr \<and> e = msg_lat_lng"
  by (auto simp: check_points_cases)

lemma length_route_points [simp]: "length (route_points arr) = length arr"
  by (simp add: route_points_def)

lemma pathHandler_cases:
  assumes "pathHandler dec env s = (r, s', w)"
  shows "((\<exists>e. r = Intake_error e) \<and> s' = s \<and> w = None) \<or>
         (\<exists>body arr. body_read env = Inr body \<and> dec body = Inr arr \<and> valid_route arr \<and>
            insert_fault env = None \<and> s (new_token env) = None \<and>
            r = Intake_token (new_token env) \<and> s' = s(new_token env \<mapsto> new_row body (new_token env) 0) \<and>
            w = Some (new_token env, route_points arr))"
  using assms
  by (auto simp: pathHandler_def valid_route_def check_points_cases db_insert_def Let_def
           split: sum.splits option.splits if_splits)

text \<open>C9. A decoded route with fewer than 2 waypoints, more than 26, or a waypoint
  without exactly two fields is rejected with the source's message for the first
  check it fails; the store is unchanged and no worker is started.\<close>

theorem pathHandler_rejects_invalid:
  assumes "body_read env = Inr body" and "dec body = Inr arr" and "\<not> valid_route arr"
  shows "pathHandler dec env s =
           (Intake_error (if length arr < 2 then msg_start_dropoff
                          else if 26 < length arr then msg_max_dropoff else msg_lat_lng),
            s, None)"
  using assms by (auto simp: pathHandler_def valid_route_def check_points_cases)

text \<open>C10. A valid route whose insert succeeds is answered with the fresh token; the
  store gains exactly one row, pending (status 0) with zero totals, holding the body
  as received; and one worker is started for that token with the waypoints joined as
  \<^verbatim>\<open>"lat,lng"\<close>, in order.\<close>

theorem pathHandler_accepts_valid:
  assumes "body_read env = Inr body" and "dec body = Inr arr" and "valid_route arr"
    and "insert_fault env = None" and "s (new_token env) = None"
  shows "pathHandler dec env s =
           (Intake_token (new_token env), s(new_token env \<mapsto> new_row body (new_token env) 0),
            Some (new_token env, map (\<lambda>loc. hd loc @ '','' @ hd (tl loc)) arr))"
proof -
  have "list_all (\<lambda>loc. length loc = 2) arr" using assms(3) by (simp add: valid_route_def)
  then have "route_points arr = map (\<lambda>loc. hd loc @ '','' @ hd (tl loc)) arr"
    by (induction arr) (auto simp: route_points_def length_Suc_conv numeral_2_eq_2)
  with assms show ?thesis
    by (simp add: pathHandler_def valid_route_def check_points_cases db_insert_def Let_def)
qed

section \<open>Witnesses\<close>

lemmas example_decoder_eval = example_decoder_def example_bodies_def example_body_def
  example_route_def request_env_def valid_route_def list_all_iff

theorem pathHandler_rejects_invalid_witness:
  \<open>pathHandler example_decoder (request_env ''[["1","1"]]'' ''t'') Map.empty =
     (Intake_error msg_start_dropoff, Map.empty, None)\<close>
  using pathHandler_rejects_invalid [of \<open>request_env ''[["1","1"]]'' ''t''\<close>
      \<open>''[["1","1"]]''\<close> example_decoder \<open>[[''1'', ''1'']]\<close> Map.empty]
  by (simp add: example_decoder_eval)

theorem pathHandler_accepts_valid_witness:
  "pathHandler example_decoder (request_env example_body ''t'') Map.empty =
     (Intake_token ''t'', [''t'' \<mapsto> new_row example_body ''t'' 0],
      Some (''t'', [''1,1'', ''2,2'', ''3,3'']))"
  using pathHandler_accepts_valid [of "request_env example_body ''t''" example_body
      example_decoder example_route Map.empty]
  by (simp add: example_decoder_eval)

text \<open>The length guard of line 103 is \<^verbatim>\<open>len > 26\<close>: a route of 26
  waypoints (one start and 25 drop-offs, as the error message counts them) is
  accepted, while the specification bounds the route at 25 waypoints.\<close>

theorem pathHandler_accepts_26_waypoints:
  \<open>\<exists>s' w. pathHandler example_decoder
     (request_env (''['' @ concat (replicate 25 ''["0","0"],'') @ ''["0","0"]]'') ''t'') Map.empty =
     (Intake_token ''t'', s', Some w)\<close>
  by (simp add: example_decoder_eval pathHandler_def check_points_cases db_insert_def Let_def)

end
