(* ===== verification/Json.thy ===== *)
theory Json
  imports Prelude
begin

text \<open>
  JSON as the program produces and its clients read it. The handlers of
  \<^verbatim>\<open>src/app/shortest_route.go\<close> write JSON in two ways: through
  \<^verbatim>\<open>json.Marshal\<close> (the token of line 122, the \<^verbatim>\<open>shortestRoute\<close> of line
  248) and by string concatenation in the \<^verbatim>\<open>http.Error\<close> bodies. This theory
  holds the JSON values (\<open>json\<close>), Go's UTF-8 decoding step
  (\<^verbatim>\<open>utf8.DecodeRune\<close>, as \<open>utf8_width\<close>), the string encoder of
  \<^verbatim>\<open>encoding/json\<close> (\<open>go_esc\<close>: HTML-safe escaping, the escape of U+FFFD for
  invalid UTF-8, escapes of U+2028 and U+2029) and the value encoder
  \<open>json_text\<close>; these follow the library as of the Go releases the repository's
  dependencies date from (before Go 1.22, which added the short escapes
  \<^verbatim>\<open>\b\<close> and \<^verbatim>\<open>\f\<close>).

  The client's side is a parser of RFC 8259 JSON text, \<open>parse_json\<close>: it is the
  specification of "a well-formed JSON document", not a model of code of the
  repository. It is written as Go's own scanner is, a step function over a stack of
  open arrays and objects, driven by a loop that stops because every step consumes
  input. Strings must be valid UTF-8 (RFC 8259, section 8.1).
\<close>

section \<open>Bytes and UTF-8\<close>

text \<open>A Go string is a sequence of bytes; a HOL \<open>char\<close> is a byte.\<close>

definition byte :: "char \<Rightarrow> nat" where
  "byte c = of_char c"

definition cont_byte :: "char \<Rightarrow> bool" where
  "cont_byte c \<longleftrightarrow> 0x80 \<le> byte c \<and> byte c \<le> 0xBF"

definition byte_in :: "nat \<Rightarrow> nat \<Rightarrow> char \<Rightarrow> bool" where
  "byte_in lo hi c \<longleftrightarrow> lo \<le> byte c \<and> byte c \<le> hi"

text \<open>\<^verbatim>\<open>utf8.DecodeRune\<close>: the width of the rune at the front of a byte
  sequence, with \<open>0\<close> for Go's \<open>(RuneError, 1)\<close> (an invalid or truncated
  sequence). The ranges of the second byte are Go's \<^verbatim>\<open>acceptRanges\<close>: no
  overlong forms, no surrogates, nothing above U+10FFFF.\<close>

fun utf8_width :: "string \<Rightarrow> nat" where
  "utf8_width [] = 0"
| "utf8_width (c # cs) =
     (let b = byte c in
      if b < 0x80 then 1
      else if 0xC2 \<le> b \<and> b \<le> 0xDF then
        (case cs of c1 # _ \<Rightarrow> if cont_byte c1 then 2 else 0 | [] \<Rightarrow> 0)
      else if 0xE0 \<le> b \<and> b \<le> 0xEF then
        (case cs of
           c1 # c2 # _ \<Rightarrow>
             if byte_in (if b = 0xE0 then 0xA0 else 0x80) (if b = 0xED then 0x9F else 0xBF) c1
                \<and> cont_byte c2 then 3 else 0
         | _ \<Rightarrow> 0)
      else if 0xF0 \<le> b \<and> b \<le> 0xF4 then
        (case cs of
           c1 # c2 # c3 # _ \<Rightarrow>
             if byte_in (if b = 0xF0 then 0x90 else 0x80) (if b = 0xF4 then 0x8F else 0xBF) c1
                \<and> cont_byte c2 \<and> cont_byte c3 then 4 else 0
         | _ \<Rightarrow> 0)
      else 0)"

text \<open>The bytes of U+FFFD, which Go substitutes for each invalid byte.\<close>

definition replacement_char :: string where
  "replacement_char = [CHR 0xEF, CHR 0xBF, CHR 0xBD]"

text \<open>The string the bytes stand for: valid runes kept, each byte of an invalid
  sequence replaced by U+FFFD (what Go's decoder and encoder both make of them).\<close>

function utf8_sanitize :: "string \<Rightarrow> string" where
  "utf8_sanitize [] = []"
| "utf8_sanitize (c # cs) =
     (if utf8_width (c # cs) = 0 then replacement_char @ utf8_sanitize cs
      else take (utf8_width (c # cs)) (c # cs) @ utf8_sanitize (drop (utf8_width (c # cs) - 1) cs))"
  by pat_completeness auto
termination
  by (relation "measure length") auto

section \<open>The string encoder of encoding/json\<close>

definition hex_digit :: "nat \<Rightarrow> char" where
  "hex_digit n = ''0123456789abcdef'' ! n"

text \<open>An ASCII byte: kept when it is in Go's \<^verbatim>\<open>htmlSafeSet\<close> (printable,
  not \<^verbatim>\<open>" \ < > &\<close>), otherwise escaped.\<close>

definition html_safe :: "char \<Rightarrow> bool" where
  "html_safe c \<longleftrightarrow> 0x20 \<le> byte c \<and> byte c < 0x80 \<and>
     c \<notin> {CHR 0x22, CHR 0x5C, CHR ''<'', CHR ''>'', CHR ''&''}"

definition esc_ascii :: "char \<Rightarrow> string" where
  "esc_ascii c =
     (if html_safe c then [c]
      else if c = CHR 0x22 \<or> c = CHR 0x5C then [CHR 0x5C, c]
      else if c = CHR 0x0A then [CHR 0x5C, CHR ''n'']
      else if c = CHR 0x0D then [CHR 0x5C, CHR ''r'']
      else if c = CHR 0x09 then [CHR 0x5C, CHR ''t'']
      else [CHR 0x5C, CHR ''u'', CHR ''0'', CHR ''0'', hex_digit (byte c div 16),
            hex_digit (byte c mod 16)])"

text \<open>\<^verbatim>\<open>encodeState.string\<close> without the surrounding quotes.\<close>

function go_esc :: "string \<Rightarrow> string" where
  "go_esc [] = []"
| "go_esc (c # cs) =
     (if byte c < 0x80 then esc_ascii c @ go_esc cs
      else if utf8_width (c # cs) = 0 then
        [CHR 0x5C, CHR ''u'', CHR ''f'', CHR ''f'', CHR ''f'', CHR ''d''] @ go_esc cs
      else if take 2 cs = [CHR 0x80, CHR 0xA8] \<and> c = CHR 0xE2 then
        [CHR 0x5C, CHR ''u'', CHR ''2'', CHR ''0'', CHR ''2'', CHR ''8''] @ go_esc (drop 2 cs)
      else if take 2 cs = [CHR 0x80, CHR 0xA9] \<and> c = CHR 0xE2 then
        [CHR 0x5C, CHR ''u'', CHR ''2'', CHR ''0'', CHR ''2'', CHR ''9''] @ go_esc (drop 2 cs)
      else take (utf8_width (c # cs)) (c # cs) @ go_esc (drop (utf8_width (c # cs) - 1) cs))"
  by pat_completeness auto
termination
  by (relation "measure length") auto

definition go_quote :: "string \<Rightarrow> string" where
  "go_quote s = CHR 0x22 # go_esc s @ [CHR 0x22]"

section \<open>JSON values and their encoding\<close>

datatype json =
    JNull
  | JBool bool
  | JInt int
  | JNum string
  | JStr string
  | JArr "json list"
  | JObj "(string \<times> json) list"

text \<open>\<^verbatim>\<open>strconv.AppendInt(b, v, 10)\<close>.\<close>

fun nat_text :: "nat \<Rightarrow> string" where
  "nat_text n = (if n < 10 then [hex_digit n] else nat_text (n div 10) @ [hex_digit (n mod 10)])"

definition int_text :: "int \<Rightarrow> string" where
  "int_text i = (if i < 0 then CHR ''-'' # nat_text (nat (- i)) else nat_text (nat i))"

text \<open>The encoder: \<^verbatim>\<open>null\<close>, \<^verbatim>\<open>true\<close>/\<^verbatim>\<open>false\<close>, decimal integers,
  number literals as given, quoted strings, and arrays and objects with no white
  space, members in the order given (a struct's fields in declaration order).\<close>

fun json_text :: "json \<Rightarrow> string" where
  "json_text JNull = ''null''"
| "json_text (JBool b) = (if b then ''true'' else ''false'')"
| "json_text (JInt i) = int_text i"
| "json_text (JNum n) = n"
| "json_text (JStr s) = go_quote s"
| "json_text (JArr vs) = CHR ''['' # strings_join (map json_text vs) '','' @ '']''"
| "json_text (JObj ms) =
     CHR ''{'' # strings_join (map (\<lambda>(k, v). go_quote k @ CHR '':'' # json_text v) ms) '','' @ ''}''"

text \<open>What a client reads back: the strings with each invalid UTF-8 byte replaced by
  U+FFFD. \<open>num_free\<close> values hold no number literal other than integers.\<close>

fun num_free :: "json \<Rightarrow> bool" where
  "num_free (JNum n) = False"
| "num_free (JArr vs) = (\<forall>v \<in> set vs. num_free v)"
| "num_free (JObj ms) = (\<forall>m \<in> set ms. num_free (snd m))"
| "num_free _ = True"

fun sanitize_json :: "json \<Rightarrow> json" where
  "sanitize_json (JStr s) = JStr (utf8_sanitize s)"
| "sanitize_json (JArr vs) = JArr (map sanitize_json vs)"
| "sanitize_json (JObj ms) = JObj (map (\<lambda>m. (utf8_sanitize (fst m), sanitize_json (snd m))) ms)"
| "sanitize_json v = v"

section \<open>Parsing JSON text (RFC 8259)\<close>

definition json_ws :: "char \<Rightarrow> bool" where
  "json_ws c \<longleftrightarrow> c = CHR 0x20 \<or> c = CHR 0x09 \<or> c = CHR 0x0A \<or> c = CHR 0x0D"

definition is_digit :: "char \<Rightarrow> bool" where
  "is_digit c \<longleftrightarrow> 0x30 \<le> byte c \<and> byte c \<le> 0x39"

definition digits_val :: "string \<Rightarrow> nat" where
  "digits_val ds = foldl (\<lambda>n d. 10 * n + (byte d - 0x30)) 0 ds"

definition hex_val :: "char \<Rightarrow> nat option" where
  "hex_val c =
     (if is_digit c then Some (byte c - 0x30)
      else if 0x61 \<le> byte c \<and> byte c \<le> 0x66 then Some (byte c - 0x57)
      else if 0x41 \<le> byte c \<and> byte c \<le> 0x46 then Some (byte c - 0x37)
      else None)"

fun hex4 :: "string \<Rightarrow> (nat \<times> string) option" where
  "hex4 (a # b # c # d # r) =
     (case (hex_val a, hex_val b, hex_val c, hex_val d) of
        (Some w, Some x, Some y, Some z) \<Rightarrow> Some (((w * 16 + x) * 16 + y) * 16 + z, r)
      | _ \<Rightarrow> None)"
| "hex4 _ = None"

text \<open>The UTF-8 bytes of a code point.\<close>

definition utf8_encode :: "nat \<Rightarrow> string" where
  "utf8_encode n =
     (if n < 0x80 then [char_of n]
      else if n < 0x800 then [char_of (0xC0 + n div 64), char_of (0x80 + n mod 64)]
      else if n < 0x10000 then
        [char_of (0xE0 + n div 4096), char_of (0x80 + n div 64 mod 64), char_of (0x80 + n mod 64)]
      else [char_of (0xF0 + n div 262144), char_of (0x80 + n div 4096 mod 64),
            char_of (0x80 + n div 64 mod 64), char_of (0x80 + n mod 64)])"

text \<open>The one-character escapes \<^verbatim>\<open>\" \\ \/ \b \f \n \r \t\<close>.\<close>

definition unescape :: "char \<Rightarrow> char option" where
  "unescape e =
     (if e = CHR 0x22 \<or> e = CHR 0x5C \<or> e = CHR ''/'' then Some e
      else if e = CHR ''b'' then Some (CHR 0x08) else if e = CHR ''f'' then Some (CHR 0x0C)
      else if e = CHR ''n'' then Some (CHR 0x0A) else if e = CHR ''r'' then Some (CHR 0x0D)
      else if e = CHR ''t'' then Some (CHR 0x09) else None)"

text \<open>A \<^verbatim>\<open>\uXXXX\<close> escape after its \<^verbatim>\<open>\u\<close>: a surrogate pair stands for
  one code point above U+FFFF; a lone surrogate reads as U+FFFD.\<close>

definition unicode_escape :: "string \<Rightarrow> (string \<times> string) option" where
  "unicode_escape s =
     (case hex4 s of
        None \<Rightarrow> None
      | Some (n, r) \<Rightarrow>
          if 0xD800 \<le> n \<and> n < 0xDC00 \<and> take 2 r = [CHR 0x5C, CHR ''u''] then
            (case hex4 (drop 2 r) of
               Some (m, r') \<Rightarrow>
                 if 0xDC00 \<le> m \<and> m < 0xE000
                 then Some (utf8_encode (0x10000 + (n - 0xD800) * 0x400 + (m - 0xDC00)), r')
                 else Some (replacement_char, r)
             | None \<Rightarrow> Some (replacement_char, r))
          else if 0xD800 \<le> n \<and> n < 0xE000 then Some (replacement_char, r)
          else Some (utf8_encode n, r))"

text \<open>The body of a string literal after its opening quote: the decoded bytes and
  the text after the closing quote. Control characters and invalid UTF-8 are
  rejected.\<close>

function scan_str :: "string \<Rightarrow> (string \<times> string) option" where
  "scan_str [] = None"
| "scan_str (c # cs) =
     (if c = CHR 0x22 then Some ([], cs)
      else if c = CHR 0x5C then
        (case cs of
           [] \<Rightarrow> None
         | e # cs' \<Rightarrow>
             (case unescape e of
                Some u \<Rightarrow> map_option (apfst (Cons u)) (scan_str cs')
              | None \<Rightarrow>
                  if e = CHR ''u'' then
                    (case unicode_escape cs' of
                       None \<Rightarrow> None
                     | Some (bs, r) \<Rightarrow> map_option (apfst ((@) bs)) (scan_str r))
                  else None))
      else if byte c < 0x20 \<or> utf8_width (c # cs) = 0 then None
      else map_option (apfst ((@) (take (utf8_width (c # cs)) (c # cs))))
             (scan_str (drop (utf8_width (c # cs)) (c # cs))))"
  by pat_completeness auto

lemma hex4_length: "hex4 s = Some (n, r) \<Longrightarrow> length r + 4 = length s"
  by (induction s rule: hex4.induct) (auto split: option.splits)

lemma unicode_escape_length: "unicode_escape s = Some (bs, r) \<Longrightarrow> length r < length s"
  by (auto simp: unicode_escape_def split: option.splits if_splits dest!: hex4_length)

lemma utf8_width_le: "utf8_width s \<le> length s"
  by (cases s rule: utf8_width.cases) (auto simp: Let_def split: list.splits)

termination scan_str
  by (relation "measure length") (auto dest: unicode_escape_length)

lemma scan_str_length': "scan_str s = Some p \<Longrightarrow> length (snd p) < length s"
proof (induction s arbitrary: p rule: scan_str.induct)
  case 1
  then show ?case by simp
next
  case (2 c cs)
  show ?case
  proof (cases "c = CHR 0x22 \<or> c = CHR 0x5C")
    case True
    with "2.prems" "2.IH"(1,2) show ?thesis
      by (fastforce split: if_splits list.splits option.splits dest: unicode_escape_length)
  next
    case False
    with "2.prems" "2.IH"(3) utf8_width_le [of "c # cs"] show ?thesis
      by (fastforce split: if_splits)
  qed
qed

lemma scan_str_length: "scan_str s = Some (v, r) \<Longrightarrow> length r < length s"
  using scan_str_length' [of s "(v, r)"] by simp

text \<open>A number literal: \<^verbatim>\<open>-? (0 | [1-9][0-9]* ) (.[0-9]+)? ([eE][+-]?[0-9]+)?\<close>.
  An integer literal reads as \<open>JInt\<close>, any other as \<open>JNum\<close> with its text.\<close>

definition opt_frac :: "string \<Rightarrow> (string \<times> string) option" where
  "opt_frac s =
     (case s of
        c # t \<Rightarrow>
          if c = CHR ''.'' then
            (if takeWhile is_digit t = [] then None
             else Some (c # takeWhile is_digit t, dropWhile is_digit t))
          else Some ([], s)
      | [] \<Rightarrow> Some ([], []))"

definition opt_exp :: "string \<Rightarrow> (string \<times> string) option" where
  "opt_exp s =
     (case s of
        c # t \<Rightarrow>
          if c = CHR ''e'' \<or> c = CHR ''E'' then
            (let (sg, t') = (case t of
                               d # u \<Rightarrow> if d = CHR ''+'' \<or> d = CHR ''-'' then ([d], u) else ([], t)
                             | [] \<Rightarrow> ([], t))
             in if takeWhile is_digit t' = [] then None
                else Some (c # sg @ takeWhile is_digit t', dropWhile is_digit t'))
          else Some ([], s)
      | [] \<Rightarrow> Some ([], []))"

definition num_value :: "bool \<Rightarrow> string \<Rightarrow> string \<Rightarrow> json" where
  "num_value neg ip fe =
     (if fe = [] then JInt (if neg then - int (digits_val ip) else int (digits_val ip))
      else JNum ((if neg then ''-'' else []) @ ip @ fe))"

definition int_part :: "string \<Rightarrow> (string \<times> string) option" where
  "int_part s =
     (case s of
        [] \<Rightarrow> None
      | d # r \<Rightarrow>
          if \<not> is_digit d then None
          else if d = CHR ''0'' then Some (''0'', r)
          else Some (d # takeWhile is_digit r, dropWhile is_digit r))"

definition num_sign :: "string \<Rightarrow> bool \<times> string" where
  "num_sign s = (case s of c # t \<Rightarrow> if c = CHR ''-'' then (True, t) else (False, s) | [] \<Rightarrow> (False, s))"

definition scan_num :: "string \<Rightarrow> (json \<times> string) option" where
  "scan_num s =
     (case num_sign s of
        (neg, s1) \<Rightarrow>
          (case int_part s1 of
             None \<Rightarrow> None
           | Some (ip, r1) \<Rightarrow>
               (case opt_frac r1 of
                  None \<Rightarrow> None
                | Some (fr, r2) \<Rightarrow>
                    (case opt_exp r2 of
                       None \<Rightarrow> None
                     | Some (ex, r3) \<Rightarrow> Some (num_value neg ip (fr @ ex), r3)))))"

text \<open>The parser's state: the open arrays and objects (innermost first) with what
  they hold so far, in reverse; and what the next token may be.\<close>

datatype frame = F_arr "json list" | F_obj "(string \<times> json) list" | F_member "(string \<times> json) list" string

datatype pmode = P_value | P_elem_or_close | P_key | P_key_or_close | P_colon | P_after json

datatype presult = P_next pmode "frame list" string | P_done json | P_fail

definition lit_rest :: "string \<Rightarrow> string \<Rightarrow> string option" where
  "lit_rest w s = (if take (length w) s = w then Some (drop (length w) s) else None)"

definition str_step :: "frame list \<Rightarrow> string \<Rightarrow> presult" where
  "str_step fr cs = (case scan_str cs of Some (v, r) \<Rightarrow> P_next (P_after (JStr v)) fr r | None \<Rightarrow> P_fail)"

definition lit_step :: "json \<Rightarrow> string \<Rightarrow> frame list \<Rightarrow> string \<Rightarrow> presult" where
  "lit_step v w fr cs = (case lit_rest w cs of Some r \<Rightarrow> P_next (P_after v) fr r | None \<Rightarrow> P_fail)"

definition num_step :: "frame list \<Rightarrow> string \<Rightarrow> presult" where
  "num_step fr s = (case scan_num s of Some (v, r) \<Rightarrow> P_next (P_after v) fr r | None \<Rightarrow> P_fail)"

text \<open>The first character of a value.\<close>

definition value_step :: "frame list \<Rightarrow> char \<Rightarrow> string \<Rightarrow> presult" where
  "value_step fr c cs =
     (if c = CHR ''['' then P_next P_elem_or_close (F_arr [] # fr) cs
      else if c = CHR ''{'' then P_next P_key_or_close (F_obj [] # fr) cs
      else if c = CHR 0x22 then str_step fr cs
      else if c = CHR ''t'' then lit_step (JBool True) ''rue'' fr cs
      else if c = CHR ''f'' then lit_step (JBool False) ''alse'' fr cs
      else if c = CHR ''n'' then lit_step JNull ''ull'' fr cs
      else if c = CHR ''-'' \<or> is_digit c then num_step fr (c # cs)
      else P_fail)"

definition key_step :: "frame list \<Rightarrow> char \<Rightarrow> string \<Rightarrow> presult" where
  "key_step fr c cs =
     (if c = CHR 0x22 then
        (case (scan_str cs, fr) of
           (Some (k, r), F_obj acc # fr') \<Rightarrow> P_next P_colon (F_member acc k # fr') r
         | _ \<Rightarrow> P_fail)
      else P_fail)"

definition after_step :: "json \<Rightarrow> frame list \<Rightarrow> char \<Rightarrow> string \<Rightarrow> presult" where
  "after_step v fr c cs =
     (case fr of
        F_arr acc # fr' \<Rightarrow>
          if c = CHR '','' then P_next P_value (F_arr (v # acc) # fr') cs
          else if c = CHR '']'' then P_next (P_after (JArr (rev (v # acc)))) fr' cs
          else P_fail
      | F_member acc k # fr' \<Rightarrow>
          if c = CHR '','' then P_next P_key (F_obj ((k, v) # acc) # fr') cs
          else if c = CHR ''}'' then P_next (P_after (JObj (rev ((k, v) # acc)))) fr' cs
          else P_fail
      | _ \<Rightarrow> P_fail)"

fun step :: "pmode \<Rightarrow> frame list \<Rightarrow> string \<Rightarrow> presult" where
  "step m fr [] = (case (m, fr) of (P_after v, []) \<Rightarrow> P_done v | _ \<Rightarrow> P_fail)"
| "step m fr (c # cs) =
     (if json_ws c then P_next m fr cs
      else case m of
        P_value \<Rightarrow> value_step fr c cs
      | P_elem_or_close \<Rightarrow>
          if c = CHR '']'' then
            (case fr of F_arr acc # fr' \<Rightarrow> P_next (P_after (JArr (rev acc))) fr' cs | _ \<Rightarrow> P_fail)
          else value_step fr c cs
      | P_key_or_close \<Rightarrow>
          if c = CHR ''}'' then
            (case fr of F_obj acc # fr' \<Rightarrow> P_next (P_after (JObj (rev acc))) fr' cs | _ \<Rightarrow> P_fail)
          else key_step fr c cs
      | P_key \<Rightarrow> key_step fr c cs
      | P_colon \<Rightarrow> if c = CHR '':'' then P_next P_value fr cs else P_fail
      | P_after v \<Rightarrow> after_step v fr c cs)"


lemma num_sign_length: "num_sign s = (neg, s1) \<Longrightarrow> length s1 \<le> length s"
  by (auto simp: num_sign_def split: list.splits if_splits)

lemma int_part_length: "int_part s = Some (ip, r) \<Longrightarrow> length r < length s"
  by (auto simp: int_part_def split: list.splits if_splits intro: le_less_trans [OF length_dropWhile_le])

lemma opt_frac_length: "opt_frac s = Some (fr, r) \<Longrightarrow> length r \<le> length s"
  by (auto simp: opt_frac_def split: list.splits if_splits intro: le_trans [OF length_dropWhile_le])

lemma opt_exp_length: "opt_exp s = Some (ex, r) \<Longrightarrow> length r \<le> length s"
  by (auto simp: opt_exp_def Let_def split: list.splits if_splits
           intro: le_trans [OF length_dropWhile_le])

lemma scan_num_length: "scan_num s = Some (v, r) \<Longrightarrow> length r < length s"
  by (auto simp: scan_num_def split: prod.splits option.splits
           dest!: num_sign_length int_part_length opt_frac_length opt_exp_length)

lemma lit_rest_length: "lit_rest w s = Some r \<Longrightarrow> length r \<le> length s"
  by (auto simp: lit_rest_def split: if_splits)

lemma str_step_length: "str_step fr cs = P_next m' fr' s' \<Longrightarrow> length s' \<le> length cs"
  unfolding str_step_def by (auto split: option.split_asm dest!: scan_str_length)

lemma lit_step_length: "lit_step v w fr cs = P_next m' fr' s' \<Longrightarrow> length s' \<le> length cs"
  unfolding lit_step_def by (auto split: option.split_asm dest!: lit_rest_length)

lemma num_step_length: "num_step fr (c # cs) = P_next m' fr' s' \<Longrightarrow> length s' \<le> length cs"
  unfolding num_step_def by (auto split: option.split_asm dest!: scan_num_length)

lemma value_step_length: "value_step fr c cs = P_next m' fr' s' \<Longrightarrow> length s' \<le> length cs"
  unfolding value_step_def
  by (auto split: if_split_asm dest!: str_step_length lit_step_length num_step_length)

lemma key_step_length: "key_step fr c cs = P_next m' fr' s' \<Longrightarrow> length s' \<le> length cs"
  by (auto simp: key_step_def split: if_splits option.splits prod.splits list.splits frame.splits
           dest!: scan_str_length)

lemma after_step_length: "after_step v fr c cs = P_next m' fr' s' \<Longrightarrow> s' = cs"
  by (auto simp: after_step_def split: if_splits list.splits frame.splits)

lemma step_length: "step m fr s = P_next m' fr' s' \<Longrightarrow> length s' < length s"
proof (cases s)
  case Nil
  assume "step m fr s = P_next m' fr' s'"
  with Nil show ?thesis by (simp split: pmode.splits list.splits)
next
  case (Cons c cs)
  assume st: "step m fr s = P_next m' fr' s'"
  show ?thesis
  proof (cases "json_ws c")
    case True
    with st Cons show ?thesis by simp
  next
    case False
    with st Cons show ?thesis
      by (cases m) (auto split: if_splits list.splits frame.splits
                         dest!: value_step_length key_step_length after_step_length)
  qed
qed

function run :: "pmode \<Rightarrow> frame list \<Rightarrow> string \<Rightarrow> json option" where
  "run m fr s =
     (case step m fr s of
        P_done v \<Rightarrow> Some v
      | P_fail \<Rightarrow> None
      | P_next m' fr' s' \<Rightarrow> run m' fr' s')"
  by pat_completeness auto
termination
  by (relation "measure (\<lambda>(m, fr, s). length s)") (auto dest: step_length)

definition parse_json :: "string \<Rightarrow> json option" where
  "parse_json s = run P_value [] s"

text \<open>A text that cannot continue a number literal.\<close>

definition num_end :: "string \<Rightarrow> bool" where
  "num_end r \<longleftrightarrow> (case r of [] \<Rightarrow> True | c # _ \<Rightarrow> \<not> is_digit c \<and> c \<noteq> CHR ''.'' \<and> c \<noteq> CHR ''e'' \<and> c \<noteq> CHR ''E'')"

section \<open>The string encoder and the string scanner\<close>

lemma byte_less_256: "byte c < 256"
  by (simp add: byte_def)

lemma char_of_byte [simp]: "char_of (byte c) = c"
  by (simp add: byte_def)

lemma utf8_width_ascii: "byte c < 0x80 \<Longrightarrow> utf8_width (c # cs) = 1"
  by simp

lemma utf8_width_take:
  assumes "utf8_width s = w" and "w \<noteq> 0"
  shows "utf8_width (take w s @ t) = w"
  using assms
  by (cases s rule: utf8_width.cases)
     (auto simp: Let_def split: if_splits list.splits)

lemma hex_val_hex_digit: "k < 16 \<Longrightarrow> hex_val (hex_digit k) = Some k"
proof -
  have "\<forall>k \<in> set [0..<16]. hex_val (hex_digit k) = Some k"
    by (simp add: upt_rec hex_val_def hex_digit_def is_digit_def byte_def)
  then show "k < 16 \<Longrightarrow> ?thesis" by simp
qed

lemma unescape_u [simp]: "unescape CHR ''u'' = None"
  by (simp add: unescape_def)

lemma append_singleton_fun: "(@) [c] = (#) c"
  by (simp add: fun_eq_iff)

lemma scan_str_raw:
  assumes "c \<noteq> CHR 0x22" and "c \<noteq> CHR 0x5C" and "0x20 \<le> byte c" and "utf8_width (c # cs) = w"
    and "w \<noteq> 0"
  shows "scan_str (c # cs) = map_option (apfst ((@) (take w (c # cs)))) (scan_str (drop w (c # cs)))"
  using assms by (subst scan_str.simps) simp

lemma scan_str_escape:
  assumes "unescape e = Some u"
  shows "scan_str (CHR 0x5C # e # t) = map_option (apfst (Cons u)) (scan_str t)"
  using assms by (subst scan_str.simps) simp

lemma scan_str_unicode:
  assumes "unicode_escape t = Some (bs, r)"
  shows "scan_str (CHR 0x5C # CHR ''u'' # t) = map_option (apfst ((@) bs)) (scan_str r)"
  using assms by (subst scan_str.simps) (simp add: unescape_def)

lemma unicode_escape_ascii:
  assumes "b < 0x80"
  shows "unicode_escape (CHR ''0'' # CHR ''0'' # hex_digit (b div 16) # hex_digit (b mod 16) # t) =
           Some ([char_of b], t)"
proof -
  have "b div 16 < 16" using assms by simp
  moreover have "b mod 16 < 16" by simp
  moreover have "hex_val (CHR ''0'') = Some 0" by (simp add: hex_val_def is_digit_def byte_def)
  ultimately have "hex4 (CHR ''0'' # CHR ''0'' # hex_digit (b div 16) # hex_digit (b mod 16) # t) =
                     Some (b, t)"
    by (simp add: hex_val_hex_digit)
  with assms show ?thesis by (simp add: unicode_escape_def utf8_encode_def)
qed

lemma scan_esc_ascii:
  assumes "byte c < 0x80"
  shows "scan_str (esc_ascii c @ t) = map_option (apfst (Cons c)) (scan_str t)"
proof (cases "html_safe c")
  case True
  then have "c \<noteq> CHR 0x22" "c \<noteq> CHR 0x5C" "0x20 \<le> byte c" by (auto simp: html_safe_def)
  with assms scan_str_raw [of c t 1] True show ?thesis
    by (simp add: esc_ascii_def append_singleton_fun)
next
  case False
  show ?thesis
  proof (cases "c = CHR 0x22 \<or> c = CHR 0x5C")
    case True
    then have "unescape c = Some c" by (auto simp: unescape_def)
    with True False show ?thesis by (simp add: esc_ascii_def scan_str_escape)
  next
    case notq: False
    consider "c = CHR 0x0A" | "c = CHR 0x0D" | "c = CHR 0x09"
      | "c \<noteq> CHR 0x0A" "c \<noteq> CHR 0x0D" "c \<noteq> CHR 0x09" by blast
    then show ?thesis
    proof cases
      case 1
      with False notq show ?thesis by (simp add: esc_ascii_def scan_str_escape unescape_def)
    next
      case 2
      with False notq show ?thesis by (simp add: esc_ascii_def scan_str_escape unescape_def)
    next
      case 3
      with False notq show ?thesis by (simp add: esc_ascii_def scan_str_escape unescape_def)
    next
      case 4
      with False notq have "esc_ascii c @ t = CHR 0x5C # CHR ''u'' #
          (CHR ''0'' # CHR ''0'' # hex_digit (byte c div 16) # hex_digit (byte c mod 16) # t)"
        by (simp add: esc_ascii_def)
      with unicode_escape_ascii [OF assms, of t] show ?thesis
        by (simp add: append_singleton_fun)
    qed
  qed
qed

lemma char_of_eq_iff_nat: "(char_of (n::nat) = c) \<longleftrightarrow> n mod 256 = of_char c"
  by (metis char_of_char of_char_of)

lemma unicode_escape_fffd:
  "unicode_escape (CHR ''f'' # CHR ''f'' # CHR ''f'' # CHR ''d'' # t) = Some (replacement_char, t)"
  by (simp add: unicode_escape_def hex_val_def is_digit_def byte_def utf8_encode_def replacement_char_def
                char_of_eq_iff_nat)

lemma unicode_escape_2028:
  "unicode_escape (CHR ''2'' # CHR ''0'' # CHR ''2'' # CHR ''8'' # t) = Some ([CHR 0xE2, CHR 0x80, CHR 0xA8], t)"
  by (simp add: unicode_escape_def hex_val_def is_digit_def byte_def utf8_encode_def char_of_eq_iff_nat)

lemma unicode_escape_2029:
  "unicode_escape (CHR ''2'' # CHR ''0'' # CHR ''2'' # CHR ''9'' # t) = Some ([CHR 0xE2, CHR 0x80, CHR 0xA9], t)"
  by (simp add: unicode_escape_def hex_val_def is_digit_def byte_def utf8_encode_def char_of_eq_iff_nat)

lemma take2_cases: "take 2 cs = [a, b] \<Longrightarrow> cs = a # b # drop 2 cs"
  by (cases cs rule: remdups_adj.cases) auto

lemma scan_go_esc: "scan_str (go_esc s @ CHR 0x22 # rest) = Some (utf8_sanitize s, rest)"
proof (induction s rule: go_esc.induct)
  case 1
  then show ?case by simp
next
  case (2 c cs)
  show ?case
  proof (cases "byte c < 0x80")
    case True
    with scan_esc_ascii [OF True] "2.IH"(1) [OF True] show ?thesis by simp
  next
    case nonascii: False
    then have c: "c \<noteq> CHR 0x22" "c \<noteq> CHR 0x5C" "0x20 \<le> byte c"
      by (auto simp: byte_def)
    show ?thesis
    proof (cases "utf8_width (c # cs) = 0")
      case True
      with nonascii "2.IH"(2) show ?thesis
        by (simp add: unicode_escape_fffd append_singleton_fun)
    next
      case w0: False
      show ?thesis
      proof (cases "take 2 cs = [CHR 0x80, CHR 0xA8] \<and> c = CHR 0xE2")
        case True
        then have cs: "cs = CHR 0x80 # CHR 0xA8 # drop 2 cs" and cE: "c = CHR 0xE2"
          by (simp_all add: take2_cases)
        have "utf8_width (c # cs) = 3"
          by (subst cs, simp add: cE byte_def cont_byte_def byte_in_def)
        with nonascii w0 True "2.IH"(3) [OF nonascii w0 True] cs cE show ?thesis
          by (simp add: unicode_escape_2028)
      next
        case n28: False
        show ?thesis
        proof (cases "take 2 cs = [CHR 0x80, CHR 0xA9] \<and> c = CHR 0xE2")
          case True
          then have cs: "cs = CHR 0x80 # CHR 0xA9 # drop 2 cs" and cE: "c = CHR 0xE2"
            by (simp_all add: take2_cases)
          have "utf8_width (c # cs) = 3"
            by (subst cs, simp add: cE byte_def cont_byte_def byte_in_def)
          with nonascii w0 n28 True "2.IH"(4) [OF nonascii w0 n28 True] cs cE show ?thesis
            by (simp add: unicode_escape_2029)
        next
          case n29: False
          define w where "w = utf8_width (c # cs)"
          define X where "X = go_esc (drop (w - 1) cs) @ CHR 0x22 # rest"
          have w: "w \<noteq> 0" "w \<le> Suc (length cs)"
            using w0 utf8_width_le [of "c # cs"] by (simp_all add: w_def)
          have go: "go_esc (c # cs) @ CHR 0x22 # rest = take w (c # cs) @ X"
            unfolding w_def X_def
            by (simp only: go_esc.simps(2) if_not_P [OF nonascii] if_not_P [OF w0]
                           if_not_P [OF n28] if_not_P [OF n29] append_assoc)
          have tk: "take w (c # cs) @ X = c # (take (w - 1) cs @ X)"
            using w by (cases w) simp_all
          have ww: "utf8_width (c # (take (w - 1) cs @ X)) = w"
            using utf8_width_take [of "c # cs" w X] w tk by (simp add: w_def)
          have t2: "take w (c # (take (w - 1) cs @ X)) = take w (c # cs)"
            and d2: "drop w (c # (take (w - 1) cs @ X)) = X"
            using w by (cases w; simp)+
          have IH: "scan_str X = Some (utf8_sanitize (drop (w - 1) cs), rest)"
            using "2.IH"(5) [OF nonascii w0 n28 n29] by (simp add: X_def w_def)
          have "utf8_sanitize (c # cs) = take w (c # cs) @ utf8_sanitize (drop (w - 1) cs)"
            using w0 by (simp add: w_def)
          with go tk scan_str_raw [OF c ww w(1)] t2 d2 IH show ?thesis by simp
        qed
      qed
    qed
  qed
qed

section \<open>Integers\<close>

declare nat_text.simps [simp del]

lemma hex_digit_dec: "k < 10 \<Longrightarrow> is_digit (hex_digit k) \<and> byte (hex_digit k) - 0x30 = k"
proof -
  have "\<forall>k \<in> set [0..<10]. is_digit (hex_digit k) \<and> byte (hex_digit k) - 0x30 = k"
    by (simp add: upt_rec hex_digit_def is_digit_def byte_def)
  then show "k < 10 \<Longrightarrow> ?thesis" by simp
qed

lemma nat_text_digits: "\<forall>d \<in> set (nat_text n). is_digit d"
  by (induction n rule: nat_text.induct) (subst nat_text.simps, simp add: hex_digit_dec)

lemma nat_text_not_Nil: "nat_text n \<noteq> []"
  by (subst nat_text.simps) simp

lemma digits_val_snoc: "digits_val (ds @ [d]) = 10 * digits_val ds + (byte d - 0x30)"
  by (simp add: digits_val_def)

lemma digits_val_nat_text: "digits_val (nat_text n) = n"
proof (induction n rule: nat_text.induct)
  case (1 n)
  show ?case
  proof (cases "n < 10")
    case True
    then show ?thesis
      by (subst nat_text.simps) (simp add: digits_val_def hex_digit_dec)
  next
    case False
    with "1.IH" show ?thesis
      by (subst nat_text.simps) (simp add: digits_val_snoc hex_digit_dec)
  qed
qed

lemma nat_text_hd:
  "nat_text n = d # ds \<Longrightarrow> d = CHR ''0'' \<Longrightarrow> n = 0 \<and> ds = []"
proof (induction n arbitrary: d ds rule: nat_text.induct)
  case (1 n)
  show ?case
  proof (cases "n < 10")
    case True
    with "1.prems" have "hex_digit n = CHR ''0''" and "ds = []"
      by (subst (asm) nat_text.simps, simp)+
    then have "byte (hex_digit n) - 0x30 = 0" by (simp add: byte_def)
    with True hex_digit_dec [of n] \<open>ds = []\<close> show ?thesis by simp
  next
    case False
    then have "nat_text n = nat_text (n div 10) @ [hex_digit (n mod 10)]"
      by (subst nat_text.simps) simp
    moreover obtain d' ds' where "nat_text (n div 10) = d' # ds'"
      using nat_text_not_Nil by (cases "nat_text (n div 10)") auto
    ultimately have "nat_text (n div 10) = d # ds'" using "1.prems" by simp
    with "1.IH" [OF False] "1.prems" have "n div 10 = 0" by blast
    with False show ?thesis by simp
  qed
qed

lemma num_end_frac_exp:
  assumes "num_end r"
  shows "opt_frac r = Some ([], r)" and "opt_exp r = Some ([], r)"
    and "takeWhile is_digit r = []" and "dropWhile is_digit r = r"
  using assms by (auto simp: num_end_def opt_frac_def opt_exp_def split: list.splits)

lemma int_part_nat_text:
  assumes "num_end r"
  shows "int_part (nat_text n @ r) = Some (nat_text n, r)"
proof -
  obtain d ds where nt: "nat_text n = d # ds"
    using nat_text_not_Nil by (cases "nat_text n") auto
  have dig: "is_digit d" "\<forall>x \<in> set ds. is_digit x"
    using nat_text_digits [of n] nt by simp_all
  show ?thesis
  proof (cases "d = CHR ''0''")
    case True
    with nat_text_hd [OF nt] nt dig show ?thesis by (simp add: int_part_def)
  next
    case False
    with dig nt num_end_frac_exp [OF assms] show ?thesis
      by (simp add: int_part_def takeWhile_append2 dropWhile_append2)
  qed
qed

lemma scan_num_int_text:
  assumes "num_end r"
  shows "scan_num (int_text i @ r) = Some (JInt i, r)"
proof (cases "i < 0")
  case True
  then show ?thesis
    using int_part_nat_text [OF assms, of "nat (- i)"] num_end_frac_exp [OF assms]
    by (simp add: scan_num_def int_text_def num_sign_def num_value_def digits_val_nat_text)
next
  case False
  obtain d ds where nt: "nat_text (nat i) = d # ds"
    using nat_text_not_Nil by (cases "nat_text (nat i)") auto
  have "d \<noteq> CHR ''-''" using nat_text_digits [of "nat i"] nt by (auto simp: is_digit_def byte_def)
  moreover have "digits_val (d # ds) = nat i" using digits_val_nat_text [of "nat i"] nt by simp
  ultimately show ?thesis using False nt
    using int_part_nat_text [OF assms, of "nat i"] num_end_frac_exp [OF assms]
    by (simp add: scan_num_def int_text_def num_sign_def num_value_def digits_val_nat_text)
qed

section \<open>The parser reads back what the encoder writes\<close>

declare run.simps [simp del]

lemma run_next: "step m fr s = P_next m' fr' s' \<Longrightarrow> run m fr s = run m' fr' s'"
  by (subst run.simps) simp

lemma run_done: "step m fr s = P_done v \<Longrightarrow> run m fr s = Some v"
  by (subst run.simps) simp

lemma step_value_start:
  "c \<noteq> CHR '']'' \<Longrightarrow> \<not> json_ws c \<Longrightarrow> m = P_value \<or> m = P_elem_or_close \<Longrightarrow>
     step m fr (c # cs) = value_step fr c cs"
  by auto

lemma lit_rest_append [simp]: "lit_rest w (w @ r) = Some r"
  by (simp add: lit_rest_def)

lemma int_text_start:
  "\<exists>c cs. int_text i = c # cs \<and> (c = CHR ''-'' \<or> is_digit c)"
proof -
  obtain d ds where nt: "nat_text (if i < 0 then nat (- i) else nat i) = d # ds"
    using nat_text_not_Nil by (cases "nat_text (if i < 0 then nat (- i) else nat i)") auto
  have "is_digit d" using nat_text_digits [of "if i < 0 then nat (- i) else nat i"] nt by simp
  with nt show ?thesis by (cases "i < 0") (auto simp: int_text_def)
qed

lemma run_int:
  assumes "num_end rest" and "m = P_value \<or> m = P_elem_or_close"
  shows "run m fr (int_text i @ rest) = run (P_after (JInt i)) fr rest"
proof -
  obtain c cs where ic: "int_text i = c # cs" and c: "c = CHR ''-'' \<or> is_digit c"
    using int_text_start by blast
  have nc: "c \<noteq> CHR '']''" "\<not> json_ws c" "c \<noteq> CHR ''[''" "c \<noteq> CHR ''{''" "c \<noteq> CHR 0x22"
     "c \<noteq> CHR ''t''" "c \<noteq> CHR ''f''" "c \<noteq> CHR ''n''"
    using c by (auto simp: is_digit_def byte_def json_ws_def)
  have "step m fr (int_text i @ rest) = num_step fr (int_text i @ rest)"
    using step_value_start [OF nc(1,2) assms(2)] nc c ic by (simp add: value_step_def)
  also have "\<dots> = P_next (P_after (JInt i)) fr rest"
    using scan_num_int_text [OF assms(1)] by (simp add: num_step_def)
  finally show ?thesis by (rule run_next)
qed

lemma run_elems:
  assumes IH: "\<And>x m fr rest. x \<in> set vs \<Longrightarrow> num_end rest \<Longrightarrow> m = P_value \<or> m = P_elem_or_close \<Longrightarrow>
                  run m fr (json_text x @ rest) = run (P_after (sanitize_json x)) fr rest"
    and "vs \<noteq> []" and "m = P_value \<or> m = P_elem_or_close"
  shows "run m (F_arr acc # fr) (strings_join (map json_text vs) '','' @ CHR '']'' # rest) =
           run (P_after (JArr (rev acc @ map sanitize_json vs))) fr rest"
  using assms
proof (induction vs arbitrary: acc m rule: induct_list012)
  case 1
  then show ?case by simp
next
  case (2 x)
  have "run m (F_arr acc # fr) (json_text x @ CHR '']'' # rest) =
          run (P_after (sanitize_json x)) (F_arr acc # fr) (CHR '']'' # rest)"
    using "2.prems"(1) [of x "CHR '']'' # rest" m] "2.prems"(3) by (simp add: num_end_def is_digit_def byte_def)
  also have "\<dots> = run (P_after (JArr (rev (sanitize_json x # acc)))) fr rest"
    by (rule run_next) (simp add: json_ws_def after_step_def)
  finally show ?case by simp
next
  case (3 x y zs)
  let ?J = "strings_join (map json_text (y # zs)) '','' @ CHR '']'' # rest"
  have "run m (F_arr acc # fr) (json_text x @ CHR '','' # ?J) =
          run (P_after (sanitize_json x)) (F_arr acc # fr) (CHR '','' # ?J)"
    using "3.prems"(1) [of x "CHR '','' # ?J" m] "3.prems"(3) by (simp add: num_end_def is_digit_def byte_def)
  also have "\<dots> = run P_value (F_arr (sanitize_json x # acc) # fr) ?J"
    by (rule run_next) (simp add: json_ws_def after_step_def)
  also have "\<dots> = run (P_after (JArr (rev (sanitize_json x # acc) @ map sanitize_json (y # zs)))) fr rest"
    by (rule "3.IH"(2)) (use "3.prems"(1) in auto)
  finally show ?case by simp
qed

lemma run_member:
  assumes IH: "\<And>m fr rest. num_end rest \<Longrightarrow> m = P_value \<or> m = P_elem_or_close \<Longrightarrow>
                 run m fr (json_text x @ rest) = run (P_after (sanitize_json x)) fr rest"
    and "m = P_key \<or> m = P_key_or_close" and "num_end T"
  shows "run m (F_obj acc # fr) (go_quote k @ CHR '':'' # json_text x @ T) =
           run (P_after (sanitize_json x)) (F_member acc (utf8_sanitize k) # fr) T"
proof -
  have "step m (F_obj acc # fr) (go_quote k @ CHR '':'' # json_text x @ T) =
          key_step (F_obj acc # fr) (CHR 0x22) (go_esc k @ CHR 0x22 # CHR '':'' # json_text x @ T)"
    using assms(2) by (auto simp: go_quote_def json_ws_def)
  also have "\<dots> = P_next P_colon (F_member acc (utf8_sanitize k) # fr) (CHR '':'' # json_text x @ T)"
    by (simp add: key_step_def scan_go_esc)
  finally have "run m (F_obj acc # fr) (go_quote k @ CHR '':'' # json_text x @ T) =
                  run P_colon (F_member acc (utf8_sanitize k) # fr) (CHR '':'' # json_text x @ T)"
    by (rule run_next)
  also have "\<dots> = run P_value (F_member acc (utf8_sanitize k) # fr) (json_text x @ T)"
    by (rule run_next) (simp add: json_ws_def)
  also have "\<dots> = run (P_after (sanitize_json x)) (F_member acc (utf8_sanitize k) # fr) T"
    using IH [OF assms(3)] by simp
  finally show ?thesis .
qed

lemma run_members:
  assumes IH: "\<And>k x m fr rest. (k, x) \<in> set ms \<Longrightarrow> num_end rest \<Longrightarrow> m = P_value \<or> m = P_elem_or_close \<Longrightarrow>
                  run m fr (json_text x @ rest) = run (P_after (sanitize_json x)) fr rest"
    and "ms \<noteq> []" and "m = P_key \<or> m = P_key_or_close"
  shows "run m (F_obj acc # fr)
           (strings_join (map (\<lambda>(k, v). go_quote k @ CHR '':'' # json_text v) ms) '','' @ CHR ''}'' # rest) =
         run (P_after (JObj (rev acc @ map (\<lambda>m. (utf8_sanitize (fst m), sanitize_json (snd m))) ms))) fr rest"
  using assms
proof (induction ms arbitrary: acc m rule: induct_list012)
  case 1
  then show ?case by simp
next
  case (2 kx)
  obtain k x where kx: "kx = (k, x)" by fastforce
  have "run m (F_obj acc # fr) (go_quote k @ CHR '':'' # json_text x @ CHR ''}'' # rest) =
          run (P_after (sanitize_json x)) (F_member acc (utf8_sanitize k) # fr) (CHR ''}'' # rest)"
  proof (rule run_member)
    fix m' fr' rest'
    assume "num_end rest'" and "m' = P_value \<or> m' = P_elem_or_close"
    then show "run m' fr' (json_text x @ rest') = run (P_after (sanitize_json x)) fr' rest'"
      using "2.prems"(1) [of k x rest' m' fr'] kx by simp
  qed (use "2.prems" in \<open>auto simp: num_end_def is_digit_def byte_def\<close>)
  also have "\<dots> = run (P_after (JObj (rev ((utf8_sanitize k, sanitize_json x) # acc)))) fr rest"
    by (rule run_next) (simp add: json_ws_def after_step_def)
  finally show ?case by (simp add: kx)
next
  case (3 kx ly zs)
  obtain k x where kx: "kx = (k, x)" by fastforce
  let ?J = "strings_join (map (\<lambda>(k, v). go_quote k @ CHR '':'' # json_text v) (ly # zs)) '','' @ CHR ''}'' # rest"
  have "run m (F_obj acc # fr) (go_quote k @ CHR '':'' # json_text x @ CHR '','' # ?J) =
          run (P_after (sanitize_json x)) (F_member acc (utf8_sanitize k) # fr) (CHR '','' # ?J)"
  proof (rule run_member)
    fix m' fr' rest'
    assume "num_end rest'" and "m' = P_value \<or> m' = P_elem_or_close"
    then show "run m' fr' (json_text x @ rest') = run (P_after (sanitize_json x)) fr' rest'"
      using "3.prems"(1) [of k x rest' m' fr'] kx by simp
  qed (use "3.prems" in \<open>auto simp: num_end_def is_digit_def byte_def\<close>)
  also have "\<dots> = run P_key (F_obj ((utf8_sanitize k, sanitize_json x) # acc) # fr) ?J"
    by (rule run_next) (simp add: json_ws_def after_step_def)
  also have "\<dots> = run (P_after (JObj (rev ((utf8_sanitize k, sanitize_json x) # acc) @
                     map (\<lambda>m. (utf8_sanitize (fst m), sanitize_json (snd m))) (ly # zs)))) fr rest"
    by (rule "3.IH"(2)) (auto intro: "3.prems"(1))
  finally show ?case by (simp add: kx)
qed

lemma run_json_text:
  "num_free v \<Longrightarrow> num_end rest \<Longrightarrow> m = P_value \<or> m = P_elem_or_close \<Longrightarrow>
     run m fr (json_text v @ rest) = run (P_after (sanitize_json v)) fr rest"
proof (induction v arbitrary: m fr rest)
  case JNull
  then show ?case
    by (intro run_next) (auto simp: value_step_def lit_step_def json_ws_def lit_rest_def)
next
  case (JBool b)
  then show ?case
    by (intro run_next) (auto simp: value_step_def lit_step_def json_ws_def lit_rest_def)
next
  case (JInt i)
  then show ?case by (simp add: run_int)
next
  case (JNum n)
  then show ?case by simp
next
  case (JStr s)
  then show ?case
    by (intro run_next) (auto simp: value_step_def str_step_def json_ws_def go_quote_def scan_go_esc)
next
  case (JArr vs)
  have "run m fr (json_text (JArr vs) @ rest) =
          run P_elem_or_close (F_arr [] # fr) (strings_join (map json_text vs) '','' @ CHR '']'' # rest)"
    by (rule run_next) (use JArr.prems(3) in \<open>auto simp: json_ws_def value_step_def\<close>)
  also have "\<dots> = run (P_after (JArr (map sanitize_json vs))) fr rest"
  proof (cases "vs = []")
    case True
    then show ?thesis by (intro run_next) (simp add: json_ws_def)
  next
    case False
    show ?thesis
      using run_elems [of vs P_elem_or_close "[]" fr rest] JArr.IH JArr.prems(1) False by auto
  qed
  finally show ?case by simp
next
  case (JObj ms)
  have "run m fr (json_text (JObj ms) @ rest) =
          run P_key_or_close (F_obj [] # fr)
            (strings_join (map (\<lambda>(k, v). go_quote k @ CHR '':'' # json_text v) ms) '','' @ CHR ''}'' # rest)"
    by (rule run_next) (use JObj.prems(3) in \<open>auto simp: json_ws_def value_step_def\<close>)
  also have "\<dots> = run (P_after (sanitize_json (JObj ms))) fr rest"
  proof (cases "ms = []")
    case True
    then show ?thesis by (intro run_next) (simp add: json_ws_def)
  next
    case False
    have IH: "\<And>k x m fr rest. (k, x) \<in> set ms \<Longrightarrow> num_end rest \<Longrightarrow> m = P_value \<or> m = P_elem_or_close \<Longrightarrow>
                run m fr (json_text x @ rest) = run (P_after (sanitize_json x)) fr rest"
      using JObj.IH JObj.prems(1) by fastforce
    show ?thesis
      using run_members [OF IH False, where m = P_key_or_close and acc = "[]" and fr = fr and rest = rest]
      by simp
  qed
  finally show ?case .
qed

lemma parse_json_text:
  assumes "num_free v"
  shows "parse_json (json_text v) = Some (sanitize_json v)"
proof -
  have "parse_json (json_text v) = run (P_after (sanitize_json v)) [] []"
    using run_json_text [OF assms, of "[]" P_value "[]"] by (simp add: parse_json_def num_end_def)
  also have "\<dots> = Some (sanitize_json v)" by (rule run_done) simp
  finally show ?thesis .
qed

end
