(* ===== verification/Reporter.thy ===== *)
theory Reporter
  imports Intake Json
begin

text \<open>
  Status reporting: \<^verbatim>\<open>routeHandler\<close> (\<^verbatim>\<open>GET /route/:token\<close>, lines
  194--256 of \<^verbatim>\<open>src/app/shortest_route.go\<close>) and the response struct
  \<^verbatim>\<open>shortestRoute\<close> (lines 39--45) with its JSON field tags. The handler is
  a pure function of the token and the store: it never writes. The model keeps the
  source's control flow exactly, including that a failed \<^verbatim>\<open>Scan\<close> leaves the
  scanned \<^verbatim>\<open>status\<close> variable at its zero value \<open>0\<close>, so that the
  "in progress" branch that follows overrides the "Invalid Token" result.
  \<open>routeHandler_sel\<close> is the handler on the outcome of the row read;
  \<open>routeHandler\<close> reads the row from the store, and \<open>routeHandler_io\<close>
  also lets the read itself fail (a \<^verbatim>\<open>QueryRow\<close>/\<^verbatim>\<open>Scan\<close> error on a row
  that exists), which the code reports the same way as a job in progress.
\<close>

section \<open>The response\<close>

record shortest_route =
  sr_status :: string
  sr_path :: route_path
  sr_total_distance :: int64
  sr_total_time :: int64
  sr_error :: string

text \<open>\<^verbatim>\<open>shortestRoute{}\<close>: every field at its zero value.\<close>

definition zero_route :: shortest_route where
  "zero_route =
     \<lparr>sr_status = [], sr_path = [], sr_total_distance = 0, sr_total_time = 0, sr_error = []\<rparr>"

definition failure_route :: "string \<Rightarrow> shortest_route" where
  "failure_route e = zero_route\<lparr>sr_status := ''failure'', sr_error := e\<rparr>"

definition invalid_token_route :: shortest_route where
  "invalid_token_route = failure_route ''Invalid Token''"

definition in_progress_route :: shortest_route where
  "in_progress_route = zero_route\<lparr>sr_status := ''in progress''\<rparr>"

definition success_route :: "route_path \<Rightarrow> int64 \<Rightarrow> int64 \<Rightarrow> shortest_route" where
  "success_route arr d tm =
     zero_route\<lparr>sr_status := ''success'', sr_path := arr, sr_total_distance := d,
                sr_total_time := tm\<rparr>"

section \<open>The handler\<close>

text \<open>Lines 195--246, from the outcome of the select of line 212. The variables
  \<^verbatim>\<open>routePathJson, status, total_distance, total_time, response_error\<close> are the
  tuple the select fills in; when the select fails they keep their zero values.\<close>

definition routeHandler_sel :: "decoder \<Rightarrow> token \<Rightarrow> db_error + job_row \<Rightarrow> shortest_route" where
  "routeHandler_sel dec tok sel =
     (let r0 = (if tok = [] then invalid_token_route else zero_route);
          (r1, pathJson, status, td, tt, err) =
            (case sel of
               Inl _ \<Rightarrow> (invalid_token_route, [], 0, 0, 0, [])
             | Inr row \<Rightarrow> (r0, row_path row, row_status row, row_total_distance row,
                          row_total_time row, row_response_error row))
      in if status = 0 then in_progress_route
         else if status = -1 then failure_route err
         else if status = 1 then
           (case dec pathJson of
              Inl e \<Rightarrow> failure_route e
            | Inr arr \<Rightarrow> success_route arr td tt)
         else r1)"

text \<open>The handler on a store whose read succeeds.\<close>

definition routeHandler :: "decoder \<Rightarrow> token \<Rightarrow> store \<Rightarrow> shortest_route" where
  "routeHandler dec tok s = routeHandler_sel dec tok (db_select tok s)"


section \<open>The JSON rendering\<close>

text \<open>\<^verbatim>\<open>json.Marshal(routeResult)\<close> (line 248) on the struct tags of lines
  40--44: \<^verbatim>\<open>status\<close> always, the four others \<^verbatim>\<open>omitempty\<close> (an empty
  slice, a zero integer and an empty string are left out). The marshalling of this
  struct cannot fail, so its error branch is not a branch of the model.\<close>

definition render_route :: "shortest_route \<Rightarrow> (string \<times> json) list" where
  "render_route r =
     [(''status'', JStr (sr_status r))]
     @ (if sr_path r = [] then []
        else [(''path'', JArr (map (\<lambda>p. JArr (map JStr p)) (sr_path r)))])
     @ (if sr_total_distance r = 0 then []
        else [(''total_distance'', JInt (sint (sr_total_distance r)))])
     @ (if sr_total_time r = 0 then [] else [(''total_time'', JInt (sint (sr_total_time r)))])
     @ (if sr_error r = [] then [] else [(''error'', JStr (sr_error r))])"

section \<open>Lemmas\<close>

lemma routeHandler_unknown:
  "s tok = None \<Longrightarrow> routeHandler dec tok s = in_progress_route"
  by (simp add: routeHandler_def routeHandler_sel_def db_select_def)

lemma routeHandler_row:
  "s tok = Some row \<Longrightarrow>
     routeHandler dec tok s =
       (if row_status row = 0 then in_progress_route
        else if row_status row = -1 then failure_route (row_response_error row)
        else if row_status row = 1 then
          (case dec (row_path row) of
             Inl e \<Rightarrow> failure_route e
           | Inr arr \<Rightarrow> success_route arr (row_total_distance row) (row_total_time row))
        else if tok = [] then invalid_token_route else zero_route)"
  by (simp add: routeHandler_def routeHandler_sel_def db_select_def)

lemma sr_status_routes [simp]:
  "sr_status in_progress_route = ''in progress''"
  "sr_status (failure_route e) = ''failure''"
  "sr_status invalid_token_route = ''failure''"
  "sr_status (success_route arr d tm) = ''success''"
  by (simp_all add: in_progress_route_def failure_route_def invalid_token_route_def
                    success_route_def zero_route_def)

lemma render_keys:
  "map fst (render_route r) =
     [''status'']
     @ (if sr_path r = [] then [] else [''path''])
     @ (if sr_total_distance r = 0 then [] else [''total_distance''])
     @ (if sr_total_time r = 0 then [] else [''total_time''])
     @ (if sr_error r = [] then [] else [''error''])"
  by (simp add: render_route_def)

section \<open>Properties\<close>

text \<open>C8. Polling a token the store does not hold answers
  \<^verbatim>\<open>{"status":"in progress"}\<close>, not the specified
  \<^verbatim>\<open>{"status":"failure","error":"Invalid Token"}\<close>: the select fails, the
  scanned status keeps its zero value 0, and the in-progress branch runs.\<close>

theorem routeHandler_unknown_token:
  assumes "s tok = None"
  shows "render_route (routeHandler dec tok s) = [(''status'', JStr ''in progress'')]"
  using assms
  by (simp add: routeHandler_unknown render_route_def in_progress_route_def zero_route_def)

text \<open>C18. A successful job whose stored body decodes answers status "success",
  the decoded path and the totals as signed 64-bit integers; a total that is zero is
  left out of the JSON (\<^verbatim>\<open>omitempty\<close>), so a route of identical
  waypoints reports no \<^verbatim>\<open>total_distance\<close> at all.\<close>

theorem routeHandler_success_render:
  assumes "s tok = Some row" and "row_status row = 1" and "dec (row_path row) = Inr arr"
    and "arr \<noteq> []"
  shows "render_route (routeHandler dec tok s) =
           [(''status'', JStr ''success''),
            (''path'', JArr (map (\<lambda>p. JArr (map JStr p)) arr))]
           @ (if row_total_distance row = 0 then []
              else [(''total_distance'', JInt (sint (row_total_distance row)))])
           @ (if row_total_time row = 0 then []
              else [(''total_time'', JInt (sint (row_total_time row)))])"
  using assms
  by (simp add: routeHandler_row render_route_def success_route_def zero_route_def)

text \<open>C19. A failed job answers status "failure" with the error text the worker
  stored (the provider's status or transport error), and nothing else.\<close>

theorem routeHandler_failure_render:
  assumes "s tok = Some row" and "row_status row = -1" and "row_response_error row \<noteq> []"
  shows "render_route (routeHandler dec tok s) =
           [(''status'', JStr ''failure''), (''error'', JStr (row_response_error row))]"
  using assms by (simp add: routeHandler_row render_route_def failure_route_def zero_route_def)


section \<open>Witnesses\<close>

theorem routeHandler_unknown_token_witness:
  "render_route (routeHandler example_decoder ''x'' Map.empty) = [(''status'', JStr ''in progress'')]"
  using routeHandler_unknown_token [of Map.empty "''x''"] by simp

theorem routeHandler_success_render_witness:
  "render_route (routeHandler example_decoder ''t''
      [''t'' \<mapsto> (new_row example_body ''t'' 0)\<lparr>row_status := 1, row_total_time := 180\<rparr>]) =
   [(''status'', JStr ''success''),
    (''path'', JArr [JArr [JStr ''1'', JStr ''1''], JArr [JStr ''2'', JStr ''2''],
                     JArr [JStr ''3'', JStr ''3'']]),
    (''total_time'', JInt 180)]"
  using routeHandler_success_render [of
      "[''t'' \<mapsto> (new_row example_body ''t'' 0)\<lparr>row_status := 1, row_total_time := 180\<rparr>]"
      "''t''" "(new_row example_body ''t'' 0)\<lparr>row_status := 1, row_total_time := 180\<rparr>"
      example_decoder example_route]
  by (simp add: example_decoder_eval new_row_def)

theorem routeHandler_failure_render_witness:
  "render_route (routeHandler example_decoder ''t''
      [''t'' \<mapsto> (new_row example_body ''t'' 0)\<lparr>row_status := -1,
                                               row_response_error := ''ZERO_RESULTS''\<rparr>]) =
   [(''status'', JStr ''failure''), (''error'', JStr ''ZERO_RESULTS'')]"
  using routeHandler_failure_render [of
      "[''t'' \<mapsto> (new_row example_body ''t'' 0)\<lparr>row_status := -1,
                                               row_response_error := ''ZERO_RESULTS''\<rparr>]"
      "''t''" "(new_row example_body ''t'' 0)\<lparr>row_status := -1,
                                               row_response_error := ''ZERO_RESULTS''\<rparr>"]
  by (simp add: new_row_def)

end
