(* ===== verification/System.thy ===== *)
theory System
  imports Worker Reporter
begin

text \<open>
  The whole service as a state machine. Its state is the job store and the
  goroutines started by \<^verbatim>\<open>go processRoute(token, routePathPointArr)\<close>
  (line 136) that have not finished, keyed by their token. An event is an intake
  request (\<^verbatim>\<open>pathHandler\<close>) or the run of one in-flight worker
  (\<^verbatim>\<open>processRoute\<close>) to its end; polls (\<^verbatim>\<open>routeHandler\<close>) read the
  store and change nothing, so they are functions of a state, not events. A worker
  runs as one step: it reads and writes only its own row (C14), so any interleaving
  of its statements with other steps reaches the same states. A panic in a
  goroutine ends the process: the store persists and every in-flight worker is lost.
  Reachable states are an inductive predicate; the invariant \<open>sys_inv\<close> holds
  in all of them by rule induction.
\<close>

section \<open>State, events, steps\<close>

record sys =
  sys_db :: store
  sys_workers :: "(token \<times> string list) list"

datatype event = Submit intake_env | Run token worker_env

definition init_sys :: sys where
  "init_sys = \<lparr>sys_db = Map.empty, sys_workers = []\<rparr>"

definition spawned :: "(token \<times> string list) option \<Rightarrow> (token \<times> string list) list" where
  "spawned w = (case w of None \<Rightarrow> [] | Some x \<Rightarrow> [x])"

fun sys_step :: "decoder \<Rightarrow> sys \<Rightarrow> event \<Rightarrow> sys" where
  "sys_step dec s (Submit env) =
     (case pathHandler dec env (sys_db s) of
        (resp, db', w) \<Rightarrow> \<lparr>sys_db = db', sys_workers = sys_workers s @ spawned w\<rparr>)"
| "sys_step dec s (Run t env) =
     (case map_of (sys_workers s) t of
        None \<Rightarrow> s
      | Some pts \<Rightarrow>
          (case processRoute env t pts (sys_db s) of
             (db', ex) \<Rightarrow>
               if ex = Exit_panic then \<lparr>sys_db = db', sys_workers = []\<rparr>
               else \<lparr>sys_db = db', sys_workers = filter (\<lambda>w. fst w \<noteq> t) (sys_workers s)\<rparr>))"

text \<open>\<^verbatim>\<open>uuid.NewV4().String()\<close> is 36 characters long.\<close>

definition event_ok :: "event \<Rightarrow> bool" where
  "event_ok e = (case e of Submit env \<Rightarrow> length (new_token env) = 36 | Run _ _ \<Rightarrow> True)"

inductive reachable :: "decoder \<Rightarrow> sys \<Rightarrow> bool" for dec where
  init: "reachable dec init_sys"
| step: "reachable dec s \<Longrightarrow> event_ok e \<Longrightarrow> reachable dec (sys_step dec s e)"

fun run_events :: "decoder \<Rightarrow> sys \<Rightarrow> event list \<Rightarrow> sys" where
  "run_events dec s [] = s"
| "run_events dec s (e # es) = run_events dec (sys_step dec s e) es"

section \<open>The invariant\<close>

text \<open>Every stored row holds a body that decodes to an accepted route and sits under
  a UUID-shaped token; every in-flight worker belongs to a pending row and carries
  that row's joined waypoints; at most one worker per token.\<close>

definition row_ok :: "decoder \<Rightarrow> job_row \<Rightarrow> bool" where
  "row_ok dec r \<longleftrightarrow> (case dec (row_path r) of Inl _ \<Rightarrow> False | Inr arr \<Rightarrow> valid_route arr)"

definition worker_ok :: "decoder \<Rightarrow> store \<Rightarrow> token \<times> string list \<Rightarrow> bool" where
  "worker_ok dec db w \<longleftrightarrow>
     (case db (fst w) of
        None \<Rightarrow> False
      | Some r \<Rightarrow> row_status r = 0 \<and>
          (case dec (row_path r) of Inl _ \<Rightarrow> False | Inr arr \<Rightarrow> snd w = route_points arr))"

definition sys_inv :: "decoder \<Rightarrow> sys \<Rightarrow> bool" where
  "sys_inv dec s \<longleftrightarrow>
     store_wf (sys_db s) \<and>
     (\<forall>t r. sys_db s t = Some r \<longrightarrow> row_ok dec r \<and> length t = 36) \<and>
     list_all (worker_ok dec (sys_db s)) (sys_workers s) \<and>
     distinct (map fst (sys_workers s))"

section \<open>Concrete instances\<close>

definition example_token :: token where
  "example_token = ''123e4567-e89b-42d3-a456-426614174000''"

definition example_token2 :: token where
  "example_token2 = ''9b2f1c3e-7d4a-4f6b-8e2a-1c3d5e7f9a0b''"

text \<open>A run in which \<^verbatim>\<open>db.Prepare\<close> fails, and a service that answers only
  the diagonal: one element per row, for its own pair.\<close>

definition prepare_fail_env :: worker_env where
  "prepare_fail_env =
     \<lparr>prepare_fault = Some ''bad connection'', dm_service = (\<lambda>_. Inl []), exec_fault = None\<rparr>"

definition diagonal_env :: worker_env where
  "diagonal_env =
     \<lparr>prepare_fault = None,
      dm_service = (\<lambda>req. Inr (map (\<lambda>(a, b). [example_answer ''OK'' a b])
                                   (zip (dm_origins req) (dm_destinations req)))),
      exec_fault = None\<rparr>"

section \<open>How one step changes the store\<close>

lemma sys_step_db_disj:
  "sys_db (sys_step dec s e) = sys_db s \<or>
   (\<exists>t body. sys_db s t = None \<and> sys_db (sys_step dec s e) = (sys_db s)(t \<mapsto> new_row body t 0)) \<or>
   (\<exists>t pts st d tm er. map_of (sys_workers s) t = Some pts \<and> (st = 1 \<or> st = -1) \<and>
      sys_db (sys_step dec s e) = db_update st d tm er t (sys_db s))"
proof (cases e)
  case (Submit env)
  obtain resp db' w where ph: "pathHandler dec env (sys_db s) = (resp, db', w)"
    by (metis prod_cases3)
  then have "sys_db (sys_step dec s e) = db'" by (simp add: Submit)
  with pathHandler_cases [OF ph] show ?thesis by blast
next
  case (Run t env)
  show ?thesis
  proof (cases "map_of (sys_workers s) t")
    case None
    then show ?thesis by (simp add: Run)
  next
    case (Some pts)
    obtain db' ex where pr: "processRoute env t pts (sys_db s) = (db', ex)"
      by (metis prod.exhaust)
    then have db: "sys_db (sys_step dec s e) = db'" by (simp add: Run Some)
    from processRoute_effect [of env t pts "sys_db s"] pr
    have "db' = sys_db s \<or>
          (\<exists>st d tm er. (st = 1 \<or> st = -1) \<and> db' = db_update st d tm er t (sys_db s))"
      by simp
    with db Some show ?thesis by blast
  qed
qed

lemma sys_step_db_cases:
  obtains (same) "sys_db (sys_step dec s e) = sys_db s"
  | (insert) t body where "sys_db s t = None"
      "sys_db (sys_step dec s e) = (sys_db s)(t \<mapsto> new_row body t 0)"
  | (finish) t pts st d tm er where "map_of (sys_workers s) t = Some pts" "st = 1 \<or> st = -1"
      "sys_db (sys_step dec s e) = db_update st d tm er t (sys_db s)"
  using sys_step_db_disj [of dec s e] by blast

lemma worker_ok_cong:
  "db' (fst w) = db (fst w) \<Longrightarrow> worker_ok dec db' w = worker_ok dec db w"
  by (simp add: worker_ok_def)

lemma worker_ok_dom: "worker_ok dec db w \<Longrightarrow> fst w \<in> dom db"
  by (auto simp: worker_ok_def split: option.splits)

lemma map_of_worker_ok:
  assumes "list_all (worker_ok dec db) ws" and "map_of ws t = Some pts"
  shows "\<exists>r. db t = Some r \<and> row_status r = 0"
proof -
  from assms(2) have "(t, pts) \<in> set ws" by (rule map_of_SomeD)
  with assms(1) have "worker_ok dec db (t, pts)" by (simp add: list_all_iff)
  then show ?thesis by (auto simp: worker_ok_def split: option.splits)
qed

lemma inv_worker_pending:
  "sys_inv dec s \<Longrightarrow> map_of (sys_workers s) t = Some pts \<Longrightarrow>
     \<exists>r. sys_db s t = Some r \<and> row_status r = 0"
  using map_of_worker_ok [of dec "sys_db s" "sys_workers s" t pts] by (simp add: sys_inv_def)

section \<open>The invariant holds in every reachable state\<close>

lemma sys_inv_init: "sys_inv dec init_sys"
  by (simp add: sys_inv_def init_sys_def)

lemma sys_inv_submit:
  assumes inv: "sys_inv dec s" and ok: "length (new_token env) = 36"
  shows "sys_inv dec (sys_step dec s (Submit env))"
proof -
  obtain resp db' w where ph: "pathHandler dec env (sys_db s) = (resp, db', w)"
    by (metis prod_cases3)
  have step: "sys_step dec s (Submit env) = \<lparr>sys_db = db', sys_workers = sys_workers s @ spawned w\<rparr>"
    by (simp add: ph)
  from pathHandler_cases [OF ph] show ?thesis
  proof
    assume "(\<exists>e. resp = Intake_error e) \<and> db' = sys_db s \<and> w = None"
    with inv show ?thesis unfolding step by (simp add: spawned_def sys_inv_def)
  next
    let ?t = "new_token env"
    assume "\<exists>body arr. body_read env = Inr body \<and> dec body = Inr arr \<and> valid_route arr \<and>
            insert_fault env = None \<and> sys_db s ?t = None \<and>
            resp = Intake_token ?t \<and> db' = (sys_db s)(?t \<mapsto> new_row body ?t 0) \<and>
            w = Some (?t, route_points arr)"
    then obtain body arr where dec: "dec body = Inr arr" and valid: "valid_route arr"
      and fresh: "sys_db s ?t = None" and db': "db' = (sys_db s)(?t \<mapsto> new_row body ?t 0)"
      and w: "w = Some (?t, route_points arr)"
      by blast
    have wf: "store_wf db'"
      using inv fresh by (auto simp: db' sys_inv_def store_wf_def new_row_def)
    have rows: "\<forall>t r. db' t = Some r \<longrightarrow> row_ok dec r \<and> length t = 36"
      using inv ok dec valid by (auto simp: db' sys_inv_def row_ok_def new_row_def)
    have old: "list_all (worker_ok dec db') (sys_workers s)"
    proof -
      have "worker_ok dec db' x" if "x \<in> set (sys_workers s)" for x
      proof -
        from inv that have x: "worker_ok dec (sys_db s) x" by (simp add: sys_inv_def list_all_iff)
        then have "fst x \<noteq> ?t" using fresh worker_ok_dom by fastforce
        then have "db' (fst x) = sys_db s (fst x)" by (simp add: db')
        from worker_ok_cong [of db' x "sys_db s", OF this] x show ?thesis by simp
      qed
      then show ?thesis by (simp add: list_all_iff)
    qed
    have new: "worker_ok dec db' (?t, route_points arr)"
      by (simp add: worker_ok_def db' new_row_def dec)
    have "?t \<notin> set (map fst (sys_workers s))"
      using inv fresh worker_ok_dom by (fastforce simp: sys_inv_def list_all_iff)
    with inv have "distinct (map fst (sys_workers s @ spawned w))"
      by (simp add: w spawned_def sys_inv_def)
    with wf rows old new show ?thesis
      unfolding step by (simp add: sys_inv_def w spawned_def)
  qed
qed

lemma sys_inv_run:
  assumes inv: "sys_inv dec s"
  shows "sys_inv dec (sys_step dec s (Run t env))"
proof (cases "map_of (sys_workers s) t")
  case None
  with inv show ?thesis by simp
next
  case (Some pts)
  obtain db' ex where pr: "processRoute env t pts (sys_db s) = (db', ex)"
    by (metis prod.exhaust)
  define ws where "ws = (if ex = Exit_panic then [] else filter (\<lambda>w. fst w \<noteq> t) (sys_workers s))"
  have step: "sys_step dec s (Run t env) = \<lparr>sys_db = db', sys_workers = ws\<rparr>"
    using Some pr by (simp add: ws_def)
  have frame: "db' t' = sys_db s t'" if "t' \<noteq> t" for t'
    using processRoute_other [OF that, of env pts "sys_db s"] pr by simp
  have wf: "store_wf db'"
  proof -
    from processRoute_effect [of env t pts "sys_db s"] pr
    have "db' = sys_db s \<or>
          (\<exists>st d tm er. (st = 1 \<or> st = -1) \<and> db' = db_update st d tm er t (sys_db s))"
      by simp
    with inv show ?thesis by (auto simp: sys_inv_def intro: store_wf_db_update)
  qed
  have rows: "\<forall>t' r'. db' t' = Some r' \<longrightarrow> row_ok dec r' \<and> length t' = 36"
  proof (intro allI impI)
    fix t' r' assume "db' t' = Some r'"
    with processRoute_row [of env t pts "sys_db s" t' r'] pr
    obtain r where "sys_db s t' = Some r" and "row_path r' = row_path r" by auto
    with inv show "row_ok dec r' \<and> length t' = 36"
      by (auto simp: sys_inv_def row_ok_def)
  qed
  have wk: "list_all (worker_ok dec db') ws"
  proof -
    have "worker_ok dec db' x" if x: "x \<in> set (filter (\<lambda>w. fst w \<noteq> t) (sys_workers s))" for x
    proof -
      from x have "x \<in> set (sys_workers s)" and "fst x \<noteq> t" by auto
      from inv \<open>x \<in> set (sys_workers s)\<close> have ok: "worker_ok dec (sys_db s) x"
        by (simp add: sys_inv_def list_all_iff)
      from frame [OF \<open>fst x \<noteq> t\<close>] have "db' (fst x) = sys_db s (fst x)" .
      from worker_ok_cong [of db' x "sys_db s", OF this] ok show ?thesis by simp
    qed
    then show ?thesis by (simp add: ws_def list_all_iff)
  qed
  have "distinct (map fst ws)"
    using inv by (simp add: ws_def sys_inv_def distinct_map_filter)
  with wf rows wk show ?thesis
    unfolding step by (simp add: sys_inv_def)
qed

lemma sys_inv_step:
  assumes "sys_inv dec s" and "event_ok e"
  shows "sys_inv dec (sys_step dec s e)"
proof (cases e)
  case (Submit env)
  have "length (new_token env) = 36" using assms(2) Submit by (simp add: event_ok_def)
  then show ?thesis unfolding Submit by (rule sys_inv_submit [OF assms(1)])
next
  case (Run t env)
  show ?thesis unfolding Run by (rule sys_inv_run [OF assms(1)])
qed

lemma reachable_inv: "reachable dec s \<Longrightarrow> sys_inv dec s"
  by (induction rule: reachable.induct) (auto intro: sys_inv_init sys_inv_step)

lemma reachable_worker:
  assumes "reachable dec s" and "map_of (sys_workers s) t = Some pts"
  shows "\<exists>r arr. sys_db s t = Some r \<and> row_status r = 0 \<and> dec (row_path r) = Inr arr \<and>
           valid_route arr \<and> pts = route_points arr"
proof -
  have inv: "sys_inv dec s" using assms(1) by (rule reachable_inv)
  from assms(2) have "(t, pts) \<in> set (sys_workers s)" by (rule map_of_SomeD)
  with inv have w: "worker_ok dec (sys_db s) (t, pts)" by (simp add: sys_inv_def list_all_iff)
  then obtain r where r: "sys_db s t = Some r" by (auto simp: worker_ok_def split: option.splits)
  with inv have "row_ok dec r" by (simp add: sys_inv_def)
  with w r show ?thesis by (auto simp: worker_ok_def row_ok_def split: sum.splits)
qed

lemma run_events_reachable:
  "reachable dec s \<Longrightarrow> list_all event_ok es \<Longrightarrow> reachable dec (run_events dec s es)"
  by (induction es arbitrary: s) (auto intro: reachable.step)

lemma row_path_step:
  assumes "reachable dec s" and "sys_db s t = Some r"
  shows "\<exists>r'. sys_db (sys_step dec s e) t = Some r' \<and> row_path r' = row_path r"
proof (cases rule: sys_step_db_cases [of dec s e])
  case same
  with assms(2) show ?thesis by simp
next
  case (insert t0 body)
  with assms(2) show ?thesis by (cases "t = t0") simp_all
next
  case (finish t0 pts st d tm er)
  with assms(2) show ?thesis by (cases "t = t0") simp_all
qed

lemma row_path_run:
  assumes "reachable dec s" and "list_all event_ok es" and "sys_db s t = Some r"
  shows "\<exists>r'. sys_db (run_events dec s es) t = Some r' \<and> row_path r' = row_path r"
  using assms
proof (induction es arbitrary: s r)
  case Nil
  then show ?case by simp
next
  case (Cons e es)
  from row_path_step [OF Cons.prems(1,3)] obtain r1
    where r1: "sys_db (sys_step dec s e) t = Some r1" and p: "row_path r1 = row_path r" by blast
  have "reachable dec (sys_step dec s e)" using Cons.prems(1,2) by (auto intro: reachable.step)
  from Cons.IH [OF this _ r1] Cons.prems(2) p show ?case by simp
qed

lemma terminal_row_step:
  assumes "reachable dec s" and "sys_db s t = Some r" and "row_status r \<noteq> 0"
  shows "sys_db (sys_step dec s e) t = Some r"
proof -
  have inv: "sys_inv dec s" using assms(1) by (rule reachable_inv)
  show ?thesis
  proof (cases rule: sys_step_db_cases [of dec s e])
    case same
    with assms(2) show ?thesis by simp
  next
    case (insert t0 body)
    with assms(2) show ?thesis by (cases "t = t0") simp_all
  next
    case (finish t0 pts st d tm er)
    note w = finish(1) and db = finish(3)
    from inv w have "\<exists>r. sys_db s t0 = Some r \<and> row_status r = 0"
      by (rule inv_worker_pending)
    with assms(2,3) have "t \<noteq> t0" by auto
    with db assms(2) show ?thesis by simp
  qed
qed

text \<open>A stored row without a worker is never written again: no request inserts under
  its token and no worker run touches it.\<close>

lemma orphan_step:
  assumes "sys_db s t = Some r" and "map_of (sys_workers s) t = None"
  shows "sys_db (sys_step dec s e) t = Some r \<and> map_of (sys_workers (sys_step dec s e)) t = None"
proof (cases e)
  case (Submit env)
  obtain resp db' w where ph: "pathHandler dec env (sys_db s) = (resp, db', w)"
    by (metis prod_cases3)
  from pathHandler_cases [OF ph] assms show ?thesis
    by (auto simp: Submit ph spawned_def map_of_append)
next
  case (Run t' env)
  show ?thesis
  proof (cases "map_of (sys_workers s) t'")
    case (Some pts)
    with assms(2) have ne: "t \<noteq> t'" by auto
    obtain db' ex where pr: "processRoute env t' pts (sys_db s) = (db', ex)"
      by (metis prod.exhaust)
    from processRoute_other [OF ne, of env pts "sys_db s"] pr have "db' t = Some r"
      using assms(1) by simp
    with assms(2) Some pr show ?thesis
      by (auto simp: Run map_of_eq_None_iff)
  qed (use assms Run in simp)
qed

lemma orphan_run:
  assumes "sys_db s t = Some r" and "map_of (sys_workers s) t = None"
  shows "sys_db (run_events dec s es) t = Some r"
  using assms
proof (induction es arbitrary: s)
  case (Cons e es)
  from orphan_step [OF Cons.prems] Cons.IH show ?case by simp
qed simp

lemma example_answer_status [simp]: "el_status (example_answer ''OK'' a b) = ''OK''"
  by (simp add: example_answer_def)

lemma inv_empty_token:
  assumes "sys_inv dec s"
  shows "sys_db s [] = None"
proof (rule ccontr)
  assume "sys_db s [] \<noteq> None"
  then obtain r where r: "sys_db s [] = Some r" by auto
  from assms have "\<forall>t r. sys_db s t = Some r \<longrightarrow> row_ok dec r \<and> length t = 36"
    by (simp add: sys_inv_def)
  with r have "length ([] :: string) = 36" by blast
  then show False by simp
qed

section \<open>Properties of the running service\<close>

text \<open>C1. Type invariant of the service: in every reachable state each row sits under
  its own token, has one of the three status codes and holds a body that decodes to
  an accepted route; each in-flight worker belongs to a pending row and carries that
  row's joined waypoints; no token has two workers.\<close>

theorem reachable_jobs_wellformed:
  assumes "reachable dec s"
  shows "(\<forall>t r. sys_db s t = Some r \<longrightarrow>
            row_token r = t \<and> (row_status r = 0 \<or> row_status r = 1 \<or> row_status r = -1) \<and>
            (\<exists>arr. dec (row_path r) = Inr arr \<and> valid_route arr)) \<and>
         (\<forall>(t, pts) \<in> set (sys_workers s). \<exists>r arr. sys_db s t = Some r \<and> row_status r = 0 \<and>
            dec (row_path r) = Inr arr \<and> pts = route_points arr) \<and>
         distinct (map fst (sys_workers s))"
proof -
  have inv: "sys_inv dec s" using assms by (rule reachable_inv)
  have rows: "row_token r = t \<and> (row_status r = 0 \<or> row_status r = 1 \<or> row_status r = -1) \<and>
            (\<exists>arr. dec (row_path r) = Inr arr \<and> valid_route arr)" if r: "sys_db s t = Some r" for t r
  proof -
    from inv r have wf: "row_token r = t \<and> status_of_int (row_status r) \<noteq> None"
      by (simp add: sys_inv_def store_wf_def)
    from inv r have ok: "row_ok dec r" by (simp add: sys_inv_def)
    from wf have "row_status r = 0 \<or> row_status r = 1 \<or> row_status r = -1"
      by (auto simp: status_of_int_def split: if_splits)
    moreover from ok have "\<exists>arr. dec (row_path r) = Inr arr \<and> valid_route arr"
      by (auto simp: row_ok_def split: sum.splits)
    ultimately show ?thesis using wf by blast
  qed
  have wks: "\<exists>r arr. sys_db s t = Some r \<and> row_status r = 0 \<and> dec (row_path r) = Inr arr \<and>
               pts = route_points arr" if w: "(t, pts) \<in> set (sys_workers s)" for t pts
  proof -
    from inv w have "worker_ok dec (sys_db s) (t, pts)" by (simp add: sys_inv_def list_all_iff)
    then show ?thesis by (auto simp: worker_ok_def split: option.splits sum.splits)
  qed
  have "distinct (map fst (sys_workers s))" using inv by (simp add: sys_inv_def)
  with rows wks show ?thesis by fast
qed

text \<open>C11. Isolation: running the worker of token \<open>t\<close> leaves the row of every
  other token as it was.\<close>

theorem run_isolation:
  assumes "t' \<noteq> t"
  shows "sys_db (sys_step dec s (Run t env)) t' = sys_db s t'"
proof (cases "map_of (sys_workers s) t")
  case None
  then show ?thesis by simp
next
  case (Some pts)
  obtain db' ex where pr: "processRoute env t pts (sys_db s) = (db', ex)"
    by (metis prod.exhaust)
  with processRoute_other [OF assms, of env pts "sys_db s"] Some show ?thesis by simp
qed

text \<open>C2. The job state machine: a step creates rows only as pending, never
  deletes one, and changes a row only from pending to success or failure, keeping
  its token and its stored body.\<close>

theorem job_status_transitions:
  assumes "reachable dec s"
  shows "case (sys_db s t, sys_db (sys_step dec s e) t) of
           (None, None) \<Rightarrow> True
         | (None, Some r') \<Rightarrow> row_status r' = 0
         | (Some r, None) \<Rightarrow> False
         | (Some r, Some r') \<Rightarrow> r' = r \<or>
             (row_status r = 0 \<and> (row_status r' = 1 \<or> row_status r' = -1) \<and>
              row_path r' = row_path r \<and> row_token r' = row_token r)"
proof -
  have inv: "sys_inv dec s" using assms by (rule reachable_inv)
  show ?thesis
  proof (cases rule: sys_step_db_cases [of dec s e])
    case same
    then show ?thesis by (simp split: option.split)
  next
    case (insert t0 body)
    then show ?thesis by (cases "t = t0") (simp_all add: new_row_def split: option.split)
  next
    case (finish t0 pts st d tm er)
    note w = finish(1) and st = finish(2) and db = finish(3)
    from inv w have "\<exists>r. sys_db s t0 = Some r \<and> row_status r = 0"
      by (rule inv_worker_pending)
    with st db show ?thesis
      by (cases "t = t0") (auto split: option.split)
  qed
qed

text \<open>C3. Once a job is terminal its row never changes again: along any run of
  requests and worker completions from a reachable state, the row of a token whose
  status is success or failure stays exactly as it is.\<close>

theorem terminal_rows_stable:
  assumes "reachable dec s" and "list_all event_ok es"
    and "sys_db s t = Some r" and "row_status r \<noteq> 0"
  shows "sys_db (run_events dec s es) t = Some r"
  using assms
proof (induction es arbitrary: s)
  case Nil
  then show ?case by simp
next
  case (Cons e es)
  have "reachable dec (sys_step dec s e)"
    using Cons.prems(1,2) by (auto intro: reachable.step)
  moreover have "sys_db (sys_step dec s e) t = Some r"
    using Cons.prems(1,3,4) by (rule terminal_row_step)
  ultimately show ?case using Cons.prems(2,4) Cons.IH by simp
qed

text \<open>C12. A worker that meets no fault and whose service honours its contract ends
  its job: after it runs, the row is terminal (success or failure) and the token
  has no worker in flight.\<close>

theorem worker_completes_job:
  assumes "reachable dec s" and "map_of (sys_workers s) t = Some pts"
    and "prepare_fault env = None" and "exec_fault env = None"
    and "answers_by env f (request_of pts)"
  shows "\<exists>r. sys_db (sys_step dec s (Run t env)) t = Some r \<and>
           (row_status r = 1 \<or> row_status r = -1) \<and>
           map_of (sys_workers (sys_step dec s (Run t env))) t = None"
proof -
  obtain r0 arr where r0: "sys_db s t = Some r0" and "valid_route arr" and pts: "pts = route_points arr"
    using reachable_worker [OF assms(1,2)] by blast
  then have "2 \<le> length pts" by (simp add: valid_route_def)
  then have "pts \<noteq> []" by auto
  note pr = processRoute_contract [OF assms(3,4) this assms(5), of t "sys_db s"]
  show ?thesis
  proof (cases "spec_aggregate (pair_answers f pts)")
    case (Spec_success d tm)
    with pr assms(2) r0 show ?thesis by simp
  next
    case (Spec_failure st)
    with pr assms(2) r0 show ?thesis by simp
  qed
qed


lemmas scenario_eval = example_decoder_eval example_token_def example_token2_def
  pathHandler_def check_points_cases db_insert_def Let_def event_ok_def spawned_def
  init_sys_def new_row_def route_points_def

lemma submitted_example:
  "sys_step example_decoder init_sys (Submit (request_env example_body example_token)) =
     \<lparr>sys_db = [example_token \<mapsto> new_row example_body example_token 0],
      sys_workers = [(example_token, [''1,1'', ''2,2'', ''3,3''])]\<rparr>"
  by (simp add: scenario_eval)

text \<open>C13. A job whose \<^verbatim>\<open>db.Prepare\<close> fails is orphaned for ever: the
  worker returns at line 152 without writing, so the row, pending, has no worker left,
  and no later request or worker run, whatever it is, changes it again; the
  specification requires exactly one terminal update per job.\<close>

theorem orphaned_pending_job:
  assumes "reachable dec s" and "map_of (sys_workers s) t = Some pts" and "prepare_fault env = Some e"
  shows "\<exists>r. sys_db s t = Some r \<and> row_status r = 0 \<and>
           (\<forall>es. sys_db (run_events dec (sys_step dec s (Run t env)) es) t = Some r)"
proof -
  from inv_worker_pending [OF reachable_inv [OF assms(1)] assms(2)]
  obtain r where r: "sys_db s t = Some r" and st: "row_status r = 0" by blast
  have "processRoute env t pts (sys_db s) = (sys_db s, Exit_no_statement)"
    using assms(3) by (simp add: processRoute_def)
  then have db: "sys_db (sys_step dec s (Run t env)) t = Some r"
    and w: "map_of (sys_workers (sys_step dec s (Run t env))) t = None"
    using assms(2) r by simp_all
  have "sys_db (run_events dec (sys_step dec s (Run t env)) es) t = Some r" for es
    by (rule orphan_run [OF db w])
  with r st show ?thesis by blast
qed

lemma completed_example:
  "sys_step example_decoder
     (sys_step example_decoder init_sys (Submit (request_env example_body example_token)))
     (Run example_token (contract_env (example_answer ''OK''))) =
   \<lparr>sys_db = [example_token \<mapsto> (new_row example_body example_token 0)\<lparr>row_status := 1,
       row_total_distance := 3000, row_total_time := 180, row_response_error := []\<rparr>],
    sys_workers = []\<rparr>"
proof -
  have "processRoute (contract_env (example_answer ''OK'')) example_token [''1,1'', ''2,2'', ''3,3'']
          [example_token \<mapsto> new_row example_body example_token 0] =
        ([example_token \<mapsto> (new_row example_body example_token 0)\<lparr>row_status := 1,
            row_total_distance := 3000, row_total_time := 180, row_response_error := []\<rparr>],
         Exit_completed)"
    using processRoute_contract [of "contract_env (example_answer ''OK'')" "[''1,1'', ''2,2'', ''3,3'']"
        "example_answer ''OK''" example_token "[example_token \<mapsto> new_row example_body example_token 0]"]
    by (simp add: example_eval db_update_def)
  then show ?thesis unfolding submitted_example by simp
qed

lemma reachable_submitted:
  "reachable example_decoder (sys_step example_decoder init_sys (Submit (request_env example_body example_token)))"
  by (rule reachable.step [OF reachable.init]) (simp add: scenario_eval)

text \<open>C14. A provider answer with one element per row (the "diagonal-only" shape)
  crashes the service on any route of three or more waypoints: row 1 has no element 1,
  \<^verbatim>\<open>row.Elements[i]\<close> panics inside the goroutine, the process dies with the
  store as it was, and every other pending job loses its worker too.\<close>

theorem diagonal_answer_crashes_service:
  assumes "map_of (sys_workers s) t = Some pts" and "3 \<le> length pts"
  shows "sys_step dec s (Run t diagonal_env) = \<lparr>sys_db = sys_db s, sys_workers = []\<rparr>"
proof -
  obtain a b c rest where pts: "pts = a # b # c # rest"
    using assms(2) by (cases pts rule: list.exhaust; cases "tl pts"; cases "tl (tl pts)") auto
  have "processRoute diagonal_env t pts (sys_db s) = (sys_db s, Exit_panic)"
    by (simp add: pts processRoute_def diagonal_env_def build_request_def request_of_def
                  example_answer_status)
  with assms(1) show ?thesis by simp
qed

text \<open>In every reachable state, polling the empty token answers
  \<^verbatim>\<open>{"status":"in progress"}\<close>: the failed \<^verbatim>\<open>Scan\<close> leaves \<^verbatim>\<open>status\<close>
  at 0 and the in-progress branch overrides the "Invalid Token" result, while the
  specification requires Failure / "Invalid Token".\<close>

theorem poll_empty_token:
  assumes "reachable dec s"
  shows "routeHandler dec [] (sys_db s) = in_progress_route"
  using inv_empty_token [OF reachable_inv [OF assms]] by (rule routeHandler_unknown)

text \<open>C17. In every reachable state every poll answers one of the three statuses
  "in progress", "failure" or "success"; the zero-valued result of an unrecognised
  status code never reaches a client.\<close>

theorem poll_status_recognised:
  assumes "reachable dec s"
  shows "sr_status (routeHandler dec t (sys_db s)) \<in> {''in progress'', ''failure'', ''success''}"
proof (cases "sys_db s t")
  case None
  then show ?thesis by (simp add: routeHandler_unknown)
next
  case (Some r)
  have "store_wf (sys_db s)" using reachable_inv [OF assms] by (simp add: sys_inv_def)
  with Some have "status_of_int (row_status r) \<noteq> None" by (simp add: store_wf_def)
  then have "row_status r = 0 \<or> row_status r = 1 \<or> row_status r = -1"
    by (auto simp: status_of_int_def split: if_splits)
  with Some show ?thesis by (auto simp: routeHandler_row split: sum.split)
qed

section \<open>Witnesses\<close>

theorem reachable_jobs_wellformed_witness:
  "distinct (map fst (sys_workers
     (sys_step example_decoder init_sys (Submit (request_env example_body example_token)))))"
  using reachable_jobs_wellformed [OF reachable_submitted] by blast

theorem run_isolation_witness:
  "sys_db (sys_step example_decoder init_sys (Run example_token (contract_env (example_answer ''OK''))))
     example_token2 = None"
  using run_isolation [of example_token2 example_token example_decoder init_sys]
  by (simp add: example_token_def example_token2_def init_sys_def)

theorem job_status_transitions_witness:
  "row_status (the (sys_db (sys_step example_decoder init_sys
      (Submit (request_env example_body example_token))) example_token)) = 0"
  using job_status_transitions [OF reachable.init, of example_token example_decoder
      "Submit (request_env example_body example_token)"]
  unfolding submitted_example by (simp add: init_sys_def)

theorem terminal_rows_stable_witness:
  "sys_db (run_events example_decoder
      (sys_step example_decoder
         (sys_step example_decoder init_sys (Submit (request_env example_body example_token)))
         (Run example_token (contract_env (example_answer ''OK''))))
      [Submit (request_env example_body example_token)]) example_token =
   Some ((new_row example_body example_token 0)\<lparr>row_status := 1,
       row_total_distance := 3000, row_total_time := 180, row_response_error := []\<rparr>)"
proof -
  have r: "reachable example_decoder
      (sys_step example_decoder
         (sys_step example_decoder init_sys (Submit (request_env example_body example_token)))
         (Run example_token (contract_env (example_answer ''OK''))))"
    by (rule reachable.step [OF reachable_submitted]) (simp add: event_ok_def)
  show ?thesis
    using terminal_rows_stable [OF r, of "[Submit (request_env example_body example_token)]"
        example_token "(new_row example_body example_token 0)\<lparr>row_status := 1,
       row_total_distance := 3000, row_total_time := 180, row_response_error := []\<rparr>"]
    unfolding completed_example by (simp add: event_ok_def request_env_def example_token_def new_row_def)
qed

theorem worker_completes_job_witness:
  "\<exists>r. sys_db (sys_step example_decoder
         (sys_step example_decoder init_sys (Submit (request_env example_body example_token)))
         (Run example_token (contract_env (example_answer ''OK'')))) example_token = Some r \<and>
       (row_status r = 1 \<or> row_status r = -1)"
proof -
  have w: "map_of (sys_workers (sys_step example_decoder init_sys
             (Submit (request_env example_body example_token)))) example_token =
           Some [''1,1'', ''2,2'', ''3,3'']"
    unfolding submitted_example by simp
  have p: "prepare_fault (contract_env (example_answer ''OK'')) = None"
    and e: "exec_fault (contract_env (example_answer ''OK'')) = None"
    by (simp_all add: contract_env_def)
  have a: "answers_by (contract_env (example_answer ''OK'')) (example_answer ''OK'')
             (request_of [''1,1'', ''2,2'', ''3,3''])"
    by (simp add: answers_by_def contract_env_def)
  from worker_completes_job [OF reachable_submitted w p e a] show ?thesis by blast
qed

theorem poll_empty_token_witness:
  "routeHandler example_decoder []
     (sys_db (sys_step example_decoder init_sys (Submit (request_env example_body example_token)))) =
   in_progress_route"
  using poll_empty_token [OF reachable_submitted] .

theorem poll_status_recognised_witness:
  "sr_status (routeHandler example_decoder example_token
     (sys_db (sys_step example_decoder init_sys (Submit (request_env example_body example_token))))) =
   ''in progress''"
  using poll_status_recognised [OF reachable_submitted, of example_token]
  unfolding submitted_example by (simp add: routeHandler_row new_row_def)


lemma submitted_worker:
  "map_of (sys_workers (sys_step example_decoder init_sys (Submit (request_env example_body example_token))))
     example_token = Some [''1,1'', ''2,2'', ''3,3'']"
  unfolding submitted_example by simp

theorem orphaned_pending_job_witness:
  "\<exists>r. sys_db (sys_step example_decoder init_sys (Submit (request_env example_body example_token)))
          example_token = Some r \<and> row_status r = 0 \<and>
       (\<forall>es. sys_db (run_events example_decoder
          (sys_step example_decoder (sys_step example_decoder init_sys
             (Submit (request_env example_body example_token))) (Run example_token prepare_fail_env)) es)
          example_token = Some r)"
  using orphaned_pending_job [OF reachable_submitted submitted_worker, of prepare_fail_env "''bad connection''"]
  by (simp add: prepare_fail_env_def)

theorem diagonal_answer_crashes_service_witness:
  "sys_step example_decoder (sys_step example_decoder init_sys (Submit (request_env example_body example_token)))
     (Run example_token diagonal_env) =
   \<lparr>sys_db = sys_db (sys_step example_decoder init_sys (Submit (request_env example_body example_token))),
    sys_workers = []\<rparr>"
  using diagonal_answer_crashes_service [OF submitted_worker] by simp

end
