(* ===== verification/Startup.thy ===== *)
theory Startup
  imports Prelude
begin

text \<open>
  Process start-up: the package-level variables (lines 23--30 of
  \<^verbatim>\<open>src/app/shortest_route.go\<close>) and \<^verbatim>\<open>main\<close> (lines 47--80). \<^verbatim>\<open>main\<close>
  parses the flags, opens and pings the MySQL handle, runs two migration steps,
  registers the two routes and serves. Every library call is an outcome the
  environment chooses, as a function of the arguments the source passes (the DSN, the
  migrations URL, the listen address), so the model keeps the order of the calls and
  of the checks of the source. Three things are visible in the order of those checks:
  the error of \<^verbatim>\<open>mysql.WithInstance\<close> is discarded (\<^verbatim>\<open>driver, _ :=\<close>); the
  error of \<^verbatim>\<open>migrate.NewWithDatabaseInstance\<close> is checked only after
  \<^verbatim>\<open>m.Steps(2)\<close> has run on the \<open>nil\<close> result; and the error that
  \<^verbatim>\<open>m.Steps(2)\<close> returns is never looked at.
  A \<^verbatim>\<open>log.Fatal\<close> exits with status 1 without running the deferred
  \<^verbatim>\<open>db.Close()\<close>; a flag error exits with status 2 (\<^verbatim>\<open>flag.ExitOnError\<close>).
\<close>

section \<open>Configuration\<close>

text \<open>The default of \<^verbatim>\<open>-port\<close> (line 24).\<close>

definition default_port :: string where
  "default_port = '':8080''"

text \<open>The DSN of line 50 and the migrations URL of line 63, from the environment
  as \<^verbatim>\<open>os.Getenv\<close> reads it (an unset variable reads as the empty string).\<close>

definition mysql_dsn :: "(string \<Rightarrow> string) \<Rightarrow> string" where
  "mysql_dsn getenv =
     getenv ''MYSQL_USER'' @ '':'' @ getenv ''MYSQL_PASSWORD'' @ ''@tcp('' @ getenv ''MYSQL_HOST''
     @ '')/'' @ getenv ''MYSQL_DATABASE'' @ ''?charset=utf8''"

definition migrations_url :: "(string \<Rightarrow> string) \<Rightarrow> string" where
  "migrations_url getenv = ''file://'' @ getenv ''PWD'' @ ''/migrations''"

text \<open>What the environment decides: the variables, the \<^verbatim>\<open>-port\<close> argument, a
  flag error, and the error (or \<open>None\<close>) of each library call for the arguments it
  is given. \<open>listen\<close> is \<open>None\<close> when \<^verbatim>\<open>http.ListenAndServe\<close> serves until the
  process is killed: it returns only with an error.\<close>

record startup_env =
  getenv :: "string \<Rightarrow> string"
  port_arg :: "string option"
  flag_fault :: "string option"
  sql_open :: "string \<Rightarrow> string \<Rightarrow> string option"
  db_ping :: "string \<Rightarrow> string option"
  driver_fault :: "string option"
  migrate_new :: "string \<Rightarrow> string \<Rightarrow> string option"
  migrate_steps :: "nat \<Rightarrow> string option"
  listen :: "string \<Rightarrow> string option"

text \<open>The routes of lines 73--75: method, pattern and handler.\<close>

datatype handler = RouteHandler | PathHandler

definition routes :: "(string \<times> string \<times> handler) list" where
  "routes = [(''GET'', ''/route/:token'', RouteHandler), (''POST'', ''/route'', PathHandler)]"

text \<open>The state the process serves in: the listen address, the DSN of the global
  handle \<^verbatim>\<open>db\<close>, the API key of line 25 that every worker's client uses,
  whether the two migration steps succeeded, and the routes.\<close>

record serve_config =
  cfg_addr :: string
  cfg_dsn :: string
  cfg_api_key :: string
  cfg_migrated :: bool
  cfg_routes :: "(string \<times> string \<times> handler) list"

datatype startup_outcome = Fatal nat string | Panic string | Serving serve_config

section \<open>main\<close>

definition port_value :: "startup_env \<Rightarrow> string" where
  "port_value env = (case port_arg env of None \<Rightarrow> default_port | Some p \<Rightarrow> p)"

text \<open>Lines 47--80. \<^verbatim>\<open>m.Steps(2)\<close> (line 68) runs before the check of line 69:
  when \<^verbatim>\<open>NewWithDatabaseInstance\<close> failed, \<open>m\<close> is \<open>nil\<close> and the call
  dereferences it; when \<^verbatim>\<open>WithInstance\<close> failed, the \<open>nil\<close> driver is
  dereferenced when \<^verbatim>\<open>Steps\<close> takes the database lock. Both are run-time
  panics. The error of \<^verbatim>\<open>Steps\<close> is dropped.\<close>

definition main :: "startup_env \<Rightarrow> startup_outcome" where
  "main env =
     (case flag_fault env of
        Some e \<Rightarrow> Fatal 2 e
      | None \<Rightarrow>
          (let dsn = mysql_dsn (getenv env) in
           case sql_open env ''mysql'' dsn of
             Some e \<Rightarrow> Fatal 1 e
           | None \<Rightarrow>
               (case db_ping env dsn of
                  Some e \<Rightarrow> Fatal 1 e
                | None \<Rightarrow>
                    (case migrate_new env (migrations_url (getenv env)) ''mysql'' of
                       Some _ \<Rightarrow> Panic ''invalid memory address or nil pointer dereference''
                     | None \<Rightarrow>
                         (case driver_fault env of
                            Some _ \<Rightarrow> Panic ''invalid memory address or nil pointer dereference''
                          | None \<Rightarrow>
                              (let migrated = (migrate_steps env 2 = None) in
                               case listen env (port_value env) of
                                 Some e \<Rightarrow> Fatal 1 (''ListenAndServe:'' @ e)
                               | None \<Rightarrow>
                                   Serving \<lparr>cfg_addr = port_value env, cfg_dsn = dsn,
                                            cfg_api_key = getenv env ''GOOGLE_API_KEY'',
                                            cfg_migrated = migrated, cfg_routes = routes\<rparr>))))))"

section \<open>Concrete instances\<close>

text \<open>An environment in which every call succeeds except the migration steps.\<close>

definition example_getenv :: "string \<Rightarrow> string" where
  "example_getenv v =
     (if v = ''MYSQL_USER'' then ''route'' else if v = ''MYSQL_PASSWORD'' then ''secret''
      else if v = ''MYSQL_HOST'' then ''db:3306'' else if v = ''MYSQL_DATABASE'' then ''routes''
      else if v = ''PWD'' then ''/app'' else if v = ''GOOGLE_API_KEY'' then ''key'' else [])"

definition healthy_env :: startup_env where
  "healthy_env =
     \<lparr>getenv = example_getenv, port_arg = None, flag_fault = None,
      sql_open = (\<lambda>_ _. None), db_ping = (\<lambda>_. None), driver_fault = None,
      migrate_new = (\<lambda>_ _. None), migrate_steps = (\<lambda>_. Some ''no migration''),
      listen = (\<lambda>_. None)\<rparr>"

section \<open>Properties\<close>

text \<open>C20. \<^verbatim>\<open>main\<close> reaches the serving loop exactly when the flags parse,
  \<^verbatim>\<open>sql.Open\<close> and \<^verbatim>\<open>db.Ping\<close> succeed on the DSN built from the
  environment, both migration handles are created and \<^verbatim>\<open>ListenAndServe\<close> does
  not return; it then serves on the \<^verbatim>\<open>-port\<close> address (\<^verbatim>\<open>:8080\<close> by
  default) the two routes, and the schema is migrated exactly when
  \<^verbatim>\<open>m.Steps(2)\<close> succeeded: a failed migration does not stop the server.\<close>

theorem main_serves_iff:
  "main env = Serving cfg \<longleftrightarrow>
     flag_fault env = None \<and>
     sql_open env ''mysql'' (mysql_dsn (getenv env)) = None \<and>
     db_ping env (mysql_dsn (getenv env)) = None \<and>
     migrate_new env (migrations_url (getenv env)) ''mysql'' = None \<and>
     driver_fault env = None \<and>
     listen env (port_value env) = None \<and>
     cfg = \<lparr>cfg_addr = port_value env, cfg_dsn = mysql_dsn (getenv env),
            cfg_api_key = getenv env ''GOOGLE_API_KEY'',
            cfg_migrated = (migrate_steps env 2 = None), cfg_routes = routes\<rparr>"
  by (auto simp: main_def Let_def split: option.splits)

text \<open>C21. When \<^verbatim>\<open>migrate.NewWithDatabaseInstance\<close> fails (for instance, no
  \<^verbatim>\<open>migrations\<close> directory under \<^verbatim>\<open>$PWD\<close>), the process dies with a
  nil-pointer panic in \<^verbatim>\<open>m.Steps(2)\<close>: the \<^verbatim>\<open>log.Fatal\<close> of line 70
  that was meant to report the error is never reached.\<close>

theorem main_migrate_failure_panics:
  assumes "flag_fault env = None"
    and "sql_open env ''mysql'' (mysql_dsn (getenv env)) = None"
    and "db_ping env (mysql_dsn (getenv env)) = None"
    and "migrate_new env (migrations_url (getenv env)) ''mysql'' = Some e"
  shows "main env = Panic ''invalid memory address or nil pointer dereference''"
  using assms by (simp add: main_def Let_def)

section \<open>Witnesses\<close>

theorem main_serves_iff_witness:
  "main healthy_env =
     Serving \<lparr>cfg_addr = '':8080'', cfg_dsn = ''route:secret@tcp(db:3306)/routes?charset=utf8'',
              cfg_api_key = ''key'', cfg_migrated = False, cfg_routes = routes\<rparr>"
  using main_serves_iff [of healthy_env]
  by (simp add: healthy_env_def port_value_def default_port_def mysql_dsn_def
                migrations_url_def example_getenv_def)

theorem main_migrate_failure_panics_witness:
  "main (healthy_env\<lparr>migrate_new := (\<lambda>u _. if u = ''file:///app/migrations''
                                           then Some ''no such file or directory'' else None)\<rparr>) =
     Panic ''invalid memory address or nil pointer dereference''"
  by (rule main_migrate_failure_panics [where e = "''no such file or directory''"])
     (simp_all add: healthy_env_def migrations_url_def example_getenv_def)

end
