(* ===== verification/Reply.thy ===== *)
theory Reply
  imports Reporter
begin

text \<open>
  The HTTP replies of the two handlers of \<^verbatim>\<open>src/app/shortest_route.go\<close>, as
  the bytes a client receives. \<^verbatim>\<open>pathHandler\<close> answers an error through
  \<^verbatim>\<open>http.Error\<close> with a body built by string concatenation,
  \<^verbatim>\<open>"{\"error\":\"" + err.Error() + "\"}"\<close> (lines 89, 95, 125, 132, and the
  literal bodies of lines 101, 105, 111), and a token with the JSON encoding of
  \<^verbatim>\<open>responseToken\<close> (lines 117--122, 138--139); \<^verbatim>\<open>routeHandler\<close> answers
  the JSON encoding of \<^verbatim>\<open>shortestRoute\<close> (lines 248--255). The marshalling of
  these two structs cannot fail, so the error branches of lines 123--127 and 249--253
  are not branches of the model. Whether a reply is well-formed is judged by the
  RFC 8259 parser \<open>parse_json\<close>.
\<close>

section \<open>Replies\<close>

record http_reply =
  reply_code :: nat
  reply_ctype :: string
  reply_body :: string

text \<open>\<^verbatim>\<open>http.Error(w, error, code)\<close>: a plain-text reply of the message and a
  newline (\<^verbatim>\<open>fmt.Fprintln\<close>).\<close>

definition http_error :: "string \<Rightarrow> nat \<Rightarrow> http_reply" where
  "http_error msg code =
     \<lparr>reply_code = code, reply_ctype = ''text/plain; charset=utf-8'', reply_body = msg @ [CHR 0x0A]\<rparr>"

text \<open>The error body of lines 89--132: the message spliced between two constant
  pieces, without escaping.\<close>

definition error_json :: "string \<Rightarrow> string" where
  \<open>error_json m = ''{"error":"'' @ m @ ''"}''\<close>

definition json_reply :: "json \<Rightarrow> http_reply" where
  "json_reply v = \<lparr>reply_code = 200, reply_ctype = ''application/json'', reply_body = json_text v\<rparr>"

text \<open>Lines 86--139: the reply of \<^verbatim>\<open>pathHandler\<close> for its response.\<close>

fun intake_reply :: "intake_resp \<Rightarrow> http_reply" where
  "intake_reply (Intake_error m) = http_error (error_json m) 200"
| "intake_reply (Intake_token t) = json_reply (JObj [(''token'', JStr t)])"

text \<open>Lines 248--255: the reply of \<^verbatim>\<open>routeHandler\<close>.\<close>

definition poll_reply :: "shortest_route \<Rightarrow> http_reply" where
  "poll_reply r = json_reply (JObj (render_route r))"

section \<open>What a client expects\<close>

text \<open>A message that can stand inside a JSON string literal unescaped: no control
  character, quote or backslash, and valid UTF-8.\<close>

function utf8_valid :: "string \<Rightarrow> bool" where
  "utf8_valid [] = True"
| "utf8_valid (c # cs) =
     (utf8_width (c # cs) \<noteq> 0 \<and> utf8_valid (drop (utf8_width (c # cs) - 1) cs))"
  by pat_completeness auto
termination
  by (relation "measure length") auto

definition json_plain :: "string \<Rightarrow> bool" where
  "json_plain m \<longleftrightarrow>
     (\<forall>c \<in> set m. 0x20 \<le> byte c \<and> c \<noteq> CHR 0x22 \<and> c \<noteq> CHR 0x5C) \<and> utf8_valid m"

text \<open>The JSON document the specification's intake response stands for, and when
  the response's text can be carried as it is.\<close>

fun intake_json :: "intake_resp \<Rightarrow> json" where
  "intake_json (Intake_error m) = JObj [(''error'', JStr m)]"
| "intake_json (Intake_token t) = JObj [(''token'', JStr t)]"

fun intake_plain :: "intake_resp \<Rightarrow> bool" where
  "intake_plain (Intake_error m) = json_plain m"
| "intake_plain (Intake_token t) = utf8_valid t"

text \<open>The shape of the poll response of the specification (section 6): an object
  whose first member is the status, followed by some of the path (an array of
  string arrays), the two totals (integers of 64 bits) and the error text, in
  this order.\<close>

definition route_keys :: "string list" where
  "route_keys = [''status'', ''path'', ''total_distance'', ''total_time'', ''error'']"

fun field_ok :: "string \<times> json \<Rightarrow> bool" where
  "field_ok (k, JStr s) = (k = ''status'' \<or> k = ''error'')"
| "field_ok (k, JInt i) = ((k = ''total_distance'' \<or> k = ''total_time'') \<and> - (2 ^ 63) \<le> i \<and> i < 2 ^ 63)"
| "field_ok (k, JArr ps) =
     (k = ''path'' \<and> (\<forall>p \<in> set ps. case p of JArr cs \<Rightarrow> (\<forall>c \<in> set cs. \<exists>s. c = JStr s) | _ \<Rightarrow> False))"
| "field_ok _ = False"

definition route_schema :: "json \<Rightarrow> bool" where
  "route_schema v =
     (case v of
        JObj ms \<Rightarrow> ms \<noteq> [] \<and> fst (hd ms) = ''status'' \<and>
                   map fst ms = filter (\<lambda>k. k \<in> fst ` set ms) route_keys \<and> list_all field_ok ms
      | _ \<Rightarrow> False)"

section \<open>Concrete instances\<close>

text \<open>The message of \<^verbatim>\<open>json.Unmarshal\<close> for the body
  \<^verbatim>\<open>[["1","2"] "x"]\<close> (a missing comma): the scanner quotes the offending
  character, here a double quote.\<close>

definition missing_comma_body :: string where
  \<open>missing_comma_body = ''[["1","2"] "x"]''\<close>

definition missing_comma_error :: string where
  \<open>missing_comma_error = ''invalid character '' @ [CHR 0x27, CHR 0x22, CHR 0x27] @ '' after array element''\<close>

section \<open>Lemmas\<close>

lemma utf8_valid_sanitize: "utf8_valid s \<Longrightarrow> utf8_sanitize s = s"
proof (induction s rule: utf8_valid.induct)
  case 1
  then show ?case by simp
next
  case (2 c cs)
  then have w: "utf8_width (c # cs) \<noteq> 0" and v: "utf8_valid (drop (utf8_width (c # cs) - 1) cs)"
    by simp_all
  have "take (utf8_width (c # cs)) (c # cs) @ drop (utf8_width (c # cs) - 1) cs = c # cs"
    using w by (cases "utf8_width (c # cs)") simp_all
  moreover have "utf8_sanitize (drop (utf8_width (c # cs) - 1) cs) = drop (utf8_width (c # cs) - 1) cs"
    using "2.IH" w v by blast
  ultimately show ?case using w by (simp del: utf8_width.simps)
qed

lemma ascii_utf8_valid: "\<forall>c \<in> set s. byte c < 0x80 \<Longrightarrow> utf8_valid s"
  by (induction s) simp_all

lemma scan_plain:
  "json_plain m \<Longrightarrow> scan_str (m @ CHR 0x22 # rest) = Some (m, rest)"
proof (induction m rule: utf8_valid.induct)
  case 1
  then show ?case by simp
next
  case (2 c cs)
  define w where "w = utf8_width (c # cs)"
  have plain: "\<forall>x \<in> set (c # cs). 0x20 \<le> byte x \<and> x \<noteq> CHR 0x22 \<and> x \<noteq> CHR 0x5C"
    and w0: "w \<noteq> 0" and v: "utf8_valid (drop (w - 1) cs)"
    using "2.prems" by (simp_all add: json_plain_def w_def)
  have wl: "w \<le> Suc (length cs)" using utf8_width_le [of "c # cs"] by (simp add: w_def)
  have split: "c # cs @ CHR 0x22 # rest = take w (c # cs) @ (drop (w - 1) cs @ CHR 0x22 # rest)"
    using w0 wl by (cases w) simp_all
  have "utf8_width (take w (c # cs) @ (drop (w - 1) cs @ CHR 0x22 # rest)) = w"
    using utf8_width_take [of "c # cs" w "drop (w - 1) cs @ CHR 0x22 # rest"] w0
    by (simp add: w_def del: utf8_width.simps)
  then have ww: "utf8_width (c # (cs @ CHR 0x22 # rest)) = w"
    by (subst split)
  have t2: "take w (c # cs @ CHR 0x22 # rest) = take w (c # cs)"
    and d2: "drop w (c # cs @ CHR 0x22 # rest) = drop (w - 1) cs @ CHR 0x22 # rest"
    using split w0 wl by (simp_all add: split)
  have p2: "json_plain (drop (w - 1) cs)"
    using plain v by (auto simp: json_plain_def dest: in_set_dropD)
  have IH: "scan_str (drop (w - 1) cs @ CHR 0x22 # rest) = Some (drop (w - 1) cs, rest)"
    using "2.IH" p2 w0 "2.prems" by (simp add: w_def json_plain_def del: utf8_width.simps)
  have "take w (c # cs) @ drop (w - 1) cs = c # cs"
    using w0 by (cases w) (simp_all del: utf8_width.simps)
  with scan_str_raw [of c "cs @ CHR 0x22 # rest" w] plain ww w0 t2 d2 IH show ?case
    by (simp del: utf8_width.simps)
qed

lemma plain_error_key: "json_plain ''error''"
  by (simp add: json_plain_def byte_def)

lemma parse_error_json:
  assumes "json_plain m"
  shows "parse_json (error_json m @ [CHR 0x0A]) = Some (JObj [(''error'', JStr m)])"
proof -
  have k: "scan_str (CHR ''e'' # CHR ''r'' # CHR ''r'' # CHR ''o'' # CHR ''r'' #
             CHR 0x22 # CHR '':'' # CHR 0x22 # m @ [CHR 0x22, CHR ''}'', CHR 0x0A]) =
             Some (''error'', CHR '':'' # CHR 0x22 # m @ [CHR 0x22, CHR ''}'', CHR 0x0A])"
    using scan_plain [OF plain_error_key, of "CHR '':'' # CHR 0x22 # m @ [CHR 0x22, CHR ''}'', CHR 0x0A]"]
    by (simp del: scan_str.simps)
  have v: "scan_str (m @ [CHR 0x22, CHR ''}'', CHR 0x0A]) = Some (m, [CHR ''}'', CHR 0x0A])"
    by (rule scan_plain [OF assms])
  show ?thesis
    unfolding parse_json_def error_json_def
    apply (rule trans [OF run_next], simp add: json_ws_def value_step_def)
    apply (rule trans [OF run_next], simp add: json_ws_def key_step_def k del: scan_str.simps)
    apply (rule trans [OF run_next], simp add: json_ws_def)
    apply (rule trans [OF run_next], simp add: json_ws_def value_step_def str_step_def v del: scan_str.simps)
    apply (rule trans [OF run_next], simp add: json_ws_def after_step_def)
    apply (rule trans [OF run_next], simp add: json_ws_def)
    apply (rule run_done, simp)
    done
qed

lemma route_keys_ascii: "k \<in> set route_keys \<Longrightarrow> utf8_sanitize k = k"
  by (auto simp: route_keys_def byte_def intro!: utf8_valid_sanitize ascii_utf8_valid)

lemma int64_field:
  "- 9223372036854775808 \<le> sint (x :: int64)" "sint (x :: int64) < 9223372036854775808"
  using sint_greater_eq [of x] sint_less [of x] by simp_all

section \<open>Properties\<close>

text \<open>C24. Every reply of \<^verbatim>\<open>routeHandler\<close> is a well-formed JSON document of
  the shape of the specification's poll response: an object with the status first
  and then some of path, totals (64-bit integers) and error, in this order. The
  encoder escapes whatever the stored error text and the decoded path hold.\<close>

theorem poll_reply_schema:
  "\<exists>v. parse_json (reply_body (poll_reply r)) = Some v \<and> route_schema v"
proof -
  have nf: "num_free (JObj (render_route r))" by (auto simp: render_route_def)
  have keys: "utf8_sanitize ''status'' = ''status''" "utf8_sanitize ''path'' = ''path''"
    "utf8_sanitize ''total_distance'' = ''total_distance''" "utf8_sanitize ''total_time'' = ''total_time''"
    "utf8_sanitize ''error'' = ''error''"
    by (simp_all add: route_keys_ascii route_keys_def del: utf8_sanitize.simps)
  have "route_schema (sanitize_json (JObj (render_route r)))"
    by (simp add: render_route_def route_schema_def route_keys_def keys int64_field
             del: utf8_sanitize.simps)
  with parse_json_text [OF nf] show ?thesis by (auto simp: poll_reply_def json_reply_def)
qed

text \<open>C25. A reply of \<^verbatim>\<open>pathHandler\<close> is the JSON document of its response,
  \<^verbatim>\<open>{"error": message}\<close> or \<^verbatim>\<open>{"token": token}\<close>, provided the message
  holds no quote, backslash or control character and is valid UTF-8 (and the token
  is valid UTF-8): the error body is spliced, not encoded.\<close>

theorem intake_reply_json:
  assumes "intake_plain resp"
  shows "parse_json (reply_body (intake_reply resp)) = Some (intake_json resp)"
proof (cases resp)
  case (Intake_error m)
  with assms show ?thesis by (simp add: http_error_def parse_error_json)
next
  case (Intake_token t)
  have "parse_json (json_text (JObj [(''token'', JStr t)])) = Some (sanitize_json (JObj [(''token'', JStr t)]))"
    by (rule parse_json_text) simp
  moreover have "utf8_sanitize ''token'' = ''token''"
    by (auto simp: byte_def intro!: utf8_valid_sanitize ascii_utf8_valid)
  ultimately show ?thesis
    using assms Intake_token utf8_valid_sanitize [of t] by (simp add: json_reply_def del: utf8_sanitize.simps)
qed

text \<open>C26. When \<^verbatim>\<open>json.Unmarshal\<close> rejects a request body with a message
  that quotes a double quote, as it does for \<^verbatim>\<open>[["1","2"] "x"]\<close>, the error
  reply of \<^verbatim>\<open>pathHandler\<close> is not JSON at all: the message is spliced into the
  body unescaped and its quote ends the string literal early.\<close>

theorem pathHandler_decode_error_malformed:
  assumes "body_read env = Inr b" and "dec b = Inl missing_comma_error"
  shows "parse_json (reply_body (intake_reply (fst (pathHandler dec env s)))) = None"
  using assms
  by (simp add: pathHandler_def http_error_def error_json_def missing_comma_error_def parse_json_def
                run.simps json_ws_def value_step_def key_step_def str_step_def after_step_def byte_def)


section \<open>Witnesses\<close>

theorem poll_reply_schema_witness:
  "\<exists>v. parse_json (reply_body (poll_reply (routeHandler example_decoder ''t'' Map.empty))) = Some v \<and>
       route_schema v"
  by (rule poll_reply_schema)

theorem intake_reply_json_witness:
  \<open>parse_json (reply_body (intake_reply (fst (pathHandler example_decoder
      (request_env ''[["1","1"]]'' ''t'') Map.empty)))) =
   Some (JObj [(''error'', JStr ''Route start & dropoff required'')])\<close>
proof -
  have r: \<open>fst (pathHandler example_decoder (request_env ''[["1","1"]]'' ''t'') Map.empty) =
             Intake_error msg_start_dropoff\<close>
    by (simp add: pathHandler_def request_env_def example_decoder_eval)
  have p: "intake_plain (Intake_error msg_start_dropoff)"
    by (simp add: msg_start_dropoff_def json_plain_def byte_def ascii_utf8_valid)
  show ?thesis
    using intake_reply_json [OF p] unfolding r by (simp add: msg_start_dropoff_def)
qed

theorem pathHandler_decode_error_malformed_witness:
  "parse_json (reply_body (intake_reply (fst (pathHandler (\<lambda>_. Inl missing_comma_error)
      (request_env missing_comma_body ''t'') Map.empty)))) = None"
  by (rule pathHandler_decode_error_malformed) (simp_all add: request_env_def)

end
