(* ===== verification/Interleaving.thy ===== *)
theory Interleaving
  imports System
begin

text \<open>
  The goroutine \<^verbatim>\<open>processRoute\<close> at the granularity of its statements,
  interleaved with the handlers and with the other goroutines. A worker is started by
  \<^verbatim>\<open>pathHandler\<close>; it then prepares the update statement (line 149), calls the
  Distance Matrix service (lines 155--161) and, with the answer in hand, runs the loop
  and executes the update once (lines 162--191). Between any two of these, other
  requests, polls and workers may run. The refinement theorem shows that every state
  of this fine-grained system is, after forgetting the phases of the workers, a
  reachable state of the atomic system of \<open>System\<close>: the atomicity assumed there
  loses no behaviour, and its invariants hold in every interleaving.
\<close>

section \<open>Workers at statement granularity\<close>

text \<open>Where a goroutine is: before \<^verbatim>\<open>db.Prepare\<close>, after it, or after the
  service call with its answer.\<close>

datatype wphase = W_start | W_prepared | W_answered "string + dm_row list"

record fsys =
  fs_db :: store
  fs_workers :: "(token \<times> string list \<times> wphase) list"

text \<open>An event is an intake request, or one statement of the goroutine of a token
  with the environment's outcome for it: the error of \<^verbatim>\<open>db.Prepare\<close>, the
  service's answer, the error of \<^verbatim>\<open>stmt.Exec\<close>.\<close>

datatype fevent =
    F_submit intake_env
  | F_prepare token "string option"
  | F_call token "string + dm_row list"
  | F_exec token "string option"

definition finit :: fsys where
  "finit = \<lparr>fs_db = Map.empty, fs_workers = []\<rparr>"

definition worker_of :: "fsys \<Rightarrow> token \<Rightarrow> (string list \<times> wphase) option" where
  "worker_of s t = map_of (map (\<lambda>(t, pts, ph). (t, (pts, ph))) (fs_workers s)) t"

definition set_phase :: "token \<Rightarrow> wphase \<Rightarrow> fsys \<Rightarrow> fsys" where
  "set_phase t ph s =
     s\<lparr>fs_workers := map (\<lambda>(t', pts, ph'). if t' = t then (t', pts, ph) else (t', pts, ph')) (fs_workers s)\<rparr>"

definition drop_worker :: "token \<Rightarrow> fsys \<Rightarrow> fsys" where
  "drop_worker t s = s\<lparr>fs_workers := filter (\<lambda>w. fst w \<noteq> t) (fs_workers s)\<rparr>"

text \<open>The statements after the service call (lines 162--191), once its answer is
  known: \<^verbatim>\<open>db.Prepare\<close> has succeeded and the request was built, so they are
  those of \<open>processRoute\<close> for a service that gives this answer.\<close>

definition resume_worker ::
  "token \<Rightarrow> string list \<Rightarrow> string + dm_row list \<Rightarrow> string option \<Rightarrow> store \<Rightarrow> store \<times> worker_exit" where
  "resume_worker t pts ans ef s =
     processRoute \<lparr>prepare_fault = None, dm_service = (\<lambda>_. ans), exec_fault = ef\<rparr> t pts s"

fun fine_step :: "decoder \<Rightarrow> fsys \<Rightarrow> fevent \<Rightarrow> fsys" where
  "fine_step dec s (F_submit env) =
     (case pathHandler dec env (fs_db s) of
        (resp, db', w) \<Rightarrow>
          \<lparr>fs_db = db', fs_workers = fs_workers s @ map (\<lambda>(t, pts). (t, pts, W_start)) (spawned w)\<rparr>)"
| "fine_step dec s (F_prepare t pf) =
     (case worker_of s t of
        Some (pts, W_start) \<Rightarrow>
          (case pf of Some _ \<Rightarrow> drop_worker t s | None \<Rightarrow> set_phase t W_prepared s)
      | _ \<Rightarrow> s)"
| "fine_step dec s (F_call t ans) =
     (case worker_of s t of
        Some (pts, W_prepared) \<Rightarrow>
          (case build_request pts of
             None \<Rightarrow> s\<lparr>fs_workers := []\<rparr>
           | Some _ \<Rightarrow> set_phase t (W_answered ans) s)
      | _ \<Rightarrow> s)"
| "fine_step dec s (F_exec t ef) =
     (case worker_of s t of
        Some (pts, W_answered ans) \<Rightarrow>
          (case resume_worker t pts ans ef (fs_db s) of
             (db', ex) \<Rightarrow>
               if ex = Exit_panic then \<lparr>fs_db = db', fs_workers = []\<rparr>
               else drop_worker t (s\<lparr>fs_db := db'\<rparr>))
      | _ \<Rightarrow> s)"

definition fevent_ok :: "fevent \<Rightarrow> bool" where
  "fevent_ok e = (case e of F_submit env \<Rightarrow> length (new_token env) = 36 | _ \<Rightarrow> True)"

inductive freachable :: "decoder \<Rightarrow> fsys \<Rightarrow> bool" for dec where
  init: "freachable dec finit"
| step: "freachable dec s \<Longrightarrow> fevent_ok e \<Longrightarrow> freachable dec (fine_step dec s e)"

fun fine_run :: "decoder \<Rightarrow> fsys \<Rightarrow> fevent list \<Rightarrow> fsys" where
  "fine_run dec s [] = s"
| "fine_run dec s (e # es) = fine_run dec (fine_step dec s e) es"

text \<open>The abstraction: forget where each worker is.\<close>

definition abs_sys :: "fsys \<Rightarrow> sys" where
  "abs_sys s = \<lparr>sys_db = fs_db s, sys_workers = map (\<lambda>(t, pts, ph). (t, pts)) (fs_workers s)\<rparr>"

text \<open>A row as a poll may read it: pending with the inserted zero totals and empty
  error, a success with no error text, or a failure with zero totals (the three
  ways \<^verbatim>\<open>processRoute\<close> fills the columns in one \<^verbatim>\<open>UPDATE\<close>).\<close>

definition row_consistent :: "job_row \<Rightarrow> bool" where
  "row_consistent r \<longleftrightarrow>
     (row_status r = 0 \<and> row_total_distance r = 0 \<and> row_total_time r = 0 \<and> row_response_error r = []) \<or>
     (row_status r = 1 \<and> row_response_error r = []) \<or>
     (row_status r = -1 \<and> row_total_distance r = 0 \<and> row_total_time r = 0)"

text \<open>A run in which the worker of the example job is prepared and the service
  then fails with a transport error, while a second request is accepted between
  the service call and the update.\<close>

definition transport_failure_run :: "fevent list" where
  "transport_failure_run =
     [F_submit (request_env example_body example_token), F_prepare example_token None,
      F_call example_token (Inl ''timeout''), F_submit (request_env example_body example_token2),
      F_exec example_token None]"

section \<open>Simulation\<close>

lemma map_of_forget:
  "map_of (map (\<lambda>(t, pts, ph). (t, pts)) ws) t = map_option fst (map_of (map (\<lambda>(t, pts, ph). (t, (pts, ph))) ws) t)"
  by (induction ws) auto

lemma map_of_abs: "map_of (sys_workers (abs_sys s)) t = map_option fst (worker_of s t)"
  by (simp add: abs_sys_def worker_of_def map_of_forget)

lemma abs_set_phase [simp]: "abs_sys (set_phase t ph s) = abs_sys s"
  by (simp add: abs_sys_def set_phase_def comp_def case_prod_beta if_distrib)

lemma abs_drop_worker:
  "abs_sys (drop_worker t s) = (abs_sys s)\<lparr>sys_workers := filter (\<lambda>w. fst w \<noteq> t) (sys_workers (abs_sys s))\<rparr>"
  by (simp add: abs_sys_def drop_worker_def filter_map comp_def case_prod_beta)

lemma abs_finit [simp]: "abs_sys finit = init_sys"
  by (simp add: abs_sys_def finit_def init_sys_def)

lemma abs_sys_eqI:
  "fs_db s' = sys_db a \<Longrightarrow> map (\<lambda>(t, pts, ph). (t, pts)) (fs_workers s') = sys_workers a \<Longrightarrow> abs_sys s' = a"
  by (simp add: abs_sys_def)

text \<open>Each statement of a goroutine is either invisible in the atomic system (a
  stutter) or is the whole run of that goroutine there.\<close>

lemma sys_db_abs [simp]: "sys_db (abs_sys s) = fs_db s"
  by (simp add: abs_sys_def)

lemma sys_step_run_abs:
  assumes "worker_of s t = Some (pts, ph)"
  shows "sys_step dec (abs_sys s) (Run t env) =
           (case processRoute env t pts (fs_db s) of
              (db', ex) \<Rightarrow>
                if ex = Exit_panic then \<lparr>sys_db = db', sys_workers = []\<rparr>
                else \<lparr>sys_db = db', sys_workers = filter (\<lambda>w. fst w \<noteq> t) (sys_workers (abs_sys s))\<rparr>)"
proof -
  have "map_of (sys_workers (abs_sys s)) t = Some pts" using assms by (simp add: map_of_abs)
  then show ?thesis by simp
qed

lemma sim_run:
  assumes "abs_sys s' = sys_step dec a (Run t env)"
  shows "abs_sys s' = a \<or> (\<exists>e'. event_ok e' \<and> abs_sys s' = sys_step dec a e')"
proof -
  have "event_ok (Run t env)" by (simp add: event_ok_def)
  with assms show ?thesis by blast
qed

lemma fine_step_sim:
  assumes "fevent_ok e"
  shows "abs_sys (fine_step dec s e) = abs_sys s \<or>
         (\<exists>e'. event_ok e' \<and> abs_sys (fine_step dec s e) = sys_step dec (abs_sys s) e')"
proof (cases e)
  case (F_submit env)
  obtain resp db' w where ph: "pathHandler dec env (fs_db s) = (resp, db', w)"
    by (metis prod_cases3)
  have "abs_sys (fine_step dec s e) = sys_step dec (abs_sys s) (Submit env)"
    using ph by (simp add: F_submit abs_sys_def spawned_def split: option.splits)
  moreover have "event_ok (Submit env)" using assms F_submit by (simp add: fevent_ok_def event_ok_def)
  ultimately show ?thesis by blast
next
  case (F_prepare t pf)
  show ?thesis
  proof (cases "worker_of s t")
    case (Some x)
    obtain pts ph where x: "x = (pts, ph)" by fastforce
    show ?thesis
    proof (cases "ph = W_start \<and> pf \<noteq> None")
      case True
      let ?env = "\<lparr>prepare_fault = pf, dm_service = (\<lambda>_. Inl []), exec_fault = None\<rparr>"
      have "sys_step dec (abs_sys s) (Run t ?env) =
              (abs_sys s)\<lparr>sys_workers := filter (\<lambda>w. fst w \<noteq> t) (sys_workers (abs_sys s))\<rparr>"
        using True unfolding sys_step_run_abs [OF Some [unfolded x]]
        by (auto simp: processRoute_def abs_sys_def)
      moreover have "abs_sys (fine_step dec s e) =
              (abs_sys s)\<lparr>sys_workers := filter (\<lambda>w. fst w \<noteq> t) (sys_workers (abs_sys s))\<rparr>"
        using Some x True by (auto simp: F_prepare abs_drop_worker)
      ultimately have "abs_sys (fine_step dec s e) = sys_step dec (abs_sys s) (Run t ?env)"
        by (simp only:)
      then show ?thesis by (rule sim_run)
    next
      case False
      with Some x show ?thesis by (cases ph) (auto simp: F_prepare split: option.splits)
    qed
  qed (simp add: F_prepare)
next
  case (F_call t ans)
  show ?thesis
  proof (cases "worker_of s t")
    case (Some x)
    obtain pts ph where x: "x = (pts, ph)" by fastforce
    show ?thesis
    proof (cases "ph = W_prepared \<and> pts = []")
      case True
      let ?env = "\<lparr>prepare_fault = None, dm_service = (\<lambda>_. ans), exec_fault = None\<rparr>"
      have "sys_step dec (abs_sys s) (Run t ?env) = \<lparr>sys_db = fs_db s, sys_workers = []\<rparr>"
        using True unfolding sys_step_run_abs [OF Some [unfolded x]]
        by (simp add: processRoute_def build_request_def)
      moreover have "abs_sys (fine_step dec s e) = \<lparr>sys_db = fs_db s, sys_workers = []\<rparr>"
        using Some x True by (simp add: F_call build_request_def abs_sys_def)
      ultimately have "abs_sys (fine_step dec s e) = sys_step dec (abs_sys s) (Run t ?env)"
        by (simp only:)
      then show ?thesis by (rule sim_run)
    next
      case False
      with Some x show ?thesis by (cases ph) (auto simp: F_call build_request_def)
    qed
  qed (simp add: F_call)
next
  case (F_exec t ef)
  show ?thesis
  proof (cases "worker_of s t")
    case (Some x)
    obtain pts ph where x: "x = (pts, ph)" by fastforce
    show ?thesis
    proof (cases ph)
      case (W_answered ans)
      let ?env = "\<lparr>prepare_fault = None, dm_service = (\<lambda>_. ans), exec_fault = ef\<rparr>"
      obtain db' ex where pr: "processRoute ?env t pts (fs_db s) = (db', ex)"
        by (metis prod.exhaust)
      have "sys_step dec (abs_sys s) (Run t ?env) =
              (if ex = Exit_panic then \<lparr>sys_db = db', sys_workers = []\<rparr>
               else \<lparr>sys_db = db', sys_workers = filter (\<lambda>w. fst w \<noteq> t) (sys_workers (abs_sys s))\<rparr>)"
        using pr unfolding sys_step_run_abs [OF Some [unfolded x]] by simp
      moreover have "abs_sys (fine_step dec s e) =
              (if ex = Exit_panic then \<lparr>sys_db = db', sys_workers = []\<rparr>
               else \<lparr>sys_db = db', sys_workers = filter (\<lambda>w. fst w \<noteq> t) (sys_workers (abs_sys s))\<rparr>)"
        using Some x W_answered pr
        by (auto simp: F_exec resume_worker_def abs_drop_worker) (simp_all add: abs_sys_def)
      ultimately have "abs_sys (fine_step dec s e) = sys_step dec (abs_sys s) (Run t ?env)"
        by (simp only:)
      then show ?thesis by (rule sim_run)
    qed (use Some x in \<open>simp_all add: F_exec\<close>)
  qed (simp add: F_exec)
qed

lemma freachable_abs: "freachable dec s \<Longrightarrow> reachable dec (abs_sys s)"
proof (induction rule: freachable.induct)
  case init
  then show ?case by (simp add: reachable.init)
next
  case (step s e)
  from fine_step_sim [OF step.hyps(2), of dec s] step.IH show ?case
    by (auto intro: reachable.step)
qed

lemma freachable_fine_run:
  "freachable dec s \<Longrightarrow> list_all fevent_ok fes \<Longrightarrow> freachable dec (fine_run dec s fes)"
  by (induction fes arbitrary: s) (auto intro: freachable.step)

section \<open>Rows a poll can read\<close>

lemma processRoute_write:
  "fst (processRoute env t pts s) = s \<or>
   (\<exists>d tm. fst (processRoute env t pts s) = db_update 1 d tm [] t s) \<or>
   (\<exists>e. fst (processRoute env t pts s) = db_update (-1) 0 0 e t s)"
  by (auto simp: processRoute_def finish_def split: option.splits sum.splits loop_result.splits)

lemma row_consistent_new_row [simp]: "row_consistent (new_row p t 0)"
  by (simp add: row_consistent_def new_row_def)

lemma db_update_consistent:
  assumes "\<forall>t r. s t = Some r \<longrightarrow> row_consistent r"
    and "st = 1 \<and> e = [] \<or> st = -1 \<and> d = 0 \<and> tm = 0"
  shows "\<forall>t' r. db_update st d tm e t s t' = Some r \<longrightarrow> row_consistent r"
  using assms by (auto simp: db_update_def row_consistent_def split: option.splits)

lemma sys_step_consistent:
  assumes "\<forall>t r. sys_db s t = Some r \<longrightarrow> row_consistent r"
  shows "\<forall>t r. sys_db (sys_step dec s e) t = Some r \<longrightarrow> row_consistent r"
proof (cases e)
  case (Submit env)
  obtain resp db' w where ph: "pathHandler dec env (sys_db s) = (resp, db', w)"
    by (metis prod_cases3)
  then have "sys_db (sys_step dec s e) = db'" by (simp add: Submit)
  with pathHandler_cases [OF ph] assms show ?thesis by (auto split: if_splits)
next
  case (Run t env)
  show ?thesis
  proof (cases "map_of (sys_workers s) t")
    case (Some pts)
    obtain db' ex where pr: "processRoute env t pts (sys_db s) = (db', ex)"
      by (metis prod.exhaust)
    then have db: "sys_db (sys_step dec s e) = db'" by (simp add: Run Some)
    from processRoute_write [of env t pts "sys_db s"] pr
    consider "db' = sys_db s" | d tm where "db' = db_update 1 d tm [] t (sys_db s)"
      | er where "db' = db_update (-1) 0 0 er t (sys_db s)"
      by auto
    then show ?thesis
    proof cases
      case 1
      with assms db show ?thesis by simp
    next
      case (2 d tm)
      with db_update_consistent [OF assms, of 1 "[]" d tm t] db show ?thesis by simp
    next
      case (3 er)
      with db_update_consistent [OF assms, of "-1" er 0 0 t] db show ?thesis by simp
    qed
  qed (use assms Run in simp)
qed

lemma reachable_consistent:
  "reachable dec s \<Longrightarrow> \<forall>t r. sys_db s t = Some r \<longrightarrow> row_consistent r"
  by (induction rule: reachable.induct) (simp_all add: init_sys_def sys_step_consistent)

section \<open>Concrete interleaving\<close>

lemma transport_failure_run_result:
  "fine_run example_decoder finit transport_failure_run =
     \<lparr>fs_db = [example_token2 \<mapsto> new_row example_body example_token2 0,
               example_token \<mapsto> (new_row example_body example_token 0)\<lparr>row_status := -1,
                  row_total_distance := 0, row_total_time := 0, row_response_error := ''timeout''\<rparr>],
      fs_workers = [(example_token2, [''1,1'', ''2,2'', ''3,3''], W_start)]\<rparr>"
  by (simp add: transport_failure_run_def scenario_eval finit_def worker_of_def set_phase_def
      drop_worker_def resume_worker_def processRoute_def build_request_def finish_def
      db_update_def request_env_def)

section \<open>Properties of the interleaved system\<close>

text \<open>C27. Refinement: every interleaving of intake requests and single statements of
  the worker goroutines is, once the workers' phases are forgotten, a run of the
  atomic system of \<open>System\<close> (in which each worker runs all at once) from the
  corresponding state; the statements before the update are invisible there.\<close>

theorem fine_run_refines:
  "list_all fevent_ok fes \<Longrightarrow>
   \<exists>es. list_all event_ok es \<and> abs_sys (fine_run dec s fes) = run_events dec (abs_sys s) es"
proof (induction fes arbitrary: s)
  case Nil
  show ?case by (rule exI [of _ "[]"]) simp
next
  case (Cons e fes)
  then obtain es where es: "list_all event_ok es"
    and eq: "abs_sys (fine_run dec (fine_step dec s e) fes) = run_events dec (abs_sys (fine_step dec s e)) es"
    by auto
  have "fevent_ok e" using Cons.prems by simp
  from fine_step_sim [OF this, of dec s] show ?case
  proof (elim disjE exE conjE)
    assume "abs_sys (fine_step dec s e) = abs_sys s"
    with es eq show ?thesis by auto
  next
    fix e' assume "event_ok e'" "abs_sys (fine_step dec s e) = sys_step dec (abs_sys s) e'"
    with es eq show ?thesis by (intro exI [of _ "e' # es"]) simp
  qed
qed

text \<open>C28. In every interleaving, a row that a poll reads is consistent: still pending
  with zero totals and no error, a success with no error text, or a failure with
  zero totals. The worker writes the four columns in one \<^verbatim>\<open>UPDATE\<close>
  statement, so a poll between its statements never sees half of a result.\<close>

theorem freachable_rows_consistent:
  assumes "freachable dec s" and "fs_db s t = Some r"
  shows "row_consistent r"
  using reachable_consistent [OF freachable_abs [OF assms(1)]] assms(2) by simp

section \<open>Witnesses\<close>

lemma transport_failure_run_ok: "list_all fevent_ok transport_failure_run"
  by (simp add: transport_failure_run_def fevent_ok_def request_env_def example_token_def
      example_token2_def)

theorem fine_run_refines_witness:
  "\<exists>es. list_all event_ok es \<and>
     abs_sys (fine_run example_decoder finit transport_failure_run) = run_events example_decoder init_sys es"
  using fine_run_refines [OF transport_failure_run_ok, of example_decoder finit] by simp

theorem freachable_rows_consistent_witness:
  "row_consistent ((new_row example_body example_token 0)\<lparr>row_status := -1,
     row_total_distance := 0, row_total_time := 0, row_response_error := ''timeout''\<rparr>)"
proof -
  have r: "freachable example_decoder (fine_run example_decoder finit transport_failure_run)"
    by (rule freachable_fine_run [OF freachable.init transport_failure_run_ok])
  show ?thesis
    using freachable_rows_consistent [OF r, of example_token]
    unfolding transport_failure_run_result by simp
qed


end
