(* ===== verification/Decode.thy ===== *)
theory Decode
  imports Json Intake
begin

text \<open>
  \<^verbatim>\<open>json.Unmarshal\<close> into the handlers' type \<^verbatim>\<open>routePath\<close> (\<^verbatim>\<open>[][]string\<close>),
  as both \<^verbatim>\<open>pathHandler\<close> (line 92) and \<^verbatim>\<open>routeHandler\<close> (line 231) call it.
  The library first checks the whole text (the RFC 8259 parser \<open>parse_json\<close> of
  \<open>Json\<close>); a syntax error is reported with a message that depends on the text,
  which stays a parameter. A well-formed value is then stored into the Go value:
  an array into a slice, element by element; \<^verbatim>\<open>null\<close> into a slice or a string
  leaves the zero value (a nil slice, an empty string); any other kind is an
  \<^verbatim>\<open>UnmarshalTypeError\<close>, and decoding goes on, so the first such error in document
  order is the one returned. The theory also bounds the number of steps of the parser
  by the length of its input.
\<close>

section \<open>Decoding into Go values\<close>

text \<open>\<^verbatim>\<open>UnmarshalTypeError.Error()\<close> for a value outside a struct.\<close>

definition type_error :: "string \<Rightarrow> string \<Rightarrow> string" where
  "type_error what ty = ''json: cannot unmarshal '' @ what @ '' into Go value of type '' @ ty"

text \<open>The \<^verbatim>\<open>Value\<close> field of the error: the kind of the JSON value met.\<close>

fun json_kind :: "json \<Rightarrow> string" where
  "json_kind JNull = ''null''"
| "json_kind (JBool b) = ''bool''"
| "json_kind (JInt i) = ''number''"
| "json_kind (JNum n) = ''number''"
| "json_kind (JStr s) = ''string''"
| "json_kind (JArr vs) = ''array''"
| "json_kind (JObj ms) = ''object''"

text \<open>The elements of an array, left to right; the first error is kept.\<close>

fun decode_all :: "('a \<Rightarrow> string + 'b) \<Rightarrow> 'a list \<Rightarrow> string + 'b list" where
  "decode_all f [] = Inr []"
| "decode_all f (x # xs) =
     (case f x of
        Inl e \<Rightarrow> Inl e
      | Inr y \<Rightarrow> (case decode_all f xs of Inl e \<Rightarrow> Inl e | Inr ys \<Rightarrow> Inr (y # ys)))"

definition decode_string :: "json \<Rightarrow> string + string" where
  "decode_string v =
     (case v of
        JStr s \<Rightarrow> Inr s
      | JNull \<Rightarrow> Inr []
      | _ \<Rightarrow> Inl (type_error (json_kind v) ''string''))"

definition decode_point :: "json \<Rightarrow> string + string list" where
  "decode_point v =
     (case v of
        JArr vs \<Rightarrow> decode_all decode_string vs
      | JNull \<Rightarrow> Inr []
      | _ \<Rightarrow> Inl (type_error (json_kind v) ''[]string''))"

definition decode_route :: "json \<Rightarrow> string + route_path" where
  "decode_route v =
     (case v of
        JArr vs \<Rightarrow> decode_all decode_point vs
      | JNull \<Rightarrow> Inr []
      | _ \<Rightarrow> Inl (type_error (json_kind v) ''main.routePath''))"

text \<open>\<^verbatim>\<open>json.Unmarshal(data, &routePathArr)\<close>, with the message of a syntax
  error as a parameter. Go's scanner takes any byte from 0x20 up inside a string, and
  the decoder replaces each byte of an invalid UTF-8 sequence there by U+FFFD; so the
  parser, which asks for valid UTF-8, reads the text with those bytes replaced.
  Outside a string such a byte is a syntax error either way.\<close>

definition go_unmarshal :: "(string \<Rightarrow> string) \<Rightarrow> decoder" where
  "go_unmarshal syntax_error b =
     (case parse_json (utf8_sanitize b) of None \<Rightarrow> Inl (syntax_error b) | Some v \<Rightarrow> decode_route v)"

text \<open>A route as a client encodes it with \<^verbatim>\<open>json.Marshal\<close>, and the same
  coordinates sent as JSON numbers.\<close>

definition route_json :: "route_path \<Rightarrow> json" where
  "route_json arr = JArr (map (\<lambda>p. JArr (map JStr p)) arr)"

definition numeric_route_json :: "int list list \<Rightarrow> json" where
  "numeric_route_json arr = JArr (map (\<lambda>p. JArr (map JInt p)) arr)"

section \<open>The number of steps of the parser\<close>

text \<open>The steps \<open>run\<close> takes, with the same recursion.\<close>

function run_steps :: "pmode \<Rightarrow> frame list \<Rightarrow> string \<Rightarrow> nat" where
  "run_steps m fr s =
     (case step m fr s of
        P_next m' fr' s' \<Rightarrow> Suc (run_steps m' fr' s')
      | _ \<Rightarrow> 1)"
  by pat_completeness auto
termination
  by (relation "measure (\<lambda>(m, fr, s). length s)") (auto dest: step_length)

definition example_syntax_error :: "string \<Rightarrow> string" where
  "example_syntax_error b = ''invalid character''"

section \<open>Lemmas\<close>

lemma sanitize_Cons_ascii: "byte c < 0x80 \<Longrightarrow> utf8_sanitize (c # t) = c # utf8_sanitize t"
  by simp

lemma sanitize_ascii:
  "\<forall>c \<in> set a. byte c < 0x80 \<Longrightarrow> utf8_sanitize (a @ t) = a @ utf8_sanitize t"
  by (induction a) (simp_all del: utf8_sanitize.simps add: sanitize_Cons_ascii)

lemma sanitize_rune:
  assumes "utf8_width s = w" and "w \<noteq> 0"
  shows "utf8_sanitize (take w s @ t) = take w s @ utf8_sanitize t"
proof -
  have len: "length (take w s) = w" using assms(1) utf8_width_le [of s] by simp
  then obtain c cs where tk: "take w s = c # cs" using assms(2) by (cases "take w s") auto
  have wd: "utf8_width (c # cs @ t) = w" using utf8_width_take [OF assms] tk by simp
  have "length cs = w - 1" using len tk by simp
  then have t1: "take w (c # cs @ t) = c # cs" and t2: "drop (w - 1) (cs @ t) = t"
    using assms(2) by (cases w; simp)+
  show ?thesis
    using tk wd assms(2) t1 t2 by (simp del: utf8_width.simps)
qed

lemma byte_hex_digit: "k < 16 \<Longrightarrow> byte (hex_digit k) < 0x80"
proof -
  have "\<forall>k \<in> set [0..<16]. byte (hex_digit k) < 0x80"
    by (simp add: upt_rec hex_digit_def byte_def)
  then show "k < 16 \<Longrightarrow> byte (hex_digit k) < 0x80" by simp
qed

lemma esc_ascii_ascii: "\<forall>c' \<in> set (esc_ascii c). byte c' < 0x80"
proof -
  have lit: "byte (CHR 0x5C) < 0x80" "byte (CHR ''n'') < 0x80" "byte (CHR ''r'') < 0x80"
    "byte (CHR ''t'') < 0x80" "byte (CHR ''u'') < 0x80" "byte (CHR ''0'') < 0x80"
    "byte (CHR 0x22) < 0x80"
    by (simp_all add: byte_def)
  have "byte c div 16 < 16" using byte_less_256 [of c] by simp
  then have h: "byte (hex_digit (byte c div 16)) < 0x80" "byte (hex_digit (byte c mod 16)) < 0x80"
    by (simp_all add: byte_hex_digit)
  consider (safe) "html_safe c" | (quote) "\<not> html_safe c" "c = CHR 0x22 \<or> c = CHR 0x5C"
    | (other) "\<not> html_safe c" "\<not> (c = CHR 0x22 \<or> c = CHR 0x5C)"
    by blast
  then show ?thesis
  proof cases
    case safe
    then show ?thesis by (simp add: esc_ascii_def html_safe_def)
  next
    case quote
    then show ?thesis using lit by (auto simp: esc_ascii_def)
  next
    case other
    then show ?thesis using lit h by (simp add: esc_ascii_def)
  qed
qed

lemma sanitize_go_esc: "utf8_sanitize (go_esc s @ t) = go_esc s @ utf8_sanitize t"
proof (induction s arbitrary: t rule: go_esc.induct)
  case 1
  then show ?case by simp
next
  case (2 c cs)
  show ?case
  proof (cases "byte c < 0x80")
    case True
    then show ?thesis using "2.IH"(1) sanitize_ascii [OF esc_ascii_ascii [of c]]
      by (simp del: utf8_sanitize.simps utf8_width.simps)
  next
    case nb: False
    show ?thesis
    proof (cases "utf8_width (c # cs) = 0")
      case True
      with nb "2.IH"(2) show ?thesis
        by (simp del: utf8_sanitize.simps utf8_width.simps add: byte_def sanitize_Cons_ascii)
    next
      case w: False
      show ?thesis
      proof (cases "take 2 cs = [CHR 0x80, CHR 0xA8] \<and> c = CHR 0xE2")
        case True
        with nb w "2.IH"(3) show ?thesis
          by (simp del: utf8_sanitize.simps utf8_width.simps add: byte_def sanitize_Cons_ascii)
      next
        case n8: False
        show ?thesis
        proof (cases "take 2 cs = [CHR 0x80, CHR 0xA9] \<and> c = CHR 0xE2")
          case True
          with nb w n8 "2.IH"(4) show ?thesis
            by (simp del: utf8_sanitize.simps utf8_width.simps add: byte_def sanitize_Cons_ascii)
        next
          case n9: False
          have "go_esc (c # cs) = take (utf8_width (c # cs)) (c # cs) @ go_esc (drop (utf8_width (c # cs) - 1) cs)"
            using nb w n8 n9 by (simp only: go_esc.simps(2) if_not_P [OF nb] if_not_P [OF w] if_not_P [OF n8] if_not_P [OF n9] if_False)
          then show ?thesis
            using "2.IH"(5) [OF nb w n8 n9] sanitize_rune [OF refl w] by simp
        qed
      qed
    qed
  qed
qed

lemma sanitize_punct:
  "utf8_sanitize (CHR 0x22 # t) = CHR 0x22 # utf8_sanitize t"
  "utf8_sanitize (CHR '','' # t) = CHR '','' # utf8_sanitize t"
  "utf8_sanitize (CHR ''['' # t) = CHR ''['' # utf8_sanitize t"
  "utf8_sanitize (CHR '']'' # t) = CHR '']'' # utf8_sanitize t"
  "utf8_sanitize (CHR ''{'' # t) = CHR ''{'' # utf8_sanitize t"
  "utf8_sanitize (CHR ''}'' # t) = CHR ''}'' # utf8_sanitize t"
  "utf8_sanitize (CHR '':'' # t) = CHR '':'' # utf8_sanitize t"
  by (simp_all add: sanitize_Cons_ascii byte_def)

lemma sanitize_go_quote: "utf8_sanitize (go_quote s @ t) = go_quote s @ utf8_sanitize t"
  by (simp del: utf8_sanitize.simps add: go_quote_def sanitize_punct sanitize_go_esc [of s "CHR 0x22 # t", simplified])

lemma sanitize_strings_join:
  assumes "\<forall>x \<in> set xs. \<forall>t. utf8_sanitize (x @ t) = x @ utf8_sanitize t"
  shows "utf8_sanitize (strings_join xs '','' @ t) = strings_join xs '','' @ utf8_sanitize t"
  using assms
  by (induction xs arbitrary: t rule: induct_list012)
     (simp_all del: utf8_sanitize.simps add: sanitize_punct)

lemma int_text_ascii: "\<forall>c \<in> set (int_text i). byte c < 0x80"
proof -
  have "\<forall>c \<in> set (nat_text n). byte c < 0x80" for n
    using nat_text_digits [of n] by (auto simp: is_digit_def)
  then show ?thesis by (auto simp: int_text_def byte_def)
qed

lemma sanitize_json_text:
  "num_free v \<Longrightarrow> utf8_sanitize (json_text v @ t) = json_text v @ utf8_sanitize t"
proof (induction v arbitrary: t rule: json_text.induct)
  case 1
  show ?case by (rule sanitize_ascii) (simp add: byte_def)
next
  case (2 b)
  show ?case by (rule sanitize_ascii) (simp add: byte_def)
next
  case (3 i)
  show ?case using sanitize_ascii [OF int_text_ascii [of i]] by simp
next
  case (4 n)
  then show ?case by simp
next
  case (5 s)
  show ?case using sanitize_go_quote by simp
next
  case (6 vs)
  then have "\<forall>x \<in> set (map json_text vs). \<forall>t. utf8_sanitize (x @ t) = x @ utf8_sanitize t"
    by auto
  from sanitize_strings_join [OF this] show ?case
    by (simp del: utf8_sanitize.simps add: sanitize_punct)
next
  case (7 ms)
  then have "\<forall>x \<in> set (map (\<lambda>(k, v). go_quote k @ CHR '':'' # json_text v) ms).
               \<forall>t. utf8_sanitize (x @ t) = x @ utf8_sanitize t"
    by (auto simp del: utf8_sanitize.simps simp: sanitize_go_quote [of _ "CHR '':'' # _", simplified] sanitize_punct)
  from sanitize_strings_join [OF this] show ?case
    by (simp del: utf8_sanitize.simps add: sanitize_punct)
qed

lemma parse_json_sanitized:
  assumes "num_free v"
  shows "parse_json (utf8_sanitize (json_text v)) = Some (sanitize_json v)"
  using sanitize_json_text [OF assms, of "[]"] parse_json_text [OF assms] by simp

lemma decode_strings: "decode_all decode_string (map JStr p) = Inr p"
  by (induction p) (simp_all add: decode_string_def)

lemma decode_points: "decode_all decode_point (map (\<lambda>p. JArr (map JStr p)) arr) = Inr arr"
  by (induction arr) (simp_all add: decode_point_def decode_strings)

lemma decode_all_first_error:
  assumes "\<forall>x \<in> set xs. f x = Inr (g x) \<or> f x = Inl e" and "\<exists>x \<in> set xs. f x = Inl e"
  shows "decode_all f xs = Inl e"
  using assms
proof (induction xs)
  case Nil
  then show ?case by simp
next
  case (Cons a xs)
  show ?case
  proof (cases "f a = Inl e")
    case True
    then show ?thesis by simp
  next
    case False
    with Cons.prems have fa: "f a = Inr (g a)" and ex: "\<exists>x \<in> set xs. f x = Inl e" by auto
    with Cons.IH Cons.prems have "decode_all f xs = Inl e" by simp
    with fa show ?thesis by simp
  qed
qed

lemma decode_route_json: "decode_route (route_json arr) = Inr arr"
  by (simp add: decode_route_def route_json_def decode_points)

lemma sanitize_route_json: "sanitize_json (route_json arr) = route_json (map (map utf8_sanitize) arr)"
  by (simp add: route_json_def)

lemma num_free_route_json [simp]: "num_free (route_json arr)"
  by (simp add: route_json_def)

lemma decode_numeric_point:
  "decode_point (JArr (map JInt p)) = (if p = [] then Inr [] else Inl (type_error ''number'' ''string''))"
  by (cases p) (simp_all add: decode_point_def decode_string_def)

lemma num_free_numeric_route [simp]: "num_free (numeric_route_json arr)"
  by (simp add: numeric_route_json_def)

lemma sanitize_numeric_route [simp]: "sanitize_json (numeric_route_json arr) = numeric_route_json arr"
  by (simp add: numeric_route_json_def)

lemma run_steps_le: "run_steps m fr s \<le> Suc (length s)"
proof (induction m fr s rule: run_steps.induct)
  case (1 m fr s)
  show ?case
  proof (cases "step m fr s")
    case (P_next m' fr' s')
    with "1.IH" have "run_steps m' fr' s' \<le> Suc (length s')" by simp
    moreover from P_next have "length s' < length s" by (rule step_length)
    ultimately show ?thesis using P_next by simp
  qed simp_all
qed

lemma spec_example_text:
  "json_text (numeric_route_json [[1, 1], [2, 2], [3, 3]]) = ''[[1,1],[2,2],[3,3]]''"
  by (simp add: numeric_route_json_def int_text_def nat_text.simps hex_digit_def)

section \<open>Properties of the decoder\<close>

text \<open>Round trip: a route encoded by Go's encoder (\<^verbatim>\<open>json.Marshal\<close> of a
  \<^verbatim>\<open>[][]string\<close>) is decoded by \<^verbatim>\<open>json.Unmarshal\<close> into the same route, each
  string with its invalid UTF-8 bytes replaced by U+FFFD (the identity on valid
  UTF-8).\<close>

theorem go_unmarshal_route_json:
  "go_unmarshal se (json_text (route_json arr)) = Inr (map (map utf8_sanitize) arr)"
  by (simp add: go_unmarshal_def parse_json_sanitized sanitize_route_json decode_route_json)

text \<open>C29. Coordinates sent as JSON numbers, as in the specification's example
  \<^verbatim>\<open>[[1,1],[2,2],[3,3]]\<close>, are rejected: the first number is stored into a
  \<^verbatim>\<open>string\<close>, and \<^verbatim>\<open>json.Unmarshal\<close> fails with the type error, which
  \<^verbatim>\<open>pathHandler\<close> returns as its error.\<close>

theorem go_unmarshal_numeric_route:
  assumes "\<exists>p \<in> set arr. p \<noteq> []"
  shows "go_unmarshal se (json_text (numeric_route_json arr)) = Inl (type_error ''number'' ''string'')"
proof -
  have "decode_all decode_point (map (\<lambda>p. JArr (map JInt p)) arr) = Inl (type_error ''number'' ''string'')"
    by (rule decode_all_first_error [where g = "\<lambda>_. []"]) (use assms in \<open>auto simp: decode_numeric_point\<close>)
  moreover have "parse_json (utf8_sanitize (json_text (numeric_route_json arr))) = Some (numeric_route_json arr)"
    using parse_json_sanitized [of "numeric_route_json arr"] by simp
  ultimately show ?thesis
    unfolding go_unmarshal_def by (simp add: decode_route_def numeric_route_json_def)
qed

text \<open>The decoder's loop ends in linear time: \<open>run\<close> takes at most one step more
  than there are characters in its input, from any state of the parser.\<close>

theorem run_steps_bound: "run_steps m fr s \<le> length s + 1"
  using run_steps_le [of m fr s] by simp

section \<open>Witnesses\<close>

theorem go_unmarshal_numeric_route_witness:
  "go_unmarshal example_syntax_error ''[[1,1],[2,2],[3,3]]'' =
     Inl ''json: cannot unmarshal number into Go value of type string''"
  using go_unmarshal_numeric_route [of "[[1, 1], [2, 2], [3, 3]]" example_syntax_error]
  unfolding spec_example_text by (simp add: type_error_def)

end
