(* ===== verification/Logging.thy ===== *)
theory Logging
  imports Worker Reporter
begin

text \<open>
  The log of the worker goroutine. \<^verbatim>\<open>processRoute\<close> (lines 143--192) writes a
  line with \<^verbatim>\<open>log.Printf\<close> when it starts, before each return on an error, and
  when it ends. \<open>processRoute_log\<close> is \<open>processRoute\<close> with the lines it logs, in
  order (the message of each, without the date the logger adds; \<^verbatim>\<open>%s\<close> and
  \<^verbatim>\<open>%+v\<close> of an error are its text, of a nil error \<^verbatim>\<open><nil>\<close>). Its state part
  is \<open>processRoute\<close>; the log shows two places where the code reports what did not
  happen. The two handlers' lines are modelled the same way (\<open>pathHandler_log\<close>,
  \<open>routeHandler_log\<close>).
\<close>

section \<open>The worker with its log\<close>

text \<open>The line logged after a \<^verbatim>\<open>stmt.Exec\<close> that failed, in the format of its
  call site.\<close>

definition exec_log :: "worker_env \<Rightarrow> (string \<Rightarrow> string) \<Rightarrow> string list" where
  "exec_log env msg = (case exec_fault env of Some e \<Rightarrow> [msg e] | None \<Rightarrow> [])"

definition processRoute_log ::
  "worker_env \<Rightarrow> token \<Rightarrow> string list \<Rightarrow> store \<Rightarrow> (store \<times> worker_exit) \<times> string list" where
  "processRoute_log env t pts s =
     (let start = [''In process: '' @ t] in
      case prepare_fault env of
        Some e \<Rightarrow> ((s, Exit_no_statement), start @ [''Error while updating token row: '' @ e])
      | None \<Rightarrow>
          (case build_request pts of
             None \<Rightarrow> ((s, Exit_panic), start)
           | Some req \<Rightarrow>
               (case dm_service env req of
                  Inl err \<Rightarrow>
                    ((finish env (-1) 0 0 err t s, Exit_failed),
                     start @ [''Distance Matrix Error: '' @ t @ '': '' @ err] @
                     exec_log env (\<lambda>e. ''Error while updating token row: '' @ t @ '': '' @ e))
                | Inr rows \<Rightarrow>
                    (case sum_rows 0 rows 0 0 of
                       Loop_failed st \<Rightarrow>
                         ((finish env (-1) 0 0 st t s, Exit_failed),
                          start @ [''Distance Matrix Error: '' @ t @ '': <nil>''] @
                          exec_log env (\<lambda>e. ''Error while updating row: '' @ t @ '': '' @ e))
                     | Loop_panic \<Rightarrow> ((s, Exit_panic), start)
                     | Loop_done d tm \<Rightarrow>
                         ((finish env 1 d tm [] t s, Exit_completed),
                          start @ exec_log env (\<lambda>e. ''Error while updating token row: '' @ e) @
                          [''Process completed: '' @ t])))))"

section \<open>The handlers with their log\<close>

text \<open>\<^verbatim>\<open>pathHandler\<close> (lines 82--141): one line before each error reply,
  none on success.\<close>

definition pathHandler_log ::
  "decoder \<Rightarrow> intake_env \<Rightarrow> store \<Rightarrow> (intake_resp \<times> store \<times> (token \<times> string list) option) \<times> string list" where
  "pathHandler_log dec env s =
     (case body_read env of
        Inl err \<Rightarrow> ((Intake_error err, s, None), [''Error while reading r.Body: '' @ err])
      | Inr body \<Rightarrow>
          (case dec body of
             Inl err \<Rightarrow> ((Intake_error err, s, None), [''Decoding error: '' @ err])
           | Inr arr \<Rightarrow>
               if length arr < 2 then
                 ((Intake_error msg_start_dropoff, s, None), [''Route start & dropoff required''])
               else if length arr > 26 then
                 ((Intake_error msg_max_dropoff, s, None),
                  [''Max dropoff location is 25 (the limit can increased as required)''])
               else
                 (case check_points arr of
                    Inl err \<Rightarrow> ((Intake_error err, s, None), [''Incorrect latitude longitude''])
                  | Inr pts \<Rightarrow>
                      (let tok = new_token env in
                       case insert_fault env of
                         Some err \<Rightarrow>
                           ((Intake_error err, s, None), [''Error while inserting token row: '' @ err])
                       | None \<Rightarrow>
                           (case db_insert body tok 0 s of
                              Inl e \<Rightarrow>
                                ((Intake_error (db_error_text e), s, None),
                                 [''Error while inserting token row: '' @ db_error_text e])
                            | Inr s' \<Rightarrow> ((Intake_token tok, s', Some (tok, pts)), []))))))"

text \<open>\<^verbatim>\<open>routeHandler\<close> (lines 194--246): the empty token, the token received,
  a failed select and a path that does not decode.\<close>

definition routeHandler_log :: "decoder \<Rightarrow> token \<Rightarrow> store \<Rightarrow> shortest_route \<times> string list" where
  "routeHandler_log dec tok s =
     (let l0 = (if tok = [] then [''Token empty''] else []) @ [''token received: '' @ tok];
          r0 = (if tok = [] then invalid_token_route else zero_route);
          (r1, pathJson, status, td, tt, err, l1) =
            (case db_select tok s of
               Inl e \<Rightarrow> (invalid_token_route, [], 0, 0, 0, [], l0 @ [''No row found: '' @ db_error_text e])
             | Inr row \<Rightarrow> (r0, row_path row, row_status row, row_total_distance row,
                          row_total_time row, row_response_error row, l0))
      in if status = 0 then (in_progress_route, l1)
         else if status = -1 then (failure_route err, l1)
         else if status = 1 then
           (case dec pathJson of
              Inl e \<Rightarrow> (failure_route e, l1 @ [''Decoding error: '' @ e])
            | Inr arr \<Rightarrow> (success_route arr td tt, l1))
         else (r1, l1))"

section \<open>Logging changes nothing else\<close>

lemma pathHandler_log_state: "fst (pathHandler_log dec env s) = pathHandler dec env s"
  by (simp add: pathHandler_log_def pathHandler_def Let_def
           split: sum.split option.split if_split)

lemma routeHandler_log_state: "fst (routeHandler_log dec tok s) = routeHandler dec tok s"
  by (simp add: routeHandler_log_def routeHandler_def routeHandler_sel_def Let_def
           split: sum.split prod.split)

section \<open>Properties of the log\<close>

text \<open>Equivalence: the worker with its log changes the store and ends exactly
  as \<open>processRoute\<close> does; logging has no other effect.\<close>

theorem processRoute_log_state: "fst (processRoute_log env t pts s) = processRoute env t pts s"
  by (simp add: processRoute_log_def processRoute_def Let_def
           split: option.split sum.split loop_result.split)

text \<open>C30. When an element of the answer is not \<^verbatim>\<open>OK\<close>, line 178 logs the
  variable \<^verbatim>\<open>err\<close>, which is nil there (the service call succeeded): the log
  reads \<^verbatim>\<open><nil>\<close> and never names the status that failed the job, although the
  row records it.\<close>

theorem processRoute_log_element_failure:
  assumes "prepare_fault env = None" and "exec_fault env = None" and "pts \<noteq> []"
    and "dm_service env (request_of pts) = Inr rows" and "sum_rows 0 rows 0 0 = Loop_failed st"
  shows "processRoute_log env t pts s =
           ((db_update (-1) 0 0 st t s, Exit_failed),
            [''In process: '' @ t, ''Distance Matrix Error: '' @ t @ '': <nil>''])"
  using assms by (simp add: processRoute_log_def build_request_def finish_def exec_log_def)

text \<open>C31. When the final \<^verbatim>\<open>stmt.Exec\<close> fails, the worker logs the error and then
  \<^verbatim>\<open>Process completed\<close> (line 191) although the row was not written and the
  job stays pending.\<close>

theorem processRoute_log_completed_unwritten:
  assumes "prepare_fault env = None" and "exec_fault env = Some e" and "pts \<noteq> []"
    and "dm_service env (request_of pts) = Inr rows" and "sum_rows 0 rows 0 0 = Loop_done d tm"
  shows "processRoute_log env t pts s =
           ((s, Exit_completed),
            [''In process: '' @ t, ''Error while updating token row: '' @ e, ''Process completed: '' @ t])"
  using assms by (simp add: processRoute_log_def build_request_def finish_def exec_log_def)

text \<open>The intake logs exactly one line for each request it rejects, whatever
  the reason (read, decode, validation or insert failure), and none for a request it
  accepts.\<close>

theorem pathHandler_log_one_per_error:
  "length (snd (pathHandler_log dec env s)) =
     (case fst (pathHandler dec env s) of Intake_error e \<Rightarrow> 1 | Intake_token t \<Rightarrow> 0)"
  by (simp add: pathHandler_log_def pathHandler_def Let_def
           split: sum.split option.split if_split)

section \<open>Witnesses\<close>

theorem processRoute_log_element_failure_witness:
  "processRoute_log (contract_env (example_answer ''ZERO_RESULTS'')) ''t'' example_points Map.empty =
     ((Map.empty, Exit_failed), [''In process: t'', ''Distance Matrix Error: t: <nil>''])"
proof -
  have "sum_rows 0 (dm_matrix (example_answer ''ZERO_RESULTS'') (request_of example_points)) 0 0 =
          Loop_failed ''ZERO_RESULTS''"
    unfolding sum_rows_request by (simp add: example_eval example_points_def example_answer_def)
  from processRoute_log_element_failure [OF _ _ _ _ this, where t = "''t''" and s = Map.empty]
  show ?thesis by (simp add: contract_env_def answers_by_def example_points_def db_update_def)
qed

theorem processRoute_log_completed_unwritten_witness:
  "processRoute_log ((contract_env (example_answer ''OK''))\<lparr>exec_fault := Some ''bad connection''\<rparr>)
      ''t'' example_points Map.empty =
     ((Map.empty, Exit_completed),
      [''In process: t'', ''Error while updating token row: bad connection'', ''Process completed: t''])"
proof -
  have "sum_rows 0 (dm_matrix (example_answer ''OK'') (request_of example_points)) 0 0 =
          Loop_done 3000 180"
    unfolding sum_rows_request
    by (simp add: example_eval example_points_def example_answer_def go_div64_def go_second_def)
  from processRoute_log_completed_unwritten [OF _ _ _ _ this, where
      env = "(contract_env (example_answer ''OK''))\<lparr>exec_fault := Some ''bad connection''\<rparr>"
      and e = "''bad connection''" and t = "''t''" and s = Map.empty]
  show ?thesis by (simp add: contract_env_def example_points_def)
qed

end
