(* ===== verification/MapsClient.thy ===== *)
theory MapsClient
  imports Interleaving Startup
begin

text \<open>
  The Distance Matrix client of \<^verbatim>\<open>processRoute\<close> and the API key it is built
  with. Line 25 reads \<^verbatim>\<open>GOOGLE_API_KEY\<close> once, at package initialisation;
  line 154 builds a client with \<^verbatim>\<open>maps.NewClient(maps.WithAPIKey(apiKey))\<close> and
  drops its error; line 161 calls \<^verbatim>\<open>c.DistanceMatrix\<close>. The library (not under
  \<^verbatim>\<open>src/\<close>, modelled from its documented behaviour) refuses an empty key with a
  \<open>nil\<close> client; \<^verbatim>\<open>DistanceMatrix\<close> first checks that origins and destinations
  are not empty, then sends the request through the client (a method call on a
  \<open>nil\<close> client dereferences it: a run-time panic) and turns a top-level status
  other than \<^verbatim>\<open>OK\<close> into an error. The service itself stays a function of the
  key and the request. Composed with \<open>main\<close>, which never looks at the key, this
  shows that a service started without a key accepts jobs whose workers crash it.
\<close>

section \<open>The client\<close>

record maps_client =
  client_key :: string

text \<open>\<^verbatim>\<open>maps.NewClient(maps.WithAPIKey(key))\<close>: the error, or the client.\<close>

definition new_client :: "string \<Rightarrow> string + maps_client" where
  "new_client key =
     (if key = [] then Inl ''maps: API Key or Maps for Work credentials missing''
      else Inr \<lparr>client_key = key\<rparr>)"

text \<open>\<^verbatim>\<open>c, _ := maps.NewClient(...)\<close> (line 154): \<open>nil\<close> on an error.\<close>

definition client_of :: "string \<Rightarrow> maps_client option" where
  "client_of key = (case new_client key of Inl _ \<Rightarrow> None | Inr c \<Rightarrow> Some c)"

text \<open>What the service sends back for a key and a request: a transport error, or
  the answer with its top-level \<^verbatim>\<open>status\<close>, \<^verbatim>\<open>error_message\<close> and rows.\<close>

datatype dm_answer = DM_transport string | DM_answer string string "dm_row list"

datatype call_outcome = Call_panic | Call_result "string + dm_row list"

text \<open>\<^verbatim>\<open>(*Client).DistanceMatrix\<close>: the request checks, the call through the
  client, and \<^verbatim>\<open>StatusError\<close>.\<close>

definition distance_matrix ::
  "maps_client option \<Rightarrow> (string \<Rightarrow> dm_request \<Rightarrow> dm_answer) \<Rightarrow> dm_request \<Rightarrow> call_outcome" where
  "distance_matrix c svc req =
     (if dm_origins req = [] then Call_result (Inl ''maps: origins empty'')
      else if dm_destinations req = [] then Call_result (Inl ''maps: destinations empty'')
      else
        (case c of
           None \<Rightarrow> Call_panic
         | Some cl \<Rightarrow>
             Call_result
               (case svc (client_key cl) req of
                  DM_transport e \<Rightarrow> Inl e
                | DM_answer st msg rows \<Rightarrow>
                    if st = ''OK'' then Inr rows else Inl (''maps: '' @ st @ '' - '' @ msg))))"

text \<open>Lines 143--192 with the client of line 154: \<^verbatim>\<open>db.Prepare\<close>, the request of
  lines 155--160, the call of line 161, and then the statements after the call
  (\<open>resume_worker\<close> of \<open>Interleaving\<close>).\<close>

definition processRoute_client ::
  "string \<Rightarrow> (string \<Rightarrow> dm_request \<Rightarrow> dm_answer) \<Rightarrow> string option \<Rightarrow> string option \<Rightarrow>
   token \<Rightarrow> string list \<Rightarrow> store \<Rightarrow> store \<times> worker_exit" where
  "processRoute_client key svc pf ef t pts s =
     (case pf of
        Some _ \<Rightarrow> (s, Exit_no_statement)
      | None \<Rightarrow>
          (case build_request pts of
             None \<Rightarrow> (s, Exit_panic)
           | Some req \<Rightarrow>
               (case distance_matrix (client_of key) svc req of
                  Call_panic \<Rightarrow> (s, Exit_panic)
                | Call_result ans \<Rightarrow> resume_worker t pts ans ef s)))"

text \<open>The service as \<open>processRoute\<close>'s environment sees it through a client that
  exists.\<close>

definition client_service ::
  "string \<Rightarrow> (string \<Rightarrow> dm_request \<Rightarrow> dm_answer) \<Rightarrow> dm_request \<Rightarrow> string + dm_row list" where
  "client_service key svc req =
     (case distance_matrix (client_of key) svc req of Call_result a \<Rightarrow> a | Call_panic \<Rightarrow> Inl [])"

section \<open>Concrete instances\<close>

text \<open>A service answering with the specification's example answers, and the
  start-up environment of \<open>Startup\<close> without the key.\<close>

definition example_service :: "string \<Rightarrow> dm_request \<Rightarrow> dm_answer" where
  "example_service key req = DM_answer ''OK'' [] (dm_matrix (example_answer ''OK'') req)"

definition nokey_env :: startup_env where
  "nokey_env = healthy_env\<lparr>getenv := (\<lambda>v. if v = ''GOOGLE_API_KEY'' then [] else example_getenv v)\<rparr>"

section \<open>Lemmas\<close>

lemma client_of_Some: "key \<noteq> [] \<Longrightarrow> client_of key = Some \<lparr>client_key = key\<rparr>"
  by (simp add: client_of_def new_client_def)

lemma client_of_None: "client_of [] = None"
  by (simp add: client_of_def new_client_def)

lemma request_of_nonempty:
  "2 \<le> length pts \<Longrightarrow> dm_origins (request_of pts) \<noteq> [] \<and> dm_destinations (request_of pts) \<noteq> []"
  by (cases pts rule: list.exhaust; cases "tl pts") (auto simp: request_of_def)

lemma main_api_key: "main env = Serving cfg \<Longrightarrow> cfg_api_key cfg = getenv env ''GOOGLE_API_KEY''"
  by (auto simp: main_def Let_def split: option.splits)

lemma resume_as_processRoute:
  assumes "prepare_fault env = None" and "build_request pts = Some req" and "dm_service env req = ans"
  shows "resume_worker t pts ans (exec_fault env) s = processRoute env t pts s"
  using assms by (simp add: resume_worker_def processRoute_def finish_def split: sum.split loop_result.split)

lemma distance_matrix_client:
  "key \<noteq> [] \<Longrightarrow> distance_matrix (client_of key) svc req = Call_result (client_service key svc req)"
  by (simp add: client_service_def distance_matrix_def client_of_Some)

text \<open>With a key, the worker is \<open>processRoute\<close> with the service behind the client.\<close>

lemma processRoute_client_key:
  assumes "key \<noteq> []"
  shows "processRoute_client key svc pf ef t pts s =
           processRoute \<lparr>prepare_fault = pf, dm_service = client_service key svc, exec_fault = ef\<rparr> t pts s"
proof (cases pf)
  case None
  show ?thesis
  proof (cases "build_request pts")
    case (Some req)
    with None resume_as_processRoute [of "\<lparr>prepare_fault = pf, dm_service = client_service key svc, exec_fault = ef\<rparr>"]
    show ?thesis by (simp add: processRoute_client_def distance_matrix_client [OF assms])
  qed (simp_all add: None processRoute_client_def processRoute_def)
qed (simp add: processRoute_client_def processRoute_def)

text \<open>A service that answers \<^verbatim>\<open>OK\<close> with the full matrix honours the contract of
  \<open>Worker\<close> through the client.\<close>

lemma client_service_contract:
  assumes "key \<noteq> []" and "2 \<le> length pts"
  shows "answers_by \<lparr>prepare_fault = pf, dm_service = client_service key (\<lambda>k req. DM_answer ''OK'' m (dm_matrix f req)),
            exec_fault = ef\<rparr> f (request_of pts)"
  using assms request_of_nonempty [OF assms(2)]
  by (simp add: answers_by_def client_service_def distance_matrix_def client_of_Some)

section \<open>Starting without a key\<close>

text \<open>C32. Composition of \<^verbatim>\<open>main\<close> with the worker: \<^verbatim>\<open>main\<close> never checks
  the API key, so it serves with \<^verbatim>\<open>GOOGLE_API_KEY\<close> unset; then every worker
  whose \<^verbatim>\<open>db.Prepare\<close> succeeds, for an accepted route, calls
  \<^verbatim>\<open>DistanceMatrix\<close> on the \<open>nil\<close> client of line 154 and panics, ending the
  process with the store unchanged.\<close>

theorem missing_api_key_crashes_worker:
  assumes "main env = Serving cfg" and "getenv env ''GOOGLE_API_KEY'' = []" and "2 \<le> length pts"
  shows "processRoute_client (cfg_api_key cfg) svc None ef t pts s = (s, Exit_panic)"
proof -
  have key: "cfg_api_key cfg = []" using main_api_key [OF assms(1)] assms(2) by simp
  have "pts \<noteq> []" using assms(3) by auto
  then show ?thesis
    using request_of_nonempty [OF assms(3)]
    by (simp add: key processRoute_client_def build_request_def distance_matrix_def client_of_None)
qed


section \<open>Witnesses\<close>

lemma main_nokey:
  "main nokey_env =
     Serving \<lparr>cfg_addr = '':8080'', cfg_dsn = mysql_dsn (getenv nokey_env), cfg_api_key = [],
              cfg_migrated = False, cfg_routes = routes\<rparr>"
  by (simp add: main_def nokey_env_def healthy_env_def port_value_def default_port_def Let_def)

theorem missing_api_key_crashes_worker_witness:
  "\<exists>cfg. main nokey_env = Serving cfg \<and>
     processRoute_client (cfg_api_key cfg) example_service None None ''t'' example_points Map.empty =
       (Map.empty, Exit_panic)"
proof -
  have "getenv nokey_env ''GOOGLE_API_KEY'' = []" by (simp add: nokey_env_def)
  from missing_api_key_crashes_worker [OF main_nokey this, where pts = example_points
      and svc = example_service and ef = None and t = "''t''" and s = Map.empty]
  show ?thesis using main_nokey by (auto simp: example_points_def)
qed


end
