(* ===== verification/Table.thy ===== *)
theory Table
  imports JobStore
begin

text \<open>
  The table \<^verbatim>\<open>travel_details\<close> as SQL sees it: a list of rows in insertion
  order. The three statements of the source act on it as SQL does: the
  \<^verbatim>\<open>INSERT\<close> of line 129 appends a row unless the token is already there (the
  unique key the specification's \<open>DuplicateKeyError\<close> names), the \<^verbatim>\<open>UPDATE\<close>
  of line 149 rewrites every row whose token matches, and the \<^verbatim>\<open>QueryRow\<close> of
  line 212 reads the first match. The lemmas show that the map \<open>store\<close> of
  \<open>JobStore\<close>, on which the rest of the development works, is the abstraction of
  this table under which the three statements are \<open>db_insert\<close>, \<open>db_update\<close>
  and \<open>db_select\<close>, and that tokens stay unique.
\<close>

type_synonym table = "job_row list"

definition tbl_insert :: "string \<Rightarrow> token \<Rightarrow> int \<Rightarrow> table \<Rightarrow> db_error + table" where
  "tbl_insert p t st tb =
     (if list_ex (\<lambda>r. row_token r = t) tb then Inl Duplicate_key else Inr (tb @ [new_row p t st]))"

definition tbl_update :: "int \<Rightarrow> int64 \<Rightarrow> int64 \<Rightarrow> string \<Rightarrow> token \<Rightarrow> table \<Rightarrow> table" where
  "tbl_update st d tm e t tb =
     map (\<lambda>r. if row_token r = t
              then r\<lparr>row_status := st, row_total_distance := d, row_total_time := tm,
                     row_response_error := e\<rparr>
              else r) tb"

definition tbl_select :: "token \<Rightarrow> table \<Rightarrow> db_error + job_row" where
  "tbl_select t tb = (case find (\<lambda>r. row_token r = t) tb of None \<Rightarrow> Inl No_rows | Some r \<Rightarrow> Inr r)"

text \<open>The map a table stands for: each token to its first row.\<close>

definition tbl_store :: "table \<Rightarrow> store" where
  "tbl_store tb = map_of (map (\<lambda>r. (row_token r, r)) tb)"

definition tbl_wf :: "table \<Rightarrow> bool" where
  "tbl_wf tb \<longleftrightarrow> distinct (map row_token tb)"

section \<open>Refinement of the map store\<close>

lemma tbl_store_token: "tbl_store tb t = Some r \<Longrightarrow> row_token r = t"
  by (induction tb) (auto simp: tbl_store_def split: if_splits)

lemma tbl_store_None: "tbl_store tb t = None \<longleftrightarrow> \<not> list_ex (\<lambda>r. row_token r = t) tb"
  by (induction tb) (auto simp: tbl_store_def)

lemma tbl_insert_refines:
  "map_sum id tbl_store (tbl_insert p t st tb) = db_insert p t st (tbl_store tb)"
proof (cases "list_ex (\<lambda>r. row_token r = t) tb")
  case True
  then have "tbl_store tb t \<noteq> None" by (simp add: tbl_store_None)
  with True show ?thesis by (auto simp: tbl_insert_def db_insert_def)
next
  case False
  then have "tbl_store tb t = None" by (simp add: tbl_store_None)
  with False show ?thesis
    by (simp add: tbl_insert_def db_insert_def new_row_def)
       (auto simp: tbl_store_def map_add_def fun_eq_iff split: option.split)
qed

lemma tbl_update_refines:
  "tbl_store (tbl_update st d tm e t tb) = db_update st d tm e t (tbl_store tb)"
  by (induction tb) (auto simp: tbl_update_def tbl_store_def db_update_def fun_eq_iff split: option.split)

lemma tbl_select_refines: "tbl_select t tb = db_select t (tbl_store tb)"
  by (induction tb) (auto simp: tbl_select_def tbl_store_def db_select_def)

section \<open>Tokens stay unique\<close>

lemma tbl_wf_insert: "tbl_wf tb \<Longrightarrow> tbl_insert p t st tb = Inr tb' \<Longrightarrow> tbl_wf tb'"
  by (auto simp: tbl_wf_def tbl_insert_def new_row_def list_ex_iff split: if_splits)

lemma tbl_wf_update: "tbl_wf (tbl_update st d tm e t tb) = tbl_wf tb"
proof -
  have "map row_token (tbl_update st d tm e t tb) = map row_token tb"
    by (induction tb) (simp_all add: tbl_update_def)
  then show ?thesis by (simp add: tbl_wf_def)
qed

end
