(* ===== verification/Spec2Isabelle.thy ===== *)
theory Spec2Isabelle
  imports System Startup Reply Interleaving Decode Logging MapsClient Table
begin

text \<open>
  \<^bold>\<open>A verification development for shortest-driving-route-golang-mysql-docker.\<close>

  \<^medskip>\<^bold>\<open>The program.\<close> \<^verbatim>\<open>src/app/shortest_route.go\<close> is an HTTP service
  with two handlers and one background task around a MySQL table:
  \<^item> \<^verbatim>\<open>pathHandler\<close> (\<^verbatim>\<open>POST /route\<close>, lines 82--141) decodes a route
    (a JSON list of \<^verbatim>\<open>[lat, lng]\<close> string pairs), checks it (2 to 26 waypoints,
    two fields each), inserts a row \<^verbatim>\<open>(path, token, status = 0)\<close> into
    \<^verbatim>\<open>travel_details\<close> under a fresh UUID, starts the goroutine
    \<^verbatim>\<open>processRoute\<close> and answers the token;
  \<^item> \<^verbatim>\<open>processRoute\<close> (lines 143--192) asks the Google Distance Matrix
    service for all origin/destination pairs of the route, takes element \<open>i\<close> of
    row \<open>i\<close> for each \<open>i\<close>, and writes the terminal columns of its row: status
    1 with the int64 totals, or status -1 with the first non-\<^verbatim>\<open>OK\<close> status or
    the transport error;
  \<^item> \<^verbatim>\<open>routeHandler\<close> (\<^verbatim>\<open>GET /route/:token\<close>, lines 194--256) reads
    the row and renders \<^verbatim>\<open>shortestRoute\<close> as JSON with \<^verbatim>\<open>omitempty\<close>
    fields.
  The handlers and the goroutines share nothing but the table: the handlers run on
  the HTTP server's goroutines, each worker is detached and writes only its own row.

  \<^medskip>\<^bold>\<open>Theories.\<close>
  \<^item> \<open>Prelude\<close>: the Go types (\<open>int64 = 64 word\<close>, tokens, \<open>route_path\<close>,
    the JSON decoder type), Go's truncating int64 division \<open>go_div64\<close>,
    \<^verbatim>\<open>strings.Join\<close> as \<open>strings_join\<close>, shared word and list lemmas.
  \<^item> \<open>JobStore\<close>: the table as a map from token to \<open>job_row\<close> with
    \<open>db_insert\<close>, \<open>db_update\<close>, \<open>db_select\<close>; the specification's job store,
    the abstraction \<open>abs_store\<close> and its refinement lemmas. The schema is in the
    repository's migrations, not under \<^verbatim>\<open>src/\<close>: modelled from the
    specification (section 4.2). \<open>Table\<close> refines the map by the table as a
    list of rows under SQL's semantics of the three statements.
  \<^item> \<open>Intake\<close>: \<open>pathHandler\<close> (lines 82--141) with its guards in the source's
    order, \<open>check_points\<close> (lines 108--115), \<open>valid_route\<close>.
  \<^item> \<open>Worker\<close>: the Distance Matrix types, \<open>build_request\<close>, the loop
    \<open>sum_rows\<close> with the row index and int64 accumulators, \<open>finish\<close> (one
    \<^verbatim>\<open>stmt.Exec\<close>) and \<open>processRoute\<close> (lines 143--192); the service's
    contract \<open>dm_matrix\<close>/\<open>answers_by\<close>; the specification's aggregate
    \<open>spec_aggregate\<close>.
  \<^item> \<open>Json\<close>: \<^verbatim>\<open>encoding/json\<close>'s encoder as the handlers use it
    (\<open>go_esc\<close>, \<open>json_text\<close>, with \<^verbatim>\<open>utf8.DecodeRune\<close> as
    \<open>utf8_width\<close>) and an RFC 8259 parser \<open>parse_json\<close>, a step machine whose
    loop \<open>run\<close> terminates because every step consumes input; the round trip
    \<open>parse_json_text\<close>.
  \<^item> \<open>Decode\<close>: \<^verbatim>\<open>json.Unmarshal\<close> into \<^verbatim>\<open>routePath\<close> (lines 92 and
    231) as \<open>go_unmarshal\<close>: the parser on the text with invalid UTF-8
    replaced, then the store into slices and strings with the first
    \<^verbatim>\<open>UnmarshalTypeError\<close> in document order.
  \<^item> \<open>Reporter\<close>: \<open>routeHandler_sel\<close>, the handler after the select of
    line 212 (lines 195--246); \<open>routeHandler\<close>, on a read that succeeds, and
    \<open>routeHandler_io\<close>, on a read that may fail on an existing row; the rendering
    \<open>render_route\<close> with \<^verbatim>\<open>omitempty\<close>.
  \<^item> \<open>Reply\<close>: the HTTP replies: \<^verbatim>\<open>http.Error\<close> with the error bodies built
    by concatenation, the token reply and the poll reply, read back with
    \<open>parse_json\<close>.
  \<^item> \<open>Logging\<close>: \<open>processRoute_log\<close>, \<open>pathHandler_log\<close> and
    \<open>routeHandler_log\<close>, the worker and the handlers with the lines they log, each
    equal in its effect to the unlogged definition.
  \<^item> \<open>MapsClient\<close>: the client of line 154 built from the API key of line 25,
    \<^verbatim>\<open>DistanceMatrix\<close> with its request checks, the \<open>nil\<close>-client panic and
    the status error, and \<open>processRoute_client\<close>, the worker on that client, equal
    to \<open>processRoute\<close> when there is a key.
  \<^item> \<open>Startup\<close>: \<open>main\<close> (lines 47--80): flags, DSN, ping, migrations, router,
    with the outcomes \<open>Fatal\<close>, \<open>Panic\<close> and \<open>Serving\<close>.
  \<^item> \<open>System\<close>: the service as a state machine over the store and the in-flight
    workers; events \<open>Submit\<close> and \<open>Run\<close> (one worker to its end);
    \<open>reachable\<close> by an inductive predicate; the invariant \<open>sys_inv\<close>.
  \<^item> \<open>Interleaving\<close>: the goroutine at the granularity of its statements
    (\<^verbatim>\<open>db.Prepare\<close>, the service call, the loop with \<^verbatim>\<open>stmt.Exec\<close>),
    interleaved with requests and other goroutines (\<open>fine_step\<close>,
    \<open>freachable\<close>), and a simulation into \<open>System\<close>.
  \<^item> this theory: end-to-end runs (the specification's examples, the path round
    trip from request to poll).

  \<^medskip>\<^bold>\<open>Modelling choices.\<close> The environment's choices are arguments: the
  body read, the UUID, an I/O failure of a statement (\<open>intake_env\<close>,
  \<open>worker_env\<close>), the Distance Matrix service as a function of the request, and
  the message of a JSON syntax error. The handlers take the decoder as a parameter;
  \<open>Decode\<close> gives Go's, and the examples use a decoder fixed on a few bodies.
  \<open>System\<close> runs a worker as one step; \<open>Interleaving\<close> justifies this: every
  interleaving of single statements is, forgetting the workers' phases, a run of
  \<open>System\<close> (\<open>fine_run_refines\<close>), since a worker touches only its own row and
  writes it in one \<^verbatim>\<open>UPDATE\<close>. Polls are reads. A panic ends the process: the
  store persists and every in-flight worker is lost. The loops of the program
  (\<open>sum_rows\<close>, \<open>check_points\<close>, the JSON scanner) recurse on lists or on
  the input length and need no fuel. The overflow bound of
  \<open>processRoute_totals_exact\<close> lets 25 pairs of at most 2^58 m fit in 2^63;
  durations need only be non-negative, since a duration below 2^63 ns is below
  2^34 s. The encoder escapes as the Go releases before 1.22 do, which the
  repository's dependencies date from: \<^verbatim>\<open>\b\<close> and \<^verbatim>\<open>\f\<close> as
  \<^verbatim>\<open>\u0008\<close> and \<^verbatim>\<open>\u000c\<close>.

  \<^medskip>\<^bold>\<open>Not modelled.\<close> The date the logger prefixes to each line; the
  error branches of the two \<^verbatim>\<open>json.Marshal\<close> calls, which cannot be taken for
  the types marshalled; the HTTP
  framework and the router's matching (a request reaches the handler its route
  names); the Distance Matrix service itself (its HTTP exchange: a function of the
  key and the request, with the contract of \<open>Worker\<close>), and in particular a
  call that never answers (\<^verbatim>\<open>context.Background()\<close> sets no deadline: the
  interleaved model lets a worker wait for ever but proves no bound); the text of \<^verbatim>\<open>encoding/json\<close>'s syntax errors (a
  parameter, fixed only for the one message \<open>Reply\<close> needs); the migrations
  themselves (not in the repository: their effect, one row per token with the
  column defaults, is taken from the specification).

  \<^medskip>\<^bold>\<open>What the development shows.\<close> The job lifecycle is sound where the
  specification asks for it: rows are created pending, change once from pending to
  success or failure and never again, keep the submitted body, a worker touches only
  its own row, and in any interleaving a poll reads a consistent row; the aggregation is the specification's, modulo 2^64 and exactly within the
  bound. It also shows where the code departs from the specification: an unknown or
  empty token polls as "in progress", and so does any job when the read fails; 26
  waypoints are accepted; a failed \<^verbatim>\<open>Prepare\<close> or \<^verbatim>\<open>Exec\<close> leaves a
  job pending for ever; a zero total is
  omitted from the success JSON; a short answer succeeds with partial totals, a
  diagonal-only answer crashes the process on every route of three or more
  waypoints; error bodies are built without escaping
  and can be malformed JSON; \<open>main\<close> ignores the migration's errors and panics on
  a nil handle; and the specification's own example body, with numeric coordinates,
  is rejected by \<^verbatim>\<open>json.Unmarshal\<close> into \<^verbatim>\<open>[][]string\<close>; the
  worker's log prints \<^verbatim>\<open><nil>\<close> for a failed element and reports a job
  completed whose update failed; and without \<^verbatim>\<open>GOOGLE_API_KEY\<close> the service
  starts, accepts jobs and crashes at the first worker's service call.

  \<^medskip>\<^bold>\<open>Claims.\<close> C1--C3, C11--C14, C17 (\<open>System\<close>): invariant, state
  machine, terminal immutability, isolation, completion, the job orphaned by a failed
  \<^verbatim>\<open>Prepare\<close>, the crash on a diagonal-only answer, recognised poll statuses;
  C4--C6, C15, C16, C22, C23 (\<open>Worker\<close>): the worker's results, errors,
  refinement and bounds; C7 (here): the path round trip from request to poll; C8,
  C18, C19, C33 (\<open>Reporter\<close>): poll answers, including a failed read; C9, C10
  (\<open>Intake\<close>): validation and acceptance; C20, C21 (\<open>Startup\<close>); C24--C26
  (\<open>Reply\<close>): the replies as JSON; C27, C28 (\<open>Interleaving\<close>): refinement of
  the interleaved system and consistent rows; C29 (\<open>Decode\<close>): numeric
  coordinates rejected; C30, C31 (\<open>Logging\<close>): the two misleading log lines;
  C32, C34 (\<open>MapsClient\<close>): a service started without an API key crashes at the
  first worker, and a refused request fails its job with the library's message.
  The remaining theorems of the theories (the specification's worked examples, the
  library round trip of \<open>Decode\<close>, the equality of the logged and unlogged worker)
  are supporting facts, not claims.

  \<^medskip>\<^bold>\<open>Further work, in order.\<close> (1) the text of
  \<^verbatim>\<open>encoding/json\<close>'s syntax errors, which needs the parser to carry the
  scanner's error context; (2) injectivity of the \<^verbatim>\<open>"lat,lng"\<close> join for
  comma-free coordinates.
\<close>

section \<open>End-to-end runs\<close>

lemma failed_example:
  "sys_step example_decoder
     (sys_step example_decoder init_sys (Submit (request_env example_body example_token)))
     (Run example_token (contract_env (example_answer ''ZERO_RESULTS''))) =
   \<lparr>sys_db = [example_token \<mapsto> (new_row example_body example_token 0)\<lparr>row_status := -1,
       row_total_distance := 0, row_total_time := 0, row_response_error := ''ZERO_RESULTS''\<rparr>],
    sys_workers = []\<rparr>"
proof -
  have "processRoute (contract_env (example_answer ''ZERO_RESULTS'')) example_token
          [''1,1'', ''2,2'', ''3,3''] [example_token \<mapsto> new_row example_body example_token 0] =
        ([example_token \<mapsto> (new_row example_body example_token 0)\<lparr>row_status := -1,
            row_total_distance := 0, row_total_time := 0, row_response_error := ''ZERO_RESULTS''\<rparr>],
         Exit_failed)"
    using processRoute_contract [of "contract_env (example_answer ''ZERO_RESULTS'')"
        "[''1,1'', ''2,2'', ''3,3'']" "example_answer ''ZERO_RESULTS''" example_token
        "[example_token \<mapsto> new_row example_body example_token 0]"]
    by (simp add: example_eval db_update_def)
  then show ?thesis unfolding submitted_example by simp
qed

text \<open>The specification's examples (section 8), end to end through the three
  components: the route \<^verbatim>\<open>[[1,1],[2,2],[3,3]]\<close> is submitted, its worker runs
  against a service answering (OK, 1000 m, 60 s) and (OK, 2000 m, 120 s), and the
  poll answers success with the path and the totals 3000 and 180; with the second pair
  answered \<^verbatim>\<open>ZERO_RESULTS\<close> the poll answers failure with error
  \<^verbatim>\<open>ZERO_RESULTS\<close> and no totals.\<close>

theorem spec_examples:
  "render_route (routeHandler example_decoder example_token
      (sys_db (run_events example_decoder init_sys
         [Submit (request_env example_body example_token),
          Run example_token (contract_env (example_answer ''OK''))]))) =
     [(''status'', JStr ''success''),
      (''path'', JArr [JArr [JStr ''1'', JStr ''1''], JArr [JStr ''2'', JStr ''2''],
                       JArr [JStr ''3'', JStr ''3'']]),
      (''total_distance'', JInt 3000), (''total_time'', JInt 180)] \<and>
   render_route (routeHandler example_decoder example_token
      (sys_db (run_events example_decoder init_sys
         [Submit (request_env example_body example_token),
          Run example_token (contract_env (example_answer ''ZERO_RESULTS''))]))) =
     [(''status'', JStr ''failure''), (''error'', JStr ''ZERO_RESULTS'')]"
proof
  show "render_route (routeHandler example_decoder example_token
      (sys_db (run_events example_decoder init_sys
         [Submit (request_env example_body example_token),
          Run example_token (contract_env (example_answer ''OK''))]))) =
     [(''status'', JStr ''success''),
      (''path'', JArr [JArr [JStr ''1'', JStr ''1''], JArr [JStr ''2'', JStr ''2''],
                       JArr [JStr ''3'', JStr ''3'']]),
      (''total_distance'', JInt 3000), (''total_time'', JInt 180)]"
    unfolding run_events.simps completed_example
    by (simp add: routeHandler_row render_route_def success_route_def zero_route_def
                  example_decoder_eval new_row_def)
  show "render_route (routeHandler example_decoder example_token
      (sys_db (run_events example_decoder init_sys
         [Submit (request_env example_body example_token),
          Run example_token (contract_env (example_answer ''ZERO_RESULTS''))]))) =
     [(''status'', JStr ''failure''), (''error'', JStr ''ZERO_RESULTS'')]"
    unfolding run_events.simps failed_example
    by (simp add: routeHandler_row render_route_def failure_route_def zero_route_def)
qed

text \<open>C7. Round trip of the path: if a request is answered with token \<open>t\<close> and,
  after any further requests and worker runs, the job of \<open>t\<close> is a success, then the
  poll of \<open>t\<close> answers success with exactly the route decoded from the submitted
  body, which was an accepted route.\<close>

theorem poll_returns_submitted_path:
  assumes "reachable dec s" and "body_read env = Inr body" and "length (new_token env) = 36"
    and "fst (pathHandler dec env (sys_db s)) = Intake_token t"
    and "list_all event_ok es"
    and "sys_db (run_events dec (sys_step dec s (Submit env)) es) t = Some r"
    and "row_status r = 1"
  shows "\<exists>arr. dec body = Inr arr \<and> valid_route arr \<and>
           routeHandler dec t (sys_db (run_events dec (sys_step dec s (Submit env)) es)) =
             success_route arr (row_total_distance r) (row_total_time r)"
proof -
  obtain resp db' w where ph: "pathHandler dec env (sys_db s) = (resp, db', w)"
    by (metis prod_cases3)
  with assms(4) have resp: "resp = Intake_token t" by simp
  from pathHandler_cases [OF ph] resp assms(2) obtain arr where
    t: "t = new_token env" and dec: "dec body = Inr arr" and valid: "valid_route arr"
    and db': "db' = (sys_db s)(t \<mapsto> new_row body t 0)"
    by auto
  have s1: "sys_db (sys_step dec s (Submit env)) t = Some (new_row body t 0)"
    using ph db' by simp
  have "event_ok (Submit env)" using assms(3) by (simp add: event_ok_def)
  with assms(1) have r1: "reachable dec (sys_step dec s (Submit env))"
    by (rule reachable.step)
  from row_path_run [OF r1 assms(5) s1] assms(6) have "row_path r = body"
    by (auto simp: new_row_def)
  with assms(6,7) dec valid show ?thesis
    by (simp add: routeHandler_row)
qed

theorem poll_returns_submitted_path_witness:
  "\<exists>arr. example_decoder example_body = Inr arr \<and> valid_route arr \<and>
     routeHandler example_decoder example_token
       (sys_db (run_events example_decoder
          (sys_step example_decoder init_sys (Submit (request_env example_body example_token)))
          [Run example_token (contract_env (example_answer ''OK''))])) =
     success_route arr 3000 180"
proof -
  have tok: "fst (pathHandler example_decoder (request_env example_body example_token)
                 (sys_db init_sys)) = Intake_token example_token"
    by (simp add: scenario_eval)
  show ?thesis
    using poll_returns_submitted_path [OF reachable.init _ _ tok, of example_body
        "[Run example_token (contract_env (example_answer ''OK''))]"
        "(new_row example_body example_token 0)\<lparr>row_status := 1,
           row_total_distance := 3000, row_total_time := 180, row_response_error := []\<rparr>"]
    unfolding run_events.simps completed_example
    by (simp add: request_env_def example_token_def event_ok_def new_row_def)
qed

end
